(* ===== verification/Rknpu_Prelude.thy ===== *)
theory Rknpu_Prelude
  imports Main "HOL-Library.Word" "HOL-Library.Monad_Syntax"
begin

text \<open>
  Shared vocabulary of the development: machine-integer types, the kernel's error numbers, C's
  signed arithmetic on \<open>int\<close>, the convention for memory faults, the named theorem collections,
  the generic lemmas on options, lists and words the components use, and the two interfaces several of
  them share: transition systems with an invariant, and ledgers of acquired resources.

  Conventions. A C function that returns an error number returns an \<open>int\<close> here (0 or a negative
  error number). A C function that may perform an invalid memory access (a pointer that is NULL, was
  freed, was never initialised, or an index outside its buffer) has an \<open>option\<close> result, and
  \<open>None\<close> is that fault: nothing is claimed about what the machine does afterwards.
\<close>

unbundle bit_operations_syntax

section \<open>Types and constants of the kernel\<close>

type_synonym u8 = "8 word"
type_synonym u16 = "16 word"
type_synonym u32 = "32 word"
type_synonym u64 = "64 word"

text \<open>Error numbers (\<open>asm-generic/errno.h\<close>), positive as in C; functions return their negation.\<close>

abbreviation (input) EIO :: int where "EIO \<equiv> 5"
abbreviation (input) ENXIO :: int where "ENXIO \<equiv> 6"
abbreviation (input) EAGAIN :: int where "EAGAIN \<equiv> 11"
abbreviation (input) ENOMEM :: int where "ENOMEM \<equiv> 12"
abbreviation (input) EFAULT :: int where "EFAULT \<equiv> 14"
abbreviation (input) EBUSY :: int where "EBUSY \<equiv> 16"
abbreviation (input) ENODEV :: int where "ENODEV \<equiv> 19"
abbreviation (input) EINVAL :: int where "EINVAL \<equiv> 22"
abbreviation (input) ENOSYS :: int where "ENOSYS \<equiv> 38"
abbreviation (input) ETIMEDOUT :: int where "ETIMEDOUT \<equiv> 110"
abbreviation (input) ERESTARTSYS :: int where "ERESTARTSYS \<equiv> 512"

text \<open>
  C's \<open>int\<close> is 32 bits wide and the kernel is built with wrapping signed arithmetic: \<open>s32\<close> brings
  a mathematical result back into range, \<open>s64\<close> does so for \<open>int64_t\<close>. Division truncates towards zero.
\<close>

definition s32 :: "int \<Rightarrow> int" where
  "s32 x = (x + 2 ^ 31) mod 2 ^ 32 - 2 ^ 31"

definition s64 :: "int \<Rightarrow> int" where
  "s64 x = (x + 2 ^ 63) mod 2 ^ 64 - 2 ^ 63"

definition cdiv :: "int \<Rightarrow> int \<Rightarrow> int" where
  "cdiv a b = sgn a * sgn b * (\<bar>a\<bar> div \<bar>b\<bar>)"

text \<open>A flag test \<open>x & m\<close> used as a C condition.\<close>

abbreviation has :: "'a::len word \<Rightarrow> 'a word \<Rightarrow> bool" where
  "has x m \<equiv> x AND m \<noteq> 0"

text \<open>A loop over the indices \<open>0 \<dots> n - 1\<close> whose body may fault.\<close>

fun for_each :: "'a list \<Rightarrow> ('a \<Rightarrow> 's \<Rightarrow> 's option) \<Rightarrow> 's \<Rightarrow> 's option" where
  "for_each [] f s = Some s"
| "for_each (x # xs) f s = do { s' \<leftarrow> f x s; for_each xs f s' }"

section \<open>Collections\<close>

named_theorems cint_simps \<open>C integer arithmetic inside its range\<close>
named_theorems frame_simps \<open>what an operation leaves unchanged\<close>

section \<open>C integers\<close>

lemma s32_id [cint_simps]: "- (2 ^ 31) \<le> x \<Longrightarrow> x < 2 ^ 31 \<Longrightarrow> s32 x = x"
  by (simp add: s32_def)

lemma s32_bounds: "- (2 ^ 31) \<le> s32 x \<and> s32 x < 2 ^ 31"
  by (simp add: s32_def)

lemma s64_id [cint_simps]: "- (2 ^ 63) \<le> x \<Longrightarrow> x < 2 ^ 63 \<Longrightarrow> s64 x = x"
  by (simp add: s64_def)

lemma s64_add: "s64 (s64 a + b) = s64 (a + b)" "s64 (s64 a - b) = s64 (a - b)"
proof -
  have "(a + 2 ^ 63) mod 2 ^ 64 - 2 ^ 63 + b + 2 ^ 63 = (a + 2 ^ 63) mod 2 ^ 64 + b" for b :: int by simp
  moreover have "((a + 2 ^ 63) mod 2 ^ 64 + b) mod 2 ^ 64 = (a + 2 ^ 63 + b) mod 2 ^ 64" for b :: int
    by (simp add: mod_add_left_eq)
  ultimately have *: "s64 (s64 a + b) = s64 (a + b)" for b by (simp add: s64_def ac_simps)
  show "s64 (s64 a + b) = s64 (a + b)" "s64 (s64 a - b) = s64 (a - b)"
    using * [of b] * [of "- b"] by simp_all
qed

lemma cdiv_nonneg [cint_simps]: "0 \<le> a \<Longrightarrow> 0 < b \<Longrightarrow> cdiv a b = a div b"
  by (cases "a = 0") (simp_all add: cdiv_def)

lemma int_le_div_iff:
  fixes q a m :: int
  assumes "0 < m"
  shows "q \<le> a div m \<longleftrightarrow> q * m \<le> a"
proof
  assume "q \<le> a div m"
  then have "q * m \<le> a div m * m" using assms by (simp add: mult_right_mono)
  also have "\<dots> \<le> a" using assms pos_mod_sign [of m a] div_mult_mod_eq [of a m] by linarith
  finally show "q * m \<le> a" .
next
  assume "q * m \<le> a"
  then have "q * m div m \<le> a div m" using assms by (rule zdiv_mono1)
  then show "q \<le> a div m" using assms by simp
qed

text \<open>Ceiling division as the code writes it, \<open>(n + m - 1) / m\<close>.\<close>

lemma ceil_div_less_iff:
  fixes k n m :: int
  assumes "0 < m"
  shows "k < (n + m - 1) div m \<longleftrightarrow> k * m < n"
proof -
  have "k < (n + m - 1) div m \<longleftrightarrow> k + 1 \<le> (n + m - 1) div m" by linarith
  also have "\<dots> \<longleftrightarrow> (k + 1) * m \<le> n + m - 1"
    by (rule int_le_div_iff [OF assms])
  also have "\<dots> \<longleftrightarrow> k * m < n" by (simp only: distrib_right mult_1) linarith
  finally show ?thesis .
qed

lemma uint_ucast_u64 [simp]: "uint (ucast (x :: u32) :: u64) = uint x"
  by (simp add: uint_up_ucast is_up)

lemma ucast_u64_inject [simp]: "(ucast (x :: u32) :: u64) = ucast y \<longleftrightarrow> x = y"
  by (simp add: word_uint_eq_iff)

lemma int_or_mask: "(a :: int) OR mask n = a div 2 ^ n * 2 ^ n + mask n"
proof -
  have "a OR mask n = push_bit n (drop_bit n a) OR mask n"
    by (rule bit_eqI) (auto simp: bit_simps)
  also have "\<dots> = push_bit n (drop_bit n a) + mask n"
    by (rule disjunctive_add_eq_or [symmetric]) (rule bit_eqI, auto simp: bit_simps)
  finally show ?thesis by (simp add: push_bit_eq_mult drop_bit_eq_div)
qed

section \<open>Loops that may fault\<close>

lemma for_each_append:
  "for_each (xs @ ys) f s = do { s' \<leftarrow> for_each xs f s; for_each ys f s' }"
  by (induction xs arbitrary: s) (auto split: bind_splits)

text \<open>An invariant of the body is an invariant of the loop.\<close>

lemma for_each_inv:
  assumes "for_each xs f s = Some s'" and "P s"
    and "\<And>x t t'. x \<in> set xs \<Longrightarrow> P t \<Longrightarrow> f x t = Some t' \<Longrightarrow> P t'"
  shows "P s'"
  using assms
  by (induction xs arbitrary: s) (auto simp: bind_eq_Some_conv)

text \<open>A loop whose body does not fault under an invariant does not fault.\<close>

lemma for_each_total:
  assumes "P s" and "\<And>x t. x \<in> set xs \<Longrightarrow> P t \<Longrightarrow> \<exists>t'. f x t = Some t' \<and> P t'"
  shows "\<exists>s'. for_each xs f s = Some s' \<and> P s'"
  using assms
proof (induction xs arbitrary: s)
  case Nil
  then show ?case by simp
next
  case (Cons x xs)
  from Cons.prems(2) [of x s] Cons.prems(1) obtain t where "f x s = Some t" and "P t" by auto
  moreover from Cons.IH [OF \<open>P t\<close>] Cons.prems(2) have "\<exists>s'. for_each xs f t = Some s' \<and> P s'"
    by simp
  ultimately show ?case by simp
qed

text \<open>A loop that reaches an element at which its body faults does not succeed.\<close>

lemma for_each_fault:
  assumes "k \<in> set xs" and "P s" and "\<And>t. P t \<Longrightarrow> f k t = None"
    and "\<And>x t t'. x \<noteq> k \<Longrightarrow> P t \<Longrightarrow> f x t = Some t' \<Longrightarrow> P t'"
  shows "for_each xs f s = None"
  using assms(1,2)
proof (induction xs arbitrary: s)
  case (Cons x xs)
  show ?case
  proof (cases "x = k \<or> f x s = None")
    case True
    then show ?thesis using assms(3) [OF Cons.prems(2)] by auto
  next
    case False
    then obtain t where t: "f x s = Some t" by auto
    with False Cons.prems assms(4) [of x s t] Cons.IH [of t] show ?thesis by simp
  qed
qed simp

section \<open>Transition systems\<close>

text \<open>
  The contract of a state machine with an invariant, shared by the components that are driven by
  several contexts (interrupts, ioctls, work items): the initial states satisfy the invariant and
  every step keeps it, so every state of every execution satisfies it.
\<close>

locale invariant_system =
  fixes init :: "'s \<Rightarrow> bool"
    and step :: "'e \<Rightarrow> 's \<Rightarrow> 's option"
    and inv :: "'s \<Rightarrow> bool"
  assumes inv_init: "init s \<Longrightarrow> inv s"
    and inv_step: "inv s \<Longrightarrow> step e s = Some t \<Longrightarrow> inv t"
begin

lemma inv_run:
  assumes "inv s" and "for_each es step s = Some t"
  shows "inv t"
  using assms(2,1) by (rule for_each_inv) (rule inv_step)

lemma inv_execution: "init s \<Longrightarrow> for_each es step s = Some t \<Longrightarrow> inv t"
  by (rule inv_run [OF inv_init])

end

section \<open>Resource ledgers\<close>

text \<open>
  The contract of a component that counts what it acquires from the kernel, kind by kind: taking and giving
  back change one count by one. A state then holds a set of resources, each once, and the set is tracked
  through the acquisitions and releases of an operation.
\<close>

definition holding :: "'r set \<Rightarrow> 'r \<Rightarrow> int" where
  "holding R = (\<lambda>r. if r \<in> R then 1 else 0)"

lemma holding_empty: "holding {} = (\<lambda>r. 0)"
  by (simp add: holding_def)

locale ledger =
  fixes count :: "'s \<Rightarrow> 'r \<Rightarrow> int"
    and take_res :: "'r \<Rightarrow> 's \<Rightarrow> 's"
    and give_res :: "'r \<Rightarrow> 's \<Rightarrow> 's"
  assumes count_take: "count (take_res r s) = (count s)(r := count s r + 1)"
    and count_give: "count (give_res r s) = (count s)(r := count s r - 1)"
begin

lemma take_holding:
  "count s = holding R \<Longrightarrow> r \<notin> R \<Longrightarrow> count (take_res r s) = holding (insert r R)"
  by (auto simp: count_take holding_def)

lemma give_holding:
  "count s = holding R \<Longrightarrow> r \<in> R \<Longrightarrow> count (give_res r s) = holding (R - {r})"
  by (auto simp: count_give holding_def)

lemma take_all:
  assumes "count s = holding R" and "distinct rs" and "set rs \<inter> R = {}"
  shows "count (fold take_res rs s) = holding (set rs \<union> R)"
  using assms
proof (induction rs arbitrary: s R)
  case (Cons r rs)
  then have "count (take_res r s) = holding (insert r R)" by (intro take_holding) auto
  from Cons.IH [OF this] Cons.prems show ?case by auto
qed simp

lemma give_all:
  assumes "count s = holding R" and "distinct rs" and "set rs \<subseteq> R"
  shows "count (fold give_res rs s) = holding (R - set rs)"
  using assms
proof (induction rs arbitrary: s R)
  case (Cons r rs)
  then have "count (give_res r s) = holding (R - {r})" by (intro give_holding) auto
  moreover have "set rs \<subseteq> R - {r}" using Cons.prems by auto
  ultimately have "count (fold give_res rs (give_res r s)) = holding (R - {r} - set rs)"
    using Cons.prems(2) by (intro Cons.IH) auto
  moreover have "R - {r} - set rs = R - set (r # rs)" by auto
  ultimately show ?case by simp
qed simp

end

end
