(* ===== verification/Rknpu_Types.thy ===== *)
theory Rknpu_Types
  imports Rknpu_Prelude
begin

text \<open>
  The data of the driver: the constants and structures of \<open>rknpu_ioctl.h\<close>, \<open>rknpu_job.h\<close>,
  \<open>rknpu_gem.h\<close>, \<open>rknpu_mm.h\<close>, \<open>rknpu_fence.h\<close> and \<open>rknpu_drv.h\<close>.

  Correspondence. A field \<open>f\<close> of a C structure is a record field \<open>f\<close> behind a prefix that names
  the structure (\<open>sub_\<close> for \<open>rknpu_submit\<close>, \<open>job_\<close> for \<open>rknpu_job\<close>, \<open>obj_\<close> for the GEM object, \<open>cfg_\<close>
  for \<open>rknpu_config\<close>), because record fields share one name space. A fixed-size array is a function
  from its index. A pointer to a job is a natural number looked up in the heap \<open>jobs\<close>; a GEM object
  is addressed by the 64-bit address user space passes around, looked up in \<open>gem_objs\<close>; an address
  missing from its heap is not allocated (never was, or was freed).
\<close>

section \<open>Constants\<close>

subsection \<open>Register offsets (rknpu_ioctl.h)\<close>

abbreviation (input) RKNPU_OFFSET_VERSION :: nat where "RKNPU_OFFSET_VERSION \<equiv> 0x0"
abbreviation (input) RKNPU_OFFSET_VERSION_NUM :: nat where "RKNPU_OFFSET_VERSION_NUM \<equiv> 0x4"
abbreviation (input) RKNPU_OFFSET_PC_OP_EN :: nat where "RKNPU_OFFSET_PC_OP_EN \<equiv> 0x8"
abbreviation (input) RKNPU_OFFSET_PC_DATA_ADDR :: nat where "RKNPU_OFFSET_PC_DATA_ADDR \<equiv> 0x10"
abbreviation (input) RKNPU_OFFSET_PC_DATA_AMOUNT :: nat where "RKNPU_OFFSET_PC_DATA_AMOUNT \<equiv> 0x14"
abbreviation (input) RKNPU_OFFSET_PC_TASK_CONTROL :: nat where "RKNPU_OFFSET_PC_TASK_CONTROL \<equiv> 0x30"
abbreviation (input) RKNPU_OFFSET_PC_DMA_BASE_ADDR :: nat where "RKNPU_OFFSET_PC_DMA_BASE_ADDR \<equiv> 0x34"
abbreviation (input) RKNPU_OFFSET_INT_MASK :: nat where "RKNPU_OFFSET_INT_MASK \<equiv> 0x20"
abbreviation (input) RKNPU_OFFSET_INT_CLEAR :: nat where "RKNPU_OFFSET_INT_CLEAR \<equiv> 0x24"
abbreviation (input) RKNPU_OFFSET_INT_STATUS :: nat where "RKNPU_OFFSET_INT_STATUS \<equiv> 0x28"
abbreviation (input) RKNPU_INT_CLEAR :: u32 where "RKNPU_INT_CLEAR \<equiv> 0x1ffff"
abbreviation (input) RKNPU_PC_DATA_EXTRA_AMOUNT :: u32 where "RKNPU_PC_DATA_EXTRA_AMOUNT \<equiv> 4"

subsection \<open>Memory, sync and job flags (rknpu_ioctl.h)\<close>

abbreviation (input) RKNPU_MEM_CONTIGUOUS :: u32 where "RKNPU_MEM_CONTIGUOUS \<equiv> 0"
abbreviation (input) RKNPU_MEM_NON_CONTIGUOUS :: u32 where "RKNPU_MEM_NON_CONTIGUOUS \<equiv> 0x1"
abbreviation (input) RKNPU_MEM_CACHEABLE :: u32 where "RKNPU_MEM_CACHEABLE \<equiv> 0x2"
abbreviation (input) RKNPU_MEM_WRITE_COMBINE :: u32 where "RKNPU_MEM_WRITE_COMBINE \<equiv> 0x4"
abbreviation (input) RKNPU_MEM_KERNEL_MAPPING :: u32 where "RKNPU_MEM_KERNEL_MAPPING \<equiv> 0x8"
abbreviation (input) RKNPU_MEM_ZEROING :: u32 where "RKNPU_MEM_ZEROING \<equiv> 0x20"
abbreviation (input) RKNPU_MEM_DMA32 :: u32 where "RKNPU_MEM_DMA32 \<equiv> 0x80"
abbreviation (input) RKNPU_MEM_TRY_ALLOC_SRAM :: u32 where "RKNPU_MEM_TRY_ALLOC_SRAM \<equiv> 0x100"
abbreviation (input) RKNPU_MEM_TRY_ALLOC_NBUF :: u32 where "RKNPU_MEM_TRY_ALLOC_NBUF \<equiv> 0x200"
abbreviation (input) RKNPU_MEM_IOMMU_LIMIT_IOVA_ALIGNMENT :: u32 where
  "RKNPU_MEM_IOMMU_LIMIT_IOVA_ALIGNMENT \<equiv> 0x400"

abbreviation (input) RKNPU_MEM_SYNC_TO_DEVICE :: u32 where "RKNPU_MEM_SYNC_TO_DEVICE \<equiv> 0x1"
abbreviation (input) RKNPU_MEM_SYNC_FROM_DEVICE :: u32 where "RKNPU_MEM_SYNC_FROM_DEVICE \<equiv> 0x2"

abbreviation (input) RKNPU_JOB_PC :: u32 where "RKNPU_JOB_PC \<equiv> 0x1"
abbreviation (input) RKNPU_JOB_NONBLOCK :: u32 where "RKNPU_JOB_NONBLOCK \<equiv> 0x2"
abbreviation (input) RKNPU_JOB_PINGPONG :: u32 where "RKNPU_JOB_PINGPONG \<equiv> 0x4"
abbreviation (input) RKNPU_JOB_FENCE_IN :: u32 where "RKNPU_JOB_FENCE_IN \<equiv> 0x8"
abbreviation (input) RKNPU_JOB_FENCE_OUT :: u32 where "RKNPU_JOB_FENCE_OUT \<equiv> 0x10"

subsection \<open>Cores and job state (rknpu_job.h)\<close>

abbreviation (input) RKNPU_MAX_CORES :: nat where "RKNPU_MAX_CORES \<equiv> 3"
abbreviation (input) RKNPU_JOB_DONE :: u32 where "RKNPU_JOB_DONE \<equiv> 0x1"
abbreviation (input) RKNPU_JOB_ASYNC :: u32 where "RKNPU_JOB_ASYNC \<equiv> 0x2"
abbreviation (input) RKNPU_CORE_AUTO_MASK :: u32 where "RKNPU_CORE_AUTO_MASK \<equiv> 0x0"
abbreviation (input) RKNPU_CORE0_MASK :: u32 where "RKNPU_CORE0_MASK \<equiv> 0x1"
abbreviation (input) RKNPU_CORE1_MASK :: u32 where "RKNPU_CORE1_MASK \<equiv> 0x2"
abbreviation (input) RKNPU_CORE2_MASK :: u32 where "RKNPU_CORE2_MASK \<equiv> 0x4"

abbreviation (input) RKNPU_MAX_IOMMU_DOMAIN_NUM :: int where "RKNPU_MAX_IOMMU_DOMAIN_NUM \<equiv> 16"

text \<open>\<open>RKNPU_LOAD_INTERVAL\<close> (rknpu_drv.h): the load sampling interval in nanoseconds.\<close>

abbreviation (input) RKNPU_LOAD_INTERVAL :: int where "RKNPU_LOAD_INTERVAL \<equiv> 1000000000"

section \<open>User interface structures (rknpu_ioctl.h)\<close>

record rknpu_task =
  task_flags :: u32
  task_op_idx :: u32
  task_enable_mask :: u32
  task_int_mask :: u32
  task_int_clear :: u32
  task_int_status :: u32
  task_regcfg_amount :: u32
  task_regcfg_offset :: u32
  task_regcmd_addr :: u64

record rknpu_subcore_task =
  st_task_start :: u32
  st_task_number :: u32

record rknpu_submit =
  sub_flags :: u32
  sub_timeout :: u32
  sub_task_start :: u32
  sub_task_number :: u32
  sub_task_counter :: u32
  sub_priority :: int
  sub_task_obj_addr :: u64
  sub_iommu_domain_id :: u32
  sub_reserved :: u32
  sub_task_base_addr :: u64
  sub_hw_elapse_time :: int
  sub_core_mask :: u32
  sub_fence_fd :: int
  sub_subcore_task :: "nat \<Rightarrow> rknpu_subcore_task"

record rknpu_action =
  act_flags :: u32
  act_value :: u32

record rknpu_mem_create =
  mc_handle :: u32
  mc_flags :: u32
  mc_size :: u64
  mc_obj_addr :: u64
  mc_dma_addr :: u64
  mc_sram_size :: u64
  mc_iommu_domain_id :: int
  mc_core_mask :: u32

record rknpu_mem_map =
  mp_handle :: u32
  mp_reserved :: u32
  mp_offset :: u64

record rknpu_mem_destroy =
  md_handle :: u32
  md_reserved :: u32
  md_obj_addr :: u64

record rknpu_mem_sync =
  ms_flags :: u32
  ms_reserved :: u32
  ms_obj_addr :: u64
  ms_offset :: u64
  ms_size :: u64

section \<open>Device configuration (rknpu_drv.h)\<close>

record rknpu_amount_data =
  offset_clr_all :: nat
  offset_dt_wr :: nat
  offset_dt_rd :: nat
  offset_wt_rd :: nat

text \<open>The function pointers of \<open>rknpu_config\<close> name the functions they can point to.\<close>

datatype irq_handler_fn = rknpu_core0_irq_handler | rknpu_core1_irq_handler | rknpu_core2_irq_handler
datatype state_init_fn = rk3576_state_init_fn
datatype cache_sgt_init_fn = rk3576_cache_sgt_init_fn

record rknpu_irqs_data =
  irq_name :: string
  irq_hdl :: irq_handler_fn

record rknpu_config =
  cfg_bw_priority_addr :: u32
  cfg_bw_priority_length :: u32
  cfg_dma_mask :: u64
  cfg_pc_data_amount_scale :: u32
  cfg_pc_task_number_bits :: nat
  cfg_pc_task_number_mask :: u32
  cfg_pc_task_status_offset :: nat
  cfg_pc_dma_ctrl :: u32
  cfg_irqs :: "rknpu_irqs_data list"
  cfg_num_irqs :: nat
  cfg_nbuf_phyaddr :: u64
  cfg_nbuf_size :: u64
  cfg_max_submit_number :: u64
  cfg_core_mask :: u32
  cfg_amount_top :: "rknpu_amount_data option"
  cfg_amount_core :: "rknpu_amount_data option"
  cfg_state_init :: "state_init_fn option"
  cfg_cache_sgt_init :: "cache_sgt_init_fn option"

text \<open>
  Kernel build options the code tests. \<open>Kbuild\<close> sets \<open>CONFIG_ROCKCHIP_RKNPU_DRM_GEM\<close> and neither of the others;
  without it the driver is built with \<open>CONFIG_ROCKCHIP_RKNPU_DMA_HEAP\<close> instead.
\<close>

record build_config =
  CONFIG_NO_GKI :: bool
  CONFIG_ROCKCHIP_RKNPU_SRAM :: bool
  CONFIG_ROCKCHIP_RKNPU_DRM_GEM :: bool

section \<open>Jobs and the per-core scheduler state (rknpu_job.h, rknpu_drv.h)\<close>

type_synonym job_ptr = nat
type_synonym fence_ptr = nat

text \<open>
  An embedded \<open>struct list_head\<close> (\<open>job->head[i]\<close>): all zero as \<open>kzalloc\<close> leaves it, pointing to itself
  (\<open>INIT_LIST_HEAD\<close>, \<open>list_del_init\<close>), linked into the core's \<open>todo_list\<close>, or poisoned by \<open>list_del\<close>.
  Only the self-pointing node satisfies \<open>list_empty\<close>.
\<close>

datatype list_node = Node_Zero | Node_Self | Node_Linked | Node_Poison

text \<open>\<open>struct rknpu_task *\<close>: the object whose kernel mapping holds the task, and the task's index.\<close>

type_synonym task_ptr = "u64 \<times> nat"

record rknpu_job =
  job_head :: "nat \<Rightarrow> list_node"
  job_cleanup_work :: bool  \<comment> \<open>\<open>INIT_WORK\<close> was called\<close>
  job_irq_entry :: "nat \<Rightarrow> bool"
  job_flags :: u32
  job_ret :: int
  job_args :: rknpu_submit
  job_args_owner :: bool
  job_first_task :: "task_ptr option"
  job_last_task :: "task_ptr option"
  job_int_mask :: "nat \<Rightarrow> u32"
  job_int_status :: "nat \<Rightarrow> u32"
  job_fence :: "fence_ptr option"
  job_timestamp :: int
  job_use_core_num :: nat
  job_run_count :: int
  job_interrupt_count :: int
  job_hw_commit_time :: int
  job_hw_recoder_time :: int
  job_hw_elapse_time :: int
  job_submit_count :: "nat \<Rightarrow> int"
  job_iommu_domain_id :: int

record rknpu_subcore_data =
  todo_list :: "job_ptr list"
  job_done_wq :: nat  \<comment> \<open>how often the queue was woken\<close>
  subcore_job :: "job_ptr option"
  task_num :: int
  busy_time :: int
  total_busy_time :: int

section \<open>Fences (rknpu_fence.h)\<close>

record dma_fence =
  fence_context_id :: nat
  fence_seqno :: u64
  fence_signaled :: bool
  fence_refcount :: int

record rknpu_fence_context =
  fctx_context :: nat
  fctx_seqno :: u32

section \<open>IOMMU, reset and power state (fields of struct rknpu_device)\<close>

type_synonym domain = nat

text \<open>
  The fields of \<open>rknpu_device\<close> used by \<open>rknpu_iommu.c\<close>, and the kernel state behind them: the domain
  the device is attached to (\<open>iommu_get_domain_for_dev\<close>) and the group's default domain.
\<close>

record iommu_state =
  iommu_en :: bool
  iommu_domain_num :: int
  iommu_domain_id :: int
  iommu_domains :: "int \<Rightarrow> domain option"
  iommu_domain_refcount :: int
  attached_domain :: "domain option"
  default_domain :: "domain option"

record reset_state =
  bypass_soft_reset :: bool
  soft_reseting :: bool
  reset_lock :: bool
  srsts :: "nat option list"
  num_srsts :: nat
  line_asserted :: "nat \<Rightarrow> bool"  \<comment> \<open>the reset lines, as the hardware sees them\<close>

text \<open>The rails \<open>rknpu_power_on\<close> switches on, in its order; \<open>Genpd i\<close> is \<open>genpd_dev_npu<i>\<close>.\<close>

datatype power_rail = Vdd | Mem | Clk | Genpd nat | PmDev

text \<open>
  \<open>usage s\<close> is the number of enables minus the number of disables of a rail, as the regulator, clock
  and runtime-PM cores count them.
\<close>

record power_state =
  power_refcount :: int
  cmdline_power_refcount :: int
  power_put_delay :: nat
  power_off_work :: bool  \<comment> \<open>the delayed work is queued\<close>
  has_vdd :: bool
  has_mem :: bool
  has_genpd :: "nat \<Rightarrow> bool"
  multiple_domains :: bool
  usage :: "power_rail \<Rightarrow> int"
  has_devfreq :: bool
  devfreq_lock :: bool

text \<open>
  Frequency scaling: the fields of \<open>rknpu_device\<close> used by \<open>rknpu_devfreq.c\<close>, and those of the kernel's
  \<open>struct devfreq\<close> the driver writes (\<open>df_\<close>).
\<close>

record devfreq_state =
  current_freq :: u64
  current_volt :: u64
  ondemand_freq :: u64
  df_previous_freq :: u64
  df_suspend_freq :: u64
  df_resume_freq :: u64
  df_last_frequency :: u64
  df_last_total_time :: u64
  df_last_busy_time :: u64

section \<open>Buffers (rknpu_gem.h, rknpu_mm.h)\<close>

record scatterlist =
  sg_phys :: u64
  sg_length :: u64

record sg_table =
  sgl :: "scatterlist list"
  sg_nents :: nat
  sg_orig_nents :: nat

text \<open>A segment of the on-chip buffer (\<open>sg_set_page (sgl, NULL, length, offset)\<close>).\<close>

record cache_segment =
  seg_offset :: u64
  seg_length :: u64

record rknpu_mm =
  mm_chunk_size :: u32
  mm_total_chunks :: u32
  mm_free_chunks :: u32

record rknpu_mm_obj =
  range_start :: u32
  range_end :: u32

text \<open>
  The GEM object. \<open>obj_refcount\<close> is the reference count of the embedded \<open>drm_gem_object\<close>, \<open>obj_kv_tasks\<close>
  the contents of the kernel mapping read as an array of tasks (meaningful when \<open>obj_kv_addr\<close> is not 0).
\<close>

record rknpu_gem_object =
  obj_refcount :: int
  obj_import_attach :: bool
  obj_gfp_zero :: bool  \<comment> \<open>the page allocation mask of the backing file has \<open>__GFP_ZERO\<close>\<close>
  obj_gfp_dma32 :: bool  \<comment> \<open>\<open>\<dots>\<close> and \<open>__GFP_DMA32\<close>\<close>
  obj_flags :: u32
  obj_size :: u64
  obj_sram_size :: u64
  obj_nbuf_size :: u64
  obj_sram_obj :: "rknpu_mm_obj option"
  obj_iova_start :: u64
  obj_iova_size :: u64
  obj_cookie :: u64
  obj_kv_addr :: u64
  obj_kv_tasks :: "rknpu_task list"
  obj_dma_addr :: u64
  obj_dma_attrs :: u64
  obj_num_pages :: u64
  obj_pages :: "u64 list option"  \<comment> \<open>page frame numbers of the backing pages\<close>
  obj_sgt :: "sg_table option"
  obj_iommu_domain_id :: int
  obj_core_mask :: u32
  obj_cache_with_sgt :: bool

text \<open>What an object's construction acquires from the kernel, counted by kind.\<close>

datatype gem_resource =
    R_object      \<comment> \<open>the object itself and its DRM core state\<close>
  | R_shmem_pages \<comment> \<open>\<open>drm_gem_get_pages\<close> / \<open>drm_gem_put_pages\<close>\<close>
  | R_page_array  \<comment> \<open>\<open>rknpu_gem_alloc_page\<close> / \<open>rknpu_gem_free_page\<close>\<close>
  | R_sgt         \<comment> \<open>a scatter-gather table\<close>
  | R_dma_map     \<comment> \<open>\<open>dma_map_sg\<close> / \<open>dma_unmap_sg\<close>\<close>
  | R_vmap        \<comment> \<open>\<open>vmap\<close> / \<open>vunmap\<close>\<close>
  | R_dma_alloc   \<comment> \<open>\<open>dma_alloc_attrs\<close> / \<open>dma_free_attrs\<close>\<close>
  | R_iova        \<comment> \<open>a range of I/O addresses\<close>
  | R_sram        \<comment> \<open>\<open>rknpu_mm_alloc\<close> / \<open>rknpu_mm_free\<close>\<close>

text \<open>What \<open>rknpu_probe\<close> acquires and has to give back by itself (not through \<open>devm\<close>), counted by kind.\<close>

datatype dev_resource =
    R_iommu_group | R_reserved_mem | R_drm_dev | R_fake_dev | R_pm_enabled | R_pm_domain nat
  | R_governor | R_power_off_wq | R_sram_mm | R_cache_sgt nat | R_debugger | R_timer

section \<open>The device\<close>

text \<open>The register windows the driver maps: one per core, and the bandwidth-priority block.\<close>

datatype mmio_region = Core nat | Bw_Priority

record rknpu_device =
  config :: rknpu_config
  build :: build_config
  mmio :: "(mmio_region \<times> nat \<times> u32) list"  \<comment> \<open>register writes, in program order\<close>
  has_bw_priority_base :: bool
  iommu :: iommu_state
  rst :: reset_state
  pwr :: power_state
  sram_start :: u64
  sram_size :: u32
  sram_mm :: "rknpu_mm option"
  nbuf_start :: u64
  nbuf_size :: u32
  cache_sgt :: "nat \<Rightarrow> cache_segment list option"
  gem_objs :: "u64 \<rightharpoonup> rknpu_gem_object"
  gem_handles :: "(nat \<times> u32) \<rightharpoonup> u64"  \<comment> \<open>handle tables: open file and handle\<close>
  gem_count :: "gem_resource \<Rightarrow> int"
  io_map :: "(u64 \<times> u64 \<times> u64) list"  \<comment> \<open>\<open>iommu_map\<close> entries: I/O address, physical address, size\<close>
  fence_ctx :: rknpu_fence_context
  fences :: "fence_ptr \<rightharpoonup> dma_fence"
  subcore_datas :: "nat \<Rightarrow> rknpu_subcore_data"
  jobs :: "job_ptr \<rightharpoonup> rknpu_job"
  cleanup_works :: "job_ptr list"  \<comment> \<open>jobs whose cleanup work is scheduled\<close>
  sram_end :: u64
  nbuf_end :: u64
  sram_base_io :: u64
  nbuf_base_io :: u64
  dvfs :: devfreq_state
  dev_count :: "dev_resource \<Rightarrow> int"

subsection \<open>Access helpers\<close>

text \<open>\<open>writel\<close> through a mapped window.\<close>

definition reg_write :: "mmio_region \<Rightarrow> nat \<Rightarrow> u32 \<Rightarrow> rknpu_device \<Rightarrow> rknpu_device" where
  "reg_write r off v s = s\<lparr>mmio := mmio s @ [(r, off, v)]\<rparr>"

definition upd_subcore ::
    "nat \<Rightarrow> (rknpu_subcore_data \<Rightarrow> rknpu_subcore_data) \<Rightarrow> rknpu_device \<Rightarrow> rknpu_device" where
  "upd_subcore i f s = s\<lparr>subcore_datas := (subcore_datas s)(i := f (subcore_datas s i))\<rparr>"

text \<open>An access through a job pointer faults when the job is not allocated.\<close>

definition upd_job :: "job_ptr \<Rightarrow> (rknpu_job \<Rightarrow> rknpu_job) \<Rightarrow> rknpu_device \<Rightarrow> rknpu_device option" where
  "upd_job j f s = do { J \<leftarrow> jobs s j; Some (s\<lparr>jobs := (jobs s)(j \<mapsto> f J)\<rparr>) }"

definition wake_up :: "nat \<Rightarrow> rknpu_device \<Rightarrow> rknpu_device" where
  "wake_up i s = upd_subcore i (\<lambda>d. d\<lparr>job_done_wq := job_done_wq d + 1\<rparr>) s"

lemma reg_write_frame [frame_simps, simp]:
  "config (reg_write r off v s) = config s" "subcore_datas (reg_write r off v s) = subcore_datas s"
  "jobs (reg_write r off v s) = jobs s" "gem_objs (reg_write r off v s) = gem_objs s"
  "iommu (reg_write r off v s) = iommu s" "rst (reg_write r off v s) = rst s"
  "pwr (reg_write r off v s) = pwr s" "fences (reg_write r off v s) = fences s"
  "cleanup_works (reg_write r off v s) = cleanup_works s" "build (reg_write r off v s) = build s"
  "mmio (reg_write r off v s) = mmio s @ [(r, off, v)]"
  by (simp_all add: reg_write_def)

lemma upd_subcore_frame [frame_simps, simp]:
  "config (upd_subcore i f s) = config s" "mmio (upd_subcore i f s) = mmio s"
  "jobs (upd_subcore i f s) = jobs s" "gem_objs (upd_subcore i f s) = gem_objs s"
  "iommu (upd_subcore i f s) = iommu s" "rst (upd_subcore i f s) = rst s"
  "pwr (upd_subcore i f s) = pwr s" "fences (upd_subcore i f s) = fences s"
  "cleanup_works (upd_subcore i f s) = cleanup_works s" "build (upd_subcore i f s) = build s"
  "subcore_datas (upd_subcore i f s) = (subcore_datas s)(i := f (subcore_datas s i))"
  by (simp_all add: upd_subcore_def)

lemma upd_job_eq_Some:
  "upd_job j f s = Some t \<longleftrightarrow> (\<exists>J. jobs s j = Some J \<and> t = s\<lparr>jobs := (jobs s)(j \<mapsto> f J)\<rparr>)"
  by (auto simp: upd_job_def bind_eq_Some_conv)

end
