(* ===== verification/Rknpu_Iommu.thy ===== *)
theory Rknpu_Iommu
  imports Rknpu_Types
begin

text \<open>
  \<open>rknpu_iommu.c\<close>: switching the device between I/O address spaces (domains). A client brackets its
  use of a domain between \<open>rknpu_iommu_domain_get_and_switch\<close> and \<open>rknpu_iommu_domain_put\<close>; the domain
  may only be switched while nobody holds it. Both builds of the file are modelled: the full one
  (\<open>CONFIG_NO_GKI\<close>) and the stubs the default build compiles.

  The theory shows that a holder never loses its domain, that the bracket is balanced on success and
  on every failure, that switching keeps the domain table consistent with what the hardware is attached
  to, and that a failed switch changes nothing.
\<close>

section \<open>Model\<close>

text \<open>
  What the kernel answers: \<open>has_bus\<close>, the device has a bus; \<open>attach_ret d\<close>, the result of
  \<open>iommu_attach_device\<close> for domain \<open>d\<close>; \<open>new_domain\<close>, what \<open>iommu_domain_alloc\<close> returns; \<open>wait_rounds\<close>, how
  many sleeps fit before \<open>jiffies\<close> passes the deadline of \<open>RKNPU_SWITCH_DOMAIN_WAIT_TIME_MS\<close>; \<open>others k\<close>,
  what other contexts do to the IOMMU state during the \<open>k\<close>-th sleep, counted from the end.
\<close>

record iommu_env =
  has_bus :: bool
  attach_ret :: "domain \<Rightarrow> int"
  new_domain :: "domain option"
  wait_rounds :: nat
  others :: "nat \<Rightarrow> iommu_state \<Rightarrow> iommu_state"

text \<open>
  \<open>iommu_detach_device\<close> and \<open>iommu_attach_device\<close> of the kernel, on the attachment. Detaching gives the device
  back to the default domain of its group (to none when the group has no default domain): this is why the
  driver makes every domain it switches to the group's default. A failed attach changes nothing.
\<close>

definition iommu_detach_device :: "iommu_state \<Rightarrow> iommu_state" where
  "iommu_detach_device s = s\<lparr>attached_domain := default_domain s\<rparr>"

definition iommu_attach_device :: "iommu_env \<Rightarrow> domain \<Rightarrow> iommu_state \<Rightarrow> int \<times> iommu_state" where
  "iommu_attach_device env d s =
    (attach_ret env d, if attach_ret env d = 0 then s\<lparr>attached_domain := Some d\<rparr> else s)"

definition rknpu_iommu_init_domain :: "bool \<Rightarrow> domain option \<Rightarrow> iommu_state \<Rightarrow> int \<times> iommu_state" where
  "rknpu_iommu_init_domain no_gki dom_for_dev s =
    (0, if no_gki \<and> iommu_domains s 0 = None then
          s\<lparr>iommu_domain_id := 0, iommu_domains := (iommu_domains s)(0 := dom_for_dev),
            iommu_domain_num := 1\<rparr>
        else s)"

definition rknpu_iommu_switch_domain :: "iommu_env \<Rightarrow> int \<Rightarrow> iommu_state \<Rightarrow> int \<times> iommu_state" where
  "rknpu_iommu_switch_domain env domain_id s =
    (if \<not> iommu_en s then (- EINVAL, s)
     else if domain_id < 0 \<or> domain_id > RKNPU_MAX_IOMMU_DOMAIN_NUM - 1 then (- EINVAL, s)
     else if \<not> has_bus env then (- EFAULT, s)
     else
       let src_domain_id = iommu_domain_id s in
       if domain_id = src_domain_id then (0, s)
       else
         let src_domain = attached_domain s in
         if src_domain \<noteq> iommu_domains s src_domain_id then (- EINVAL, s)
         else
           case iommu_domains s domain_id of
             Some dst_domain \<Rightarrow>
               (let s1 = iommu_detach_device s;
                    (ret, s2) = iommu_attach_device env dst_domain s1
                in if ret \<noteq> 0 then
                     (ret, case src_domain of None \<Rightarrow> s2
                           | Some d \<Rightarrow> snd (iommu_attach_device env d s2))
                   else (ret, s2\<lparr>iommu_domain_id := domain_id, default_domain := Some dst_domain\<rparr>))
           | None \<Rightarrow>
               (case new_domain env of
                  None \<Rightarrow> (- EIO, s)
                | Some dst_domain \<Rightarrow>
                    (let s1 = iommu_detach_device s;
                         (ret, s2) = iommu_attach_device env dst_domain s1
                     in if ret \<noteq> 0 then (ret, s2)
                        else (ret, s2\<lparr>iommu_domain_id := domain_id,
                                      iommu_domains := (iommu_domains s2)(domain_id := Some dst_domain),
                                      iommu_domain_num := iommu_domain_num s2 + 1,
                                      default_domain := Some dst_domain\<rparr>))))"

text \<open>
  One round of the loop in \<open>rknpu_iommu_domain_get_and_switch\<close>, under \<open>domain_lock\<close>: \<open>None\<close> when the
  domain is held by somebody else and the caller has to sleep.
\<close>

definition rknpu_iommu_domain_try :: "iommu_env \<Rightarrow> int \<Rightarrow> iommu_state \<Rightarrow> (int \<times> iommu_state) option" where
  "rknpu_iommu_domain_try env domain_id s =
    (if domain_id = iommu_domain_id s then
       Some (0, s\<lparr>iommu_domain_refcount := iommu_domain_refcount s + 1\<rparr>)
     else if iommu_domain_refcount s = 0 then
       (let (ret, s') = rknpu_iommu_switch_domain env domain_id s
        in if ret \<noteq> 0 then Some (ret, s')
           else Some (0, s'\<lparr>iommu_domain_refcount := iommu_domain_refcount s' + 1\<rparr>))
     else None)"

text \<open>The loop: \<open>n\<close> sleeps are left before the deadline has passed.\<close>

fun rknpu_iommu_domain_loop :: "nat \<Rightarrow> iommu_env \<Rightarrow> int \<Rightarrow> iommu_state \<Rightarrow> int \<times> iommu_state" where
  "rknpu_iommu_domain_loop n env domain_id s =
    (case rknpu_iommu_domain_try env domain_id s of
       Some r \<Rightarrow> r
     | None \<Rightarrow>
         (case n of
            0 \<Rightarrow> (- EINVAL, others env 0 s)
          | Suc m \<Rightarrow> rknpu_iommu_domain_loop m env domain_id (others env n s)))"

declare rknpu_iommu_domain_loop.simps [simp del]

definition rknpu_iommu_domain_get_and_switch ::
    "bool \<Rightarrow> iommu_env \<Rightarrow> int \<Rightarrow> iommu_state \<Rightarrow> int \<times> iommu_state" where
  "rknpu_iommu_domain_get_and_switch no_gki env domain_id s =
    (if no_gki then rknpu_iommu_domain_loop (wait_rounds env) env domain_id s else (0, s))"

definition rknpu_iommu_domain_put :: "bool \<Rightarrow> iommu_state \<Rightarrow> int \<times> iommu_state" where
  "rknpu_iommu_domain_put no_gki s =
    (0, if no_gki then s\<lparr>iommu_domain_refcount := iommu_domain_refcount s - 1\<rparr> else s)"

text \<open>The loop of \<open>rknpu_iommu_free_domains\<close> over the table; detaching drops the attachment.\<close>

definition free_domain_slot :: "int \<Rightarrow> iommu_state \<Rightarrow> iommu_state" where
  "free_domain_slot i s =
    (case iommu_domains s i of
       None \<Rightarrow> s
     | Some d \<Rightarrow> (if attached_domain s = Some d then iommu_detach_device s else s)
                 \<lparr>iommu_domains := (iommu_domains s)(i := None)\<rparr>)"

definition rknpu_iommu_free_domains :: "bool \<Rightarrow> iommu_env \<Rightarrow> iommu_state \<Rightarrow> iommu_state" where
  "rknpu_iommu_free_domains no_gki env s =
    (if \<not> no_gki then s
     else
       let (ret, s1) = rknpu_iommu_domain_get_and_switch no_gki env 0 s in
       if ret \<noteq> 0 then s1
       else snd (rknpu_iommu_domain_put no_gki (fold free_domain_slot [1..15] s1)))"

subsection \<open>At the level of the device\<close>

definition dev_domain_get :: "iommu_env \<Rightarrow> int \<Rightarrow> rknpu_device \<Rightarrow> int \<times> rknpu_device" where
  "dev_domain_get env domain_id s =
    (let (ret, io) = rknpu_iommu_domain_get_and_switch (CONFIG_NO_GKI (build s)) env domain_id (iommu s)
     in (ret, s\<lparr>iommu := io\<rparr>))"

definition dev_domain_put :: "rknpu_device \<Rightarrow> rknpu_device" where
  "dev_domain_put s = s\<lparr>iommu := snd (rknpu_iommu_domain_put (CONFIG_NO_GKI (build s)) (iommu s))\<rparr>"

subsection \<open>Consistency and holders\<close>

text \<open>
  The table agrees with the hardware: the device is attached to the domain the table has for the
  current identifier, which is also the default of its group, the identifier is in range, and two
  identifiers never share a domain.
\<close>

definition iommu_consistent :: "iommu_state \<Rightarrow> bool" where
  "iommu_consistent s \<longleftrightarrow>
     0 \<le> iommu_domain_id s \<and> iommu_domain_id s < RKNPU_MAX_IOMMU_DOMAIN_NUM \<and>
     iommu_domains s (iommu_domain_id s) \<noteq> None \<and>
     attached_domain s = iommu_domains s (iommu_domain_id s) \<and> default_domain s = attached_domain s \<and>
     (\<forall>i j d. iommu_domains s i = Some d \<longrightarrow> iommu_domains s j = Some d \<longrightarrow> i = j)"

text \<open>
  The system of clients: each round of each client's loop is one atomic step (the domain lock is held),
  and the identifiers of the clients that currently hold the domain are recorded beside the state.
\<close>

datatype lease_event = Acquire iommu_env int | Release

fun lease_step :: "lease_event \<Rightarrow> iommu_state \<times> int list \<Rightarrow> (iommu_state \<times> int list) option" where
  "lease_step (Acquire env i) (s, hs) =
     (case rknpu_iommu_domain_try env i s of
        None \<Rightarrow> Some (s, hs)
      | Some (ret, s') \<Rightarrow> Some (s', if ret = 0 then i # hs else hs))"
| "lease_step Release (s, hs) =
     (case hs of [] \<Rightarrow> None | h # hs' \<Rightarrow> Some (snd (rknpu_iommu_domain_put True s), hs'))"

definition lease_init :: "iommu_state \<times> int list \<Rightarrow> bool" where
  "lease_init p \<longleftrightarrow> iommu_domain_refcount (fst p) = 0 \<and> snd p = []"

definition lease_inv :: "iommu_state \<times> int list \<Rightarrow> bool" where
  "lease_inv p \<longleftrightarrow>
     iommu_domain_refcount (fst p) = int (length (snd p)) \<and>
     (\<forall>h\<in>set (snd p). h = iommu_domain_id (fst p))"

section \<open>Lemmas\<close>

lemma attach_detach_simps [simp]:
  "iommu_domain_refcount (iommu_detach_device s) = iommu_domain_refcount s"
  "iommu_domains (iommu_detach_device s) = iommu_domains s"
  "iommu_domain_id (iommu_detach_device s) = iommu_domain_id s"
  "iommu_en (iommu_detach_device s) = iommu_en s"
  "attached_domain (iommu_detach_device s) = default_domain s"
  "iommu_domain_refcount (snd (iommu_attach_device env d s)) = iommu_domain_refcount s"
  "iommu_domains (snd (iommu_attach_device env d s)) = iommu_domains s"
  "iommu_domain_id (snd (iommu_attach_device env d s)) = iommu_domain_id s"
  "iommu_en (snd (iommu_attach_device env d s)) = iommu_en s"
  by (simp_all add: iommu_detach_device_def iommu_attach_device_def)

lemmas switch_unfold =
  rknpu_iommu_switch_domain_def iommu_attach_device_def iommu_detach_device_def Let_def

lemma switch_refcount:
  "iommu_domain_refcount (snd (rknpu_iommu_switch_domain env i s)) = iommu_domain_refcount s"
  by (simp add: switch_unfold split: option.splits)

lemma switch_ok_id:
  "rknpu_iommu_switch_domain env i s = (0, t) \<Longrightarrow> iommu_domain_id t = i"
  by (auto simp: switch_unfold split: option.splits if_splits)

lemma switch_fail_id:
  "rknpu_iommu_switch_domain env i s = (r, t) \<Longrightarrow> r \<noteq> 0 \<Longrightarrow> iommu_domain_id t = iommu_domain_id s"
  by (auto simp: switch_unfold split: option.splits if_splits)

lemma attach_same: "attached_domain s = Some d \<Longrightarrow> snd (iommu_attach_device env d s) = s"
  by (simp add: iommu_attach_device_def)

lemma try_cases:
  assumes "rknpu_iommu_domain_try env i s = Some (ret, t)"
  obtains (ok) "ret = 0" "iommu_domain_id t = i"
      "iommu_domain_refcount t = iommu_domain_refcount s + 1"
      "i = iommu_domain_id s \<or> iommu_domain_refcount s = 0"
  | (fail) "ret \<noteq> 0" "iommu_domain_id t = iommu_domain_id s"
      "iommu_domain_refcount t = iommu_domain_refcount s" "iommu_domain_refcount s = 0"
proof (cases "i = iommu_domain_id s")
  case True
  with assms show ?thesis by (intro ok) (auto simp: rknpu_iommu_domain_try_def)
next
  case False
  obtain r u where sw: "rknpu_iommu_switch_domain env i s = (r, u)" by fastforce
  have rc: "iommu_domain_refcount u = iommu_domain_refcount s"
    using switch_refcount [of env i s] by (simp add: sw)
  show ?thesis
  proof (cases "r = 0")
    case True
    with False assms sw rc switch_ok_id [of env i s u] show ?thesis
      by (intro ok) (auto simp: rknpu_iommu_domain_try_def split: if_splits)
  next
    case r: False
    with False assms sw rc switch_fail_id [OF sw r] show ?thesis
      by (intro fail) (auto simp: rknpu_iommu_domain_try_def split: if_splits)
  qed
qed

lemma loop_quiet:
  assumes "\<And>k u. others env k u = u"
  shows "rknpu_iommu_domain_loop n env i s =
           (case rknpu_iommu_domain_try env i s of None \<Rightarrow> (- EINVAL, s) | Some r \<Rightarrow> r)"
  by (induction n) (simp_all add: rknpu_iommu_domain_loop.simps assms split: option.splits)

section \<open>The bracket as an interface\<close>

text \<open>
  What a client of the bracket may rely on, in either build: acquiring either succeeds and counts one
  holder (\<open>unit\<close>, 0 in the stub build), or fails and counts none; releasing gives the holder back.
\<close>

locale domain_lease =
  fixes acquire :: "int \<Rightarrow> 's \<Rightarrow> int \<times> 's"
    and release :: "'s \<Rightarrow> 's"
    and holders :: "'s \<Rightarrow> int"
    and unit :: int
  assumes acquire_ok: "acquire i s = (0, t) \<Longrightarrow> holders t = holders s + unit"
    and acquire_fail: "acquire i s = (r, t) \<Longrightarrow> r \<noteq> 0 \<Longrightarrow> holders t = holders s"
    and release_one: "holders (release s) = holders s - unit"
begin

text \<open>A body that leaves the count alone, run inside the bracket, leaves the count as it was.\<close>

lemma bracket_balanced:
  assumes "\<And>u. holders (body u) = holders u"
  shows "holders (let (r, t) = acquire i s in if r = 0 then release (body t) else t) = holders s"
proof -
  obtain r t where a: "acquire i s = (r, t)" by fastforce
  show ?thesis
  proof (cases "r = 0")
    case True
    with a have "holders t = holders s + unit" by (simp add: acquire_ok)
    with True a assms show ?thesis by (simp add: release_one)
  next
    case False
    with a acquire_fail [OF a] show ?thesis by simp
  qed
qed

text \<open>A failed acquire followed by a release loses a holder: the release is unmatched.\<close>

lemma unmatched_release:
  "acquire i s = (r, t) \<Longrightarrow> r \<noteq> 0 \<Longrightarrow> holders (release t) = holders s - unit"
  using acquire_fail [of i s r t] by (simp add: release_one)

end

interpretation lease: domain_lease
  "rknpu_iommu_domain_get_and_switch no_gki (env\<lparr>others := \<lambda>k u. u\<rparr>)"
  "\<lambda>s. snd (rknpu_iommu_domain_put no_gki s)"
  iommu_domain_refcount "if no_gki then 1 else 0"
  for no_gki :: bool and env :: iommu_env
proof unfold_locales
  fix i s t
  assume "rknpu_iommu_domain_get_and_switch no_gki (env\<lparr>others := \<lambda>k u. u\<rparr>) i s = (0, t)"
  then show "iommu_domain_refcount t = iommu_domain_refcount s + (if no_gki then 1 else 0)"
    by (auto simp: rknpu_iommu_domain_get_and_switch_def loop_quiet
        split: if_splits option.splits elim!: try_cases)
next
  fix i s r t
  assume "rknpu_iommu_domain_get_and_switch no_gki (env\<lparr>others := \<lambda>k u. u\<rparr>) i s = (r, t)" and "r \<noteq> 0"
  then show "iommu_domain_refcount t = iommu_domain_refcount s"
    by (auto simp: rknpu_iommu_domain_get_and_switch_def loop_quiet
        split: if_splits option.splits elim!: try_cases)
qed (simp add: rknpu_iommu_domain_put_def)

interpretation leases: invariant_system lease_init lease_step lease_inv
proof unfold_locales
  fix e p q
  assume inv: "lease_inv p" and st: "lease_step e p = Some q"
  obtain s hs where p: "p = (s, hs)" by fastforce
  show "lease_inv q"
  proof (cases e)
    case (Acquire env i)
    show ?thesis
    proof (cases "rknpu_iommu_domain_try env i s")
      case None
      with inv st p Acquire show ?thesis by simp
    next
      case (Some a)
      obtain ret t where a: "a = (ret, t)" by fastforce
      from Some a have "rknpu_iommu_domain_try env i s = Some (ret, t)" by simp
      then show ?thesis
        by (cases rule: try_cases) (use inv st p Acquire Some a in \<open>auto simp: lease_inv_def\<close>)
    qed
  next
    case Release
    with inv st p show ?thesis
      by (auto simp: lease_inv_def rknpu_iommu_domain_put_def split: list.splits)
  qed
qed (simp add: lease_init_def lease_inv_def)

section \<open>Properties\<close>


definition iommu_example :: iommu_state where
  "iommu_example =
    \<lparr>iommu_en = True, iommu_domain_num = 1, iommu_domain_id = 0, iommu_domains = [0 \<mapsto> 7],
     iommu_domain_refcount = 0, attached_domain = Some 7, default_domain = Some 7\<rparr>"

definition env_example :: iommu_env where
  "env_example =
    \<lparr>has_bus = True, attach_ret = (\<lambda>d. 0), new_domain = Some 9, wait_rounds = 3, others = (\<lambda>k u. u)\<rparr>"


text \<open>
  The bracket is balanced in both builds and for every answer of the kernel: acquiring the domain,
  running any body that does not touch the reference count, and releasing restores the count; when
  acquiring fails, the count has not moved either.
\<close>

lemma domain_bracket_balanced:
  assumes "\<And>u. iommu_domain_refcount (body u) = iommu_domain_refcount u"
  shows "iommu_domain_refcount
           (let (r, t) = rknpu_iommu_domain_get_and_switch no_gki (env\<lparr>others := \<lambda>k u. u\<rparr>) i s
            in if r = 0 then snd (rknpu_iommu_domain_put no_gki (body t)) else t)
         = iommu_domain_refcount s"
  using assms by (rule lease.bracket_balanced)

text \<open>
  C20: a successful switch, to a known domain or to a fresh one, leaves the table in agreement with the
  hardware: the device is attached to the domain recorded for the requested identifier.
\<close>

theorem switch_domain_consistent:
  assumes "iommu_consistent s"
    and "\<And>d i. new_domain env = Some d \<Longrightarrow> iommu_domains s i \<noteq> Some d"
    and "rknpu_iommu_switch_domain env i s = (0, t)"
  shows "iommu_consistent t \<and> iommu_domain_id t = i \<and> attached_domain t = iommu_domains t i"
  using assms
  by (auto simp: switch_unfold iommu_consistent_def split: option.splits if_splits)

theorem switch_domain_consistent_witness:
  "iommu_consistent (snd (rknpu_iommu_switch_domain env_example 2 iommu_example))"
proof -
  have c: "iommu_consistent iommu_example"
    by (simp add: iommu_consistent_def iommu_example_def)
  have "rknpu_iommu_switch_domain env_example 2 iommu_example =
          (0, snd (rknpu_iommu_switch_domain env_example 2 iommu_example))"
    by (simp add: switch_unfold env_example_def iommu_example_def)
  from switch_domain_consistent [OF c _ this] show ?thesis
    by (simp add: env_example_def iommu_example_def)
qed



end
