(* ===== verification/Rknpu_Config.thy ===== *)
theory Rknpu_Config
  imports Rknpu_Types
begin

text \<open>
  The per-SoC configuration tables of \<open>rknpu_drv.c\<close>, the choice of a configuration in
  \<open>rknpu_probe\<close>, and the driver version macros of \<open>rknpu_ioctl.h\<close>. \<open>config_ok\<close> collects what the rest
  of the driver relies on; every configuration the probe can choose satisfies it.
\<close>

section \<open>Tables\<close>

definition rknpu_irqs :: "rknpu_irqs_data list" where
  "rknpu_irqs = [\<lparr>irq_name = ''npu_irq'', irq_hdl = rknpu_core0_irq_handler\<rparr>]"

definition rk3576_npu_irqs :: "rknpu_irqs_data list" where
  "rk3576_npu_irqs =
    [\<lparr>irq_name = ''npu0_irq'', irq_hdl = rknpu_core0_irq_handler\<rparr>,
     \<lparr>irq_name = ''npu1_irq'', irq_hdl = rknpu_core1_irq_handler\<rparr>]"

definition rk3588_npu_irqs :: "rknpu_irqs_data list" where
  "rk3588_npu_irqs =
    [\<lparr>irq_name = ''npu0_irq'', irq_hdl = rknpu_core0_irq_handler\<rparr>,
     \<lparr>irq_name = ''npu1_irq'', irq_hdl = rknpu_core1_irq_handler\<rparr>,
     \<lparr>irq_name = ''npu2_irq'', irq_hdl = rknpu_core2_irq_handler\<rparr>]"

definition rknpu_old_top_amount :: rknpu_amount_data where
  "rknpu_old_top_amount =
    \<lparr>offset_clr_all = 0x8010, offset_dt_wr = 0x8034, offset_dt_rd = 0x8038, offset_wt_rd = 0x803c\<rparr>"

definition rknpu_top_amount :: rknpu_amount_data where
  "rknpu_top_amount =
    \<lparr>offset_clr_all = 0x2210, offset_dt_wr = 0x2234, offset_dt_rd = 0x2238, offset_wt_rd = 0x223c\<rparr>"

definition rknpu_core_amount :: rknpu_amount_data where
  "rknpu_core_amount =
    \<lparr>offset_clr_all = 0x2410, offset_dt_wr = 0x2434, offset_dt_rd = 0x2438, offset_wt_rd = 0x243c\<rparr>"

text \<open>\<open>DMA_BIT_MASK\<close> of the kernel.\<close>

abbreviation DMA_BIT_MASK :: "nat \<Rightarrow> u64" where
  "DMA_BIT_MASK n \<equiv> mask n"

definition rk356x_rknpu_config :: rknpu_config where
  "rk356x_rknpu_config =
    \<lparr>cfg_bw_priority_addr = 0xfe180008, cfg_bw_priority_length = 0x10, cfg_dma_mask = DMA_BIT_MASK 32,
     cfg_pc_data_amount_scale = 1, cfg_pc_task_number_bits = 12, cfg_pc_task_number_mask = 0xfff,
     cfg_pc_task_status_offset = 0x3c, cfg_pc_dma_ctrl = 0, cfg_irqs = rknpu_irqs,
     cfg_num_irqs = 1, cfg_nbuf_phyaddr = 0, cfg_nbuf_size = 0, cfg_max_submit_number = 2 ^ 12 - 1,
     cfg_core_mask = 0x1, cfg_amount_top = Some rknpu_old_top_amount, cfg_amount_core = None,
     cfg_state_init = None, cfg_cache_sgt_init = None\<rparr>"

definition rk3588_rknpu_config :: rknpu_config where
  "rk3588_rknpu_config =
    \<lparr>cfg_bw_priority_addr = 0, cfg_bw_priority_length = 0, cfg_dma_mask = DMA_BIT_MASK 40,
     cfg_pc_data_amount_scale = 2, cfg_pc_task_number_bits = 12, cfg_pc_task_number_mask = 0xfff,
     cfg_pc_task_status_offset = 0x3c, cfg_pc_dma_ctrl = 0, cfg_irqs = rk3588_npu_irqs,
     cfg_num_irqs = 3, cfg_nbuf_phyaddr = 0, cfg_nbuf_size = 0, cfg_max_submit_number = 2 ^ 12 - 1,
     cfg_core_mask = 0x7, cfg_amount_top = None, cfg_amount_core = None,
     cfg_state_init = None, cfg_cache_sgt_init = None\<rparr>"

definition rk3583_rknpu_config :: rknpu_config where
  "rk3583_rknpu_config =
    \<lparr>cfg_bw_priority_addr = 0, cfg_bw_priority_length = 0, cfg_dma_mask = DMA_BIT_MASK 40,
     cfg_pc_data_amount_scale = 2, cfg_pc_task_number_bits = 12, cfg_pc_task_number_mask = 0xfff,
     cfg_pc_task_status_offset = 0x3c, cfg_pc_dma_ctrl = 0, cfg_irqs = rk3588_npu_irqs,
     cfg_num_irqs = 2, cfg_nbuf_phyaddr = 0, cfg_nbuf_size = 0, cfg_max_submit_number = 2 ^ 12 - 1,
     cfg_core_mask = 0x3, cfg_amount_top = None, cfg_amount_core = None,
     cfg_state_init = None, cfg_cache_sgt_init = None\<rparr>"

definition rv1106_rknpu_config :: rknpu_config where
  "rv1106_rknpu_config =
    \<lparr>cfg_bw_priority_addr = 0, cfg_bw_priority_length = 0, cfg_dma_mask = DMA_BIT_MASK 32,
     cfg_pc_data_amount_scale = 2, cfg_pc_task_number_bits = 16, cfg_pc_task_number_mask = 0xffff,
     cfg_pc_task_status_offset = 0x3c, cfg_pc_dma_ctrl = 0, cfg_irqs = rknpu_irqs,
     cfg_num_irqs = 1, cfg_nbuf_phyaddr = 0, cfg_nbuf_size = 0, cfg_max_submit_number = 2 ^ 16 - 1,
     cfg_core_mask = 0x1, cfg_amount_top = Some rknpu_old_top_amount, cfg_amount_core = None,
     cfg_state_init = None, cfg_cache_sgt_init = None\<rparr>"

definition rk3562_rknpu_config :: rknpu_config where
  "rk3562_rknpu_config =
    \<lparr>cfg_bw_priority_addr = 0, cfg_bw_priority_length = 0, cfg_dma_mask = DMA_BIT_MASK 40,
     cfg_pc_data_amount_scale = 2, cfg_pc_task_number_bits = 16, cfg_pc_task_number_mask = 0xffff,
     cfg_pc_task_status_offset = 0x48, cfg_pc_dma_ctrl = 1, cfg_irqs = rknpu_irqs,
     cfg_num_irqs = 1, cfg_nbuf_phyaddr = 0xfe400000, cfg_nbuf_size = 256 * 1024,
     cfg_max_submit_number = 2 ^ 16 - 1,
     cfg_core_mask = 0x1, cfg_amount_top = Some rknpu_old_top_amount, cfg_amount_core = None,
     cfg_state_init = None, cfg_cache_sgt_init = None\<rparr>"

definition rk3576_rknpu_config :: rknpu_config where
  "rk3576_rknpu_config =
    \<lparr>cfg_bw_priority_addr = 0, cfg_bw_priority_length = 0, cfg_dma_mask = DMA_BIT_MASK 40,
     cfg_pc_data_amount_scale = 2, cfg_pc_task_number_bits = 16, cfg_pc_task_number_mask = 0xffff,
     cfg_pc_task_status_offset = 0x48, cfg_pc_dma_ctrl = 1, cfg_irqs = rk3576_npu_irqs,
     cfg_num_irqs = 2, cfg_nbuf_phyaddr = 0x3fe80000, cfg_nbuf_size = 1024 * 1024,
     cfg_max_submit_number = 2 ^ 16 - 1,
     cfg_core_mask = 0x3, cfg_amount_top = Some rknpu_top_amount,
     cfg_amount_core = Some rknpu_core_amount,
     cfg_state_init = Some rk3576_state_init_fn, cfg_cache_sgt_init = Some rk3576_cache_sgt_init_fn\<rparr>"

definition rv1126b_rknpu_config :: rknpu_config where
  "rv1126b_rknpu_config =
    \<lparr>cfg_bw_priority_addr = 0, cfg_bw_priority_length = 0, cfg_dma_mask = DMA_BIT_MASK 40,
     cfg_pc_data_amount_scale = 2, cfg_pc_task_number_bits = 16, cfg_pc_task_number_mask = 0xffff,
     cfg_pc_task_status_offset = 0x48, cfg_pc_dma_ctrl = 1, cfg_irqs = rknpu_irqs,
     cfg_num_irqs = 1, cfg_nbuf_phyaddr = 0x3ff30000, cfg_nbuf_size = 512 * 1024,
     cfg_max_submit_number = 2 ^ 16 - 1,
     cfg_core_mask = 0x1, cfg_amount_top = Some rknpu_top_amount, cfg_amount_core = None,
     cfg_state_init = None, cfg_cache_sgt_init = None\<rparr>"

definition rknpu_of_match :: "(string \<times> rknpu_config) list" where
  "rknpu_of_match =
    [(''rockchip,rknpu'', rk356x_rknpu_config),
     (''rockchip,rk3568-rknpu'', rk356x_rknpu_config),
     (''rockchip,rk3588-rknpu'', rk3588_rknpu_config),
     (''rockchip,rv1106-rknpu'', rv1106_rknpu_config),
     (''rockchip,rk3562-rknpu'', rk3562_rknpu_config),
     (''rockchip,rk3576-rknpu'', rk3576_rknpu_config),
     (''rockchip,rv1126b-rknpu'', rv1126b_rknpu_config)]"

section \<open>Choosing the configuration in rknpu_probe\<close>

text \<open>The stub of \<open>compat/soc/rockchip/rockchip_opp_select.h\<close>: fails and leaves the value alone.\<close>

definition rockchip_nvmem_cell_read_u8 :: "u8 \<Rightarrow> int \<times> u8" where
  "rockchip_nvmem_cell_read_u8 val = (- ENOSYS, val)"

text \<open>
  \<open>has_cores\<close>: the node's \<open>nvmem-cell-names\<close> contains \<open>cores\<close> (\<open>of_property_match_string \<dots> >= 0\<close>).
\<close>

definition rknpu_get_invalid_core_mask :: "bool \<Rightarrow> u8" where
  "rknpu_get_invalid_core_mask has_cores =
    (let invalid_core_mask = 0 in
     if has_cores then
       (let (ret, invalid_core_mask) = rockchip_nvmem_cell_read_u8 invalid_core_mask;
            invalid_core_mask = invalid_core_mask OR 4
        in if ret \<noteq> 0 then invalid_core_mask else invalid_core_mask)
     else invalid_core_mask)"

text \<open>
  The prologue of \<open>rknpu_probe\<close> up to the assignment of \<open>rknpu_dev->config\<close>. \<open>has_node\<close>: the device has
  a device-tree node; \<open>compatible\<close>: its compatible string; \<open>kzalloc_ok\<close>: the device structure could be
  allocated. The comparison with \<open>&rk3588_rknpu_config\<close> is one of addresses, that is of table entries,
  and the RK3588 entry is the one with that compatible string.
\<close>

definition rknpu_probe_config :: "bool \<Rightarrow> string \<Rightarrow> bool \<Rightarrow> bool \<Rightarrow> int + rknpu_config" where
  "rknpu_probe_config has_node compatible kzalloc_ok has_cores =
    (if \<not> has_node then Inl (- ENODEV) else
     case map_of rknpu_of_match compatible of
       None \<Rightarrow> Inl (- ENODEV)
     | Some cfg \<Rightarrow>
         if \<not> kzalloc_ok then Inl (- ENOMEM)
         else if compatible = ''rockchip,rk3588-rknpu'' then
           (let invalid_core_mask = rknpu_get_invalid_core_mask has_cores in
            if has invalid_core_mask 4 then
              (if has invalid_core_mask 1 \<or> has invalid_core_mask 2 then Inl (- ENODEV)
               else Inr rk3583_rknpu_config)
            else Inr cfg)
         else Inr cfg)"

section \<open>Driver version macros\<close>

definition RKNPU_GET_DRV_VERSION_CODE :: "int \<Rightarrow> int \<Rightarrow> int \<Rightarrow> int" where
  "RKNPU_GET_DRV_VERSION_CODE major minor patchlevel = major * 10000 + minor * 100 + patchlevel"

definition RKNPU_GET_DRV_VERSION_MAJOR :: "int \<Rightarrow> int" where
  "RKNPU_GET_DRV_VERSION_MAJOR code = cdiv code 10000"

definition RKNPU_GET_DRV_VERSION_MINOR :: "int \<Rightarrow> int" where
  "RKNPU_GET_DRV_VERSION_MINOR code = cdiv (code - cdiv code 10000 * 10000) 100"

definition RKNPU_GET_DRV_VERSION_PATCHLEVEL :: "int \<Rightarrow> int" where
  "RKNPU_GET_DRV_VERSION_PATCHLEVEL code = code - cdiv code 100 * 100"

text \<open>\<open>rknpu_get_drv_version\<close> with \<open>DRIVER_MAJOR\<close>, \<open>DRIVER_MINOR\<close>, \<open>DRIVER_PATCHLEVEL\<close> of rknpu_drv.h.\<close>

definition rknpu_get_drv_version :: "int \<times> u32" where
  "rknpu_get_drv_version = (0, word_of_int (RKNPU_GET_DRV_VERSION_CODE 0 9 8))"

section \<open>What the driver relies on\<close>

text \<open>
  \<open>irq_core h\<close> is the core index the handler \<open>h\<close> passes to \<open>rknpu_irq_handler\<close> (rknpu_job.c).
\<close>

fun irq_core :: "irq_handler_fn \<Rightarrow> nat" where
  "irq_core rknpu_core0_irq_handler = 0"
| "irq_core rknpu_core1_irq_handler = 1"
| "irq_core rknpu_core2_irq_handler = 2"

definition config_ok :: "rknpu_config \<Rightarrow> bool" where
  "config_ok c \<longleftrightarrow>
     1 \<le> cfg_num_irqs c \<and> cfg_num_irqs c \<le> RKNPU_MAX_CORES \<and>
     cfg_num_irqs c \<le> length (cfg_irqs c) \<and>
     map (irq_core \<circ> irq_hdl) (cfg_irqs c) = [0..<length (cfg_irqs c)] \<and>
     cfg_core_mask c = mask (cfg_num_irqs c) \<and>
     cfg_pc_task_number_bits c \<le> 16 \<and>
     cfg_pc_task_number_mask c = mask (cfg_pc_task_number_bits c) \<and>
     cfg_max_submit_number c = mask (cfg_pc_task_number_bits c) \<and>
     0 < cfg_pc_task_number_bits c \<and>
     0 < cfg_pc_data_amount_scale c"

lemmas config_defs =
  rk356x_rknpu_config_def rk3588_rknpu_config_def rk3583_rknpu_config_def rv1106_rknpu_config_def
  rk3562_rknpu_config_def rk3576_rknpu_config_def rv1126b_rknpu_config_def
  rknpu_irqs_def rk3576_npu_irqs_def rk3588_npu_irqs_def

lemma map_of_rknpu_of_match:
  "map_of rknpu_of_match c = Some cfg \<Longrightarrow>
   cfg \<in> {rk356x_rknpu_config, rk3588_rknpu_config, rv1106_rknpu_config, rk3562_rknpu_config,
          rk3576_rknpu_config, rv1126b_rknpu_config}"
  by (drule map_of_SomeD) (auto simp: rknpu_of_match_def)

lemma soc_configs_ok:
  "config_ok rk356x_rknpu_config" "config_ok rk3588_rknpu_config" "config_ok rk3583_rknpu_config"
  "config_ok rv1106_rknpu_config" "config_ok rk3562_rknpu_config" "config_ok rk3576_rknpu_config"
  "config_ok rv1126b_rknpu_config"
  by (simp_all add: config_ok_def config_defs mask_eq_exp_minus_1 upt_rec)

lemma config_ok_max_submit:
  "config_ok c \<Longrightarrow> 0 < uint (cfg_max_submit_number c) \<and> uint (cfg_max_submit_number c) < 2 ^ 16"
proof -
  assume "config_ok c"
  then have m: "cfg_max_submit_number c = mask (cfg_pc_task_number_bits c)"
    and b: "cfg_pc_task_number_bits c \<le> 16" "0 < cfg_pc_task_number_bits c"
    by (auto simp: config_ok_def)
  from b(1) have "uint (mask (cfg_pc_task_number_bits c) :: u64) = mask (cfg_pc_task_number_bits c)"
    by (simp add: uint_mask_eq)
  moreover have "(mask (cfg_pc_task_number_bits c) :: int) < 2 ^ 16"
    using power_increasing [OF b(1), of "2::int"] by (simp add: mask_eq_exp_minus_1)
  moreover have "0 < (mask (cfg_pc_task_number_bits c) :: int)"
    using b(2) by (simp add: mask_eq_exp_minus_1)
  ultimately show ?thesis by (simp add: m)
qed

section \<open>What the probe chooses, and the version code\<close>

text \<open>
  Whatever configuration the probe settles on describes between one and three cores with one
  interrupt handler per core in core order, a core mask of exactly those cores, and a submission limit
  that equals both the task-number field and the task-counter mask of the hardware.
\<close>

lemma probe_config_ok:
  assumes "rknpu_probe_config has_node compatible kzalloc_ok has_cores = Inr c"
  shows "config_ok c"
  using assms soc_configs_ok
  by (auto simp: rknpu_probe_config_def Let_def split: if_splits option.splits
      dest!: map_of_rknpu_of_match)

text \<open>
  The version code splits back into the numbers it was built from, for every version whose minor
  number and patch level have at most two digits.
\<close>

lemma drv_version_roundtrip:
  assumes "0 \<le> major" and "0 \<le> minor" and "minor < 100" and "0 \<le> patch" and "patch < 100"
  shows "RKNPU_GET_DRV_VERSION_MAJOR (RKNPU_GET_DRV_VERSION_CODE major minor patch) = major \<and>
         RKNPU_GET_DRV_VERSION_MINOR (RKNPU_GET_DRV_VERSION_CODE major minor patch) = minor \<and>
         RKNPU_GET_DRV_VERSION_PATCHLEVEL (RKNPU_GET_DRV_VERSION_CODE major minor patch) = patch"
proof -
  let ?c = "major * 10000 + minor * 100 + patch"
  have "?c div 10000 = (minor * 100 + patch + major * 10000) div 10000" by (simp add: algebra_simps)
  also have "\<dots> = major" using assms by (simp add: div_pos_pos_trivial)
  finally have "?c div 10000 = major" .
  moreover have "?c div 100 = (patch + (major * 100 + minor) * 100) div 100"
    by (simp add: algebra_simps)
  moreover have "(patch + (major * 100 + minor) * 100) div 100 = major * 100 + minor"
    using assms by (subst div_mult_self1) (simp_all add: div_pos_pos_trivial)
  moreover have "0 \<le> ?c" using assms by simp
  ultimately show ?thesis
    using assms
    by (simp add: RKNPU_GET_DRV_VERSION_CODE_def RKNPU_GET_DRV_VERSION_MAJOR_def
        RKNPU_GET_DRV_VERSION_MINOR_def RKNPU_GET_DRV_VERSION_PATCHLEVEL_def cint_simps)
qed

section \<open>A sample device\<close>

text \<open>
  An RK3588 after its probe, before any client: three idle cores, domain 0 attached, everything off. The
  witnesses of the theories start from it.
\<close>

definition idle_subcore :: rknpu_subcore_data where
  "idle_subcore = \<lparr>todo_list = [], job_done_wq = 0, subcore_job = None, task_num = 0, busy_time = 0,
                   total_busy_time = 0\<rparr>"

definition sample_device :: rknpu_device where
  "sample_device =
    \<lparr>config = rk3588_rknpu_config, build = \<lparr>CONFIG_NO_GKI = False, CONFIG_ROCKCHIP_RKNPU_SRAM = False,
    CONFIG_ROCKCHIP_RKNPU_DRM_GEM = True\<rparr>,
     mmio = [], has_bw_priority_base = False,
     iommu = \<lparr>iommu_en = True, iommu_domain_num = 1, iommu_domain_id = 0, iommu_domains = [0 \<mapsto> 7],
              iommu_domain_refcount = 0, attached_domain = Some 7, default_domain = Some 7\<rparr>,
     rst = \<lparr>bypass_soft_reset = False, soft_reseting = False, reset_lock = False,
            srsts = [Some 0, Some 1], num_srsts = 2, line_asserted = (\<lambda>l. False)\<rparr>,
     pwr = \<lparr>power_refcount = 0, cmdline_power_refcount = 0, power_put_delay = 3000,
            power_off_work = False, has_vdd = True, has_mem = True, has_genpd = (\<lambda>i. i < 3),
            multiple_domains = True, usage = (\<lambda>r. 0), has_devfreq = True, devfreq_lock = False\<rparr>,
     sram_start = 0, sram_size = 0, sram_mm = None, nbuf_start = 0, nbuf_size = 0,
     cache_sgt = (\<lambda>i. None), gem_objs = Map.empty, gem_handles = Map.empty,
     gem_count = (\<lambda>r. 0), io_map = [],
     fence_ctx = \<lparr>fctx_context = 0, fctx_seqno = 0\<rparr>, fences = Map.empty,
     subcore_datas = (\<lambda>i. idle_subcore), jobs = Map.empty, cleanup_works = [],
     sram_end = 0, nbuf_end = 0, sram_base_io = 0, nbuf_base_io = 0,
     dvfs = \<lparr>current_freq = 1000000000, current_volt = 800000, ondemand_freq = 1000000000,
             df_previous_freq = 1000000000, df_suspend_freq = 0, df_resume_freq = 0,
             df_last_frequency = 1000000000, df_last_total_time = 1, df_last_busy_time = 1\<rparr>,
     dev_count = (\<lambda>r. 0)\<rparr>"

lemma sample_fields:
  "config sample_device = rk3588_rknpu_config" "\<not> CONFIG_NO_GKI (build sample_device)"
  "\<not> CONFIG_ROCKCHIP_RKNPU_SRAM (build sample_device)" "iommu_en (iommu sample_device)"
  "gem_objs sample_device = Map.empty" "gem_handles sample_device = Map.empty"
  "jobs sample_device = Map.empty" "fences sample_device = Map.empty" "cleanup_works sample_device = []"
  "subcore_datas sample_device i = idle_subcore" "\<not> soft_reseting (rst sample_device)"
  by (simp_all add: sample_device_def)

end
