(* ===== verification/Rknpu_Power.thy ===== *)
theory Rknpu_Power
  imports Rknpu_Config
begin

text \<open>
  Power management of \<open>rknpu_drv.c\<close>: switching the rails on and off, the reference count behind
  \<open>rknpu_power_get\<close> / \<open>rknpu_power_put\<close> / \<open>rknpu_power_put_delay\<close>, the delayed power-off work, the
  ioctl wrapper \<open>RKNPU_IOCTL\<close> and system suspend and resume.

  The theory shows that powering on is all or nothing, that power-off undoes power-on, that the rails
  are on exactly while the reference count is positive, that a user inside an ioctl never loses power,
  and when the mutually recursive put functions return.
\<close>

section \<open>Model\<close>

text \<open>
  The kernel's answers: the results of enabling a regulator, the clocks and a runtime-PM device, and
  whether the device has an IOMMU group, which is what the stub \<open>rockchip_iommu_is_enabled\<close> of
  \<open>compat/soc/rockchip/rockchip_iommu.h\<close> reports.
\<close>

record power_env =
  enable_ret :: "power_rail \<Rightarrow> int"
  has_iommu_group :: bool
  force_suspend_ret :: int
  force_resume_ret :: int

definition rail_get :: "power_rail \<Rightarrow> power_state \<Rightarrow> power_state" where
  "rail_get r p = p\<lparr>usage := (usage p)(r := usage p r + 1)\<rparr>"

definition rail_put :: "power_rail \<Rightarrow> power_state \<Rightarrow> power_state" where
  "rail_put r p = p\<lparr>usage := (usage p)(r := usage p r - 1)\<rparr>"

definition rail_put_if :: "bool \<Rightarrow> power_rail \<Rightarrow> power_state \<Rightarrow> power_state" where
  "rail_put_if b r p = (if b then rail_put r p else p)"

definition rknpu_devfreq_lock :: "power_state \<Rightarrow> power_state" where
  "rknpu_devfreq_lock p = (if has_devfreq p then p\<lparr>devfreq_lock := True\<rparr> else p)"

definition rknpu_devfreq_unlock :: "power_state \<Rightarrow> power_state" where
  "rknpu_devfreq_unlock p = (if has_devfreq p then p\<lparr>devfreq_lock := False\<rparr> else p)"

definition rockchip_iommu_is_enabled :: "power_env \<Rightarrow> bool" where
  "rockchip_iommu_is_enabled env = has_iommu_group env"

text \<open>
  \<open>readx_poll_timeout (rockchip_iommu_is_enabled, dev, val, !val, \<dots>)\<close>: 0 once the condition holds,
  \<open>- ETIMEDOUT\<close> when the time is up.
\<close>

definition poll_iommu_disabled :: "power_env \<Rightarrow> int" where
  "poll_iommu_disabled env = (if rockchip_iommu_is_enabled env then - ETIMEDOUT else 0)"

subsection \<open>rknpu_power_on and rknpu_power_off\<close>

text \<open>The label \<open>err\<close> of \<open>rknpu_power_on\<close>: undo what the flags say was done.\<close>

definition power_on_err ::
    "bool \<Rightarrow> bool \<Rightarrow> bool \<Rightarrow> bool \<Rightarrow> bool \<Rightarrow> bool \<Rightarrow> bool \<Rightarrow> power_state \<Rightarrow> power_state" where
  "power_on_err got_npu2 got_npu1 got_npu0 devfreq_locked clk_enabled mem_enabled vdd_enabled p =
    (let p = rail_put_if got_npu2 (Genpd 2) p;
         p = rail_put_if got_npu1 (Genpd 1) p;
         p = rail_put_if got_npu0 (Genpd 0) p;
         p = (if devfreq_locked then rknpu_devfreq_unlock p else p);
         p = rail_put_if clk_enabled Clk p;
         p = rail_put_if mem_enabled Mem p
     in rail_put_if vdd_enabled Vdd p)"

text \<open>Enable one optional rail: skipped when absent, counted when the kernel reports success.\<close>

definition try_rail ::
    "power_env \<Rightarrow> (int \<Rightarrow> bool) \<Rightarrow> bool \<Rightarrow> power_rail \<Rightarrow> power_state \<Rightarrow> int \<times> bool \<times> power_state" where
  "try_rail env failed present r p =
    (if \<not> present then (0, False, p)
     else if failed (enable_ret env r) then (enable_ret env r, False, p)
     else (0, True, rail_get r p))"

text \<open>
  \<open>rknpu_power_on\<close> on the power state; regulators and clocks fail on any non-zero result, runtime PM on a
  negative one. The last rail is the device itself: \<open>pm_runtime_get_sync\<close> counts even when it fails and
  \<open>pm_runtime_put_noidle\<close> takes that back.
\<close>

definition power_on_rails :: "power_env \<Rightarrow> power_state \<Rightarrow> int \<times> power_state" where
  "power_on_rails env p =
    (let (ret, vdd, p) = try_rail env (\<lambda>r. r \<noteq> 0) (has_vdd p) Vdd p in
     if ret \<noteq> 0 then (ret, power_on_err False False False False False False False p) else
     let (ret, mem, p) = try_rail env (\<lambda>r. r \<noteq> 0) (has_mem p) Mem p in
     if ret \<noteq> 0 then (ret, power_on_err False False False False False False vdd p) else
     let (ret, clk, p) = try_rail env (\<lambda>r. r \<noteq> 0) True Clk p in
     if ret \<noteq> 0 then (ret, power_on_err False False False False False mem vdd p) else
     let p = rknpu_devfreq_lock p;
         md = multiple_domains p in
     let (ret, npu0, p) = try_rail env (\<lambda>r. r < 0) (md \<and> has_genpd p 0) (Genpd 0) p in
     if ret < 0 then (ret, power_on_err False False False True clk mem vdd p) else
     let (ret, npu1, p) = try_rail env (\<lambda>r. r < 0) (md \<and> has_genpd p 1) (Genpd 1) p in
     if ret < 0 then (ret, power_on_err False False npu0 True clk mem vdd p) else
     let (ret, npu2, p) = try_rail env (\<lambda>r. r < 0) (md \<and> has_genpd p 2) (Genpd 2) p in
     if ret < 0 then (ret, power_on_err False npu1 npu0 True clk mem vdd p) else
     let p = rail_get PmDev p;
         ret = enable_ret env PmDev in
     if ret < 0 then (ret, power_on_err npu2 npu1 npu0 True clk mem vdd (rail_put PmDev p))
     else (0, rknpu_devfreq_unlock p))"

text \<open>The register writes of \<open>rk3576_state_init\<close>, the only function \<open>state_init\<close> can point to.\<close>

definition rk3576_state_init :: "rknpu_device \<Rightarrow> rknpu_device" where
  "rk3576_state_init s =
    fold (\<lambda>(off, v). reg_write (Core 0) off v)
      [(0x10, 0x1), (0x1004, 0), (0x1024, 0x80000000), (0x1004, 1), (0x1024, 0x80000000), (0x1004, 0x1e)]
      s"

definition run_state_init :: "rknpu_device \<Rightarrow> rknpu_device" where
  "run_state_init s =
    (case cfg_state_init (config s) of None \<Rightarrow> s | Some rk3576_state_init_fn \<Rightarrow> rk3576_state_init s)"

definition rknpu_power_on :: "power_env \<Rightarrow> rknpu_device \<Rightarrow> int \<times> rknpu_device" where
  "rknpu_power_on env s =
    (let (ret, p) = power_on_rails env (pwr s);
         s = s\<lparr>pwr := p\<rparr>
     in (ret, if ret = 0 then run_state_init s else s))"

definition power_off_rails :: "power_env \<Rightarrow> power_state \<Rightarrow> int \<times> power_state" where
  "power_off_rails env p =
    (let p = rail_put PmDev (rknpu_devfreq_lock p);
         ret = (if multiple_domains p then poll_iommu_disabled env else 0) in
     if ret \<noteq> 0 then (ret, rknpu_devfreq_unlock (rail_get PmDev p))
     else
       let md = multiple_domains p;
           p = rail_put_if (md \<and> has_genpd p 2) (Genpd 2) p;
           p = rail_put_if (md \<and> has_genpd p 1) (Genpd 1) p;
           p = rail_put_if (md \<and> has_genpd p 0) (Genpd 0) p;
           p = rail_put Clk (rknpu_devfreq_unlock p);
           p = rail_put_if (has_vdd p) Vdd p
       in (0, rail_put_if (has_mem p) Mem p))"

definition rknpu_power_off :: "power_env \<Rightarrow> rknpu_device \<Rightarrow> int \<times> rknpu_device" where
  "rknpu_power_off env s = (let (ret, p) = power_off_rails env (pwr s) in (ret, s\<lparr>pwr := p\<rparr>))"

subsection \<open>Reference counting\<close>

definition set_refcount :: "int \<Rightarrow> rknpu_device \<Rightarrow> rknpu_device" where
  "set_refcount n s = s\<lparr>pwr := (pwr s)\<lparr>power_refcount := n\<rparr>\<rparr>"

definition set_off_work :: "bool \<Rightarrow> rknpu_device \<Rightarrow> rknpu_device" where
  "set_off_work b s = s\<lparr>pwr := (pwr s)\<lparr>power_off_work := b\<rparr>\<rparr>"

definition rknpu_power_get :: "power_env \<Rightarrow> rknpu_device \<Rightarrow> int \<times> rknpu_device" where
  "rknpu_power_get env s =
    (let n = power_refcount (pwr s) + 1;
         s = set_refcount n s in
     if n = 1 then
       (let (ret, s) = rknpu_power_on env s
        in (ret, if ret \<noteq> 0 then set_refcount (power_refcount (pwr s) - 1) s else s))
     else (0, s))"

text \<open>
  \<open>atomic_dec_if_positive\<close> returns the decremented value and stores it unless it is negative; on reaching
  0 the device is powered off, and a failure restores the count. Shared by \<open>rknpu_power_put\<close> and
  \<open>rknpu_power_off_delay_work\<close>.
\<close>

definition drop_power :: "power_env \<Rightarrow> rknpu_device \<Rightarrow> int \<times> rknpu_device" where
  "drop_power env s =
    (let n = power_refcount (pwr s) - 1;
         s = (if n < 0 then s else set_refcount n s) in
     if n = 0 then
       (let (ret, s) = rknpu_power_off env s
        in (ret, if ret \<noteq> 0 then set_refcount (power_refcount (pwr s) + 1) s else s))
     else (0, s))"

text \<open>The section of \<open>rknpu_power_put_delay\<close> under the power lock.\<close>

definition delay_section :: "rknpu_device \<Rightarrow> rknpu_device" where
  "delay_section s =
    (if power_refcount (pwr s) = 1 then set_off_work True s
     else if power_refcount (pwr s) - 1 < 0 then s
     else set_refcount (power_refcount (pwr s) - 1) s)"

text \<open>
  \<open>rknpu_power_put\<close> and \<open>rknpu_power_put_delay\<close> call each other. The first argument bounds the depth of the
  recursion; \<open>None\<close> is a call chain deeper than that.
\<close>

fun rknpu_power_put :: "nat \<Rightarrow> power_env \<Rightarrow> rknpu_device \<Rightarrow> (int \<times> rknpu_device) option"
  and rknpu_power_put_delay :: "nat \<Rightarrow> power_env \<Rightarrow> rknpu_device \<Rightarrow> (int \<times> rknpu_device) option"
where
  "rknpu_power_put 0 env s = None"
| "rknpu_power_put (Suc depth) env s =
    (let (ret, s) = drop_power env s in
     if ret \<noteq> 0 then do { (_, s) \<leftarrow> rknpu_power_put_delay depth env s; Some (ret, s) }
     else Some (ret, s))"
| "rknpu_power_put_delay 0 env s = None"
| "rknpu_power_put_delay (Suc depth) env s =
    (if power_put_delay (pwr s) = 0 then rknpu_power_put depth env s
     else Some (0, delay_section s))"

text \<open>The delayed work: the workqueue clears the pending bit before it runs the function.\<close>

definition rknpu_power_off_delay_work :: "nat \<Rightarrow> power_env \<Rightarrow> rknpu_device \<Rightarrow> rknpu_device option" where
  "rknpu_power_off_delay_work depth env s =
    (let (ret, s) = drop_power env (set_off_work False s) in
     if ret \<noteq> 0 then do { (_, s) \<leftarrow> rknpu_power_put_delay depth env s; Some s } else Some s)"

text \<open>The wrapper the macro \<open>RKNPU_IOCTL\<close> puts around every ioctl.\<close>

definition RKNPU_IOCTL ::
    "nat \<Rightarrow> power_env \<Rightarrow> (rknpu_device \<Rightarrow> (int \<times> rknpu_device) option) \<Rightarrow> rknpu_device
      \<Rightarrow> (int \<times> rknpu_device) option" where
  "RKNPU_IOCTL depth env func s =
    (let (ret, s) = rknpu_power_get env s in
     if ret \<noteq> 0 then Some (ret, s)
     else do {
       (ret, s) \<leftarrow> func s;
       (_, s) \<leftarrow> rknpu_power_put_delay depth env s;
       Some (ret, s) })"

definition rknpu_suspend :: "nat \<Rightarrow> power_env \<Rightarrow> rknpu_device \<Rightarrow> (int \<times> rknpu_device) option" where
  "rknpu_suspend depth env s =
    (let (ret, s) = rknpu_power_get env s in
     if ret \<noteq> 0 then Some (ret, s)
     else if force_suspend_ret env \<noteq> 0 then
       do { (_, s) \<leftarrow> rknpu_power_put depth env s; Some (force_suspend_ret env, s) }
     else Some (0, s))"

definition rknpu_resume :: "nat \<Rightarrow> power_env \<Rightarrow> rknpu_device \<Rightarrow> (int \<times> rknpu_device) option" where
  "rknpu_resume depth env s =
    do { (_, s) \<leftarrow> rknpu_power_put_delay depth env s; Some (force_resume_ret env, s) }"

subsection \<open>Reading the power state\<close>

text \<open>The rails a device has, and the rail counts of a device that is on or off.\<close>

fun present :: "power_state \<Rightarrow> power_rail \<Rightarrow> bool" where
  "present p Vdd = has_vdd p"
| "present p Mem = has_mem p"
| "present p Clk = True"
| "present p (Genpd i) = (multiple_domains p \<and> i < 3 \<and> has_genpd p i)"
| "present p PmDev = True"

definition all_rails :: "int \<Rightarrow> power_state \<Rightarrow> bool" where
  "all_rails n p \<longleftrightarrow> (\<forall>r. usage p r = (if present p r then n else 0))"

section \<open>Lemmas on the rails\<close>

text \<open>
  Enabling and disabling rails are inverse to each other, commute on different rails and touch nothing
  else; \<open>rail_get_if\<close> is what a successful \<open>try_rail\<close> did.
\<close>

definition rail_get_if :: "bool \<Rightarrow> power_rail \<Rightarrow> power_state \<Rightarrow> power_state" where
  "rail_get_if b r p = (if b then rail_get r p else p)"

lemma rail_get_is_if: "rail_get r p = rail_get_if True r p" "rail_put r p = rail_put_if True r p"
  by (simp_all add: rail_get_if_def rail_put_if_def)

lemma rail_put_get [simp]:
  "rail_put_if b r (rail_get_if b r p) = p" "rail_get_if b r (rail_put_if b r p) = p"
  "rail_put_if False r p = p" "rail_get_if False r p = p"
  by (simp_all add: rail_put_if_def rail_get_if_def rail_put_def rail_get_def)

lemma rail_put_commute:
  "r \<noteq> r' \<Longrightarrow> rail_put_if b r (rail_put_if b' r' p) = rail_put_if b' r' (rail_put_if b r p)"
  by (simp add: rail_put_if_def rail_put_def fun_upd_twist)

lemma rail_fields [simp]:
  "has_vdd (rail_get_if b r p) = has_vdd p" "has_mem (rail_get_if b r p) = has_mem p"
  "has_genpd (rail_get_if b r p) = has_genpd p" "has_devfreq (rail_get_if b r p) = has_devfreq p"
  "multiple_domains (rail_get_if b r p) = multiple_domains p"
  "devfreq_lock (rail_get_if b r p) = devfreq_lock p"
  "power_refcount (rail_get_if b r p) = power_refcount p"
  "power_put_delay (rail_get_if b r p) = power_put_delay p"
  "power_off_work (rail_get_if b r p) = power_off_work p"
  "has_vdd (rail_put_if b r p) = has_vdd p" "has_mem (rail_put_if b r p) = has_mem p"
  "has_genpd (rail_put_if b r p) = has_genpd p" "has_devfreq (rail_put_if b r p) = has_devfreq p"
  "multiple_domains (rail_put_if b r p) = multiple_domains p"
  "devfreq_lock (rail_put_if b r p) = devfreq_lock p"
  "power_refcount (rail_put_if b r p) = power_refcount p"
  "power_put_delay (rail_put_if b r p) = power_put_delay p"
  "power_off_work (rail_put_if b r p) = power_off_work p"
  by (simp_all add: rail_get_if_def rail_put_if_def rail_get_def rail_put_def)

lemma devfreq_fields [simp]:
  "has_vdd (rknpu_devfreq_lock p) = has_vdd p" "has_mem (rknpu_devfreq_lock p) = has_mem p"
  "has_genpd (rknpu_devfreq_lock p) = has_genpd p" "usage (rknpu_devfreq_lock p) = usage p"
  "multiple_domains (rknpu_devfreq_lock p) = multiple_domains p"
  "has_vdd (rknpu_devfreq_unlock p) = has_vdd p" "has_mem (rknpu_devfreq_unlock p) = has_mem p"
  "has_genpd (rknpu_devfreq_unlock p) = has_genpd p" "usage (rknpu_devfreq_unlock p) = usage p"
  "multiple_domains (rknpu_devfreq_unlock p) = multiple_domains p"
  by (simp_all add: rknpu_devfreq_lock_def rknpu_devfreq_unlock_def)

text \<open>Rail operations pass through the devfreq lock.\<close>

lemma devfreq_lock_commute:
  "rknpu_devfreq_unlock (rail_get_if b r p) = rail_get_if b r (rknpu_devfreq_unlock p)"
  "rknpu_devfreq_unlock (rail_put_if b r p) = rail_put_if b r (rknpu_devfreq_unlock p)"
  "rknpu_devfreq_lock (rail_get_if b r p) = rail_get_if b r (rknpu_devfreq_lock p)"
  by (simp_all add: rknpu_devfreq_lock_def rknpu_devfreq_unlock_def rail_get_if_def rail_put_if_def
      rail_get_def rail_put_def)

lemma devfreq_unlock_lock [simp]:
  "\<not> devfreq_lock p \<Longrightarrow> rknpu_devfreq_unlock (rknpu_devfreq_lock p) = p"
  by (simp add: rknpu_devfreq_lock_def rknpu_devfreq_unlock_def)

lemma usage_rail_get_if [simp]:
  "usage (rail_get_if b r p) r' = usage p r' + (if b \<and> r' = r then 1 else 0)"
  by (simp add: rail_get_if_def rail_get_def)

lemma try_rail_result:
  "try_rail env f b r p = (ret, got, q) \<Longrightarrow>
   f ret \<and> \<not> got \<and> q = p \<or> ret = 0 \<and> got = b \<and> q = rail_get_if b r p"
  by (auto simp: try_rail_def rail_get_if_def split: if_splits)

lemmas power_on_unfold = power_on_rails_def Let_def power_on_err_def rail_get_is_if

text \<open>The rails a successful power-on has taken.\<close>

definition powered :: "power_state \<Rightarrow> power_state" where
  "powered p =
    rail_get_if True PmDev (rail_get_if (multiple_domains p \<and> has_genpd p 2) (Genpd 2)
      (rail_get_if (multiple_domains p \<and> has_genpd p 1) (Genpd 1)
        (rail_get_if (multiple_domains p \<and> has_genpd p 0) (Genpd 0)
          (rail_get_if True Clk (rail_get_if (has_mem p) Mem (rail_get_if (has_vdd p) Vdd p))))))"

lemma power_on_rails_result:
  assumes "\<not> devfreq_lock p"
  shows "power_on_rails env p = (0, powered p) \<or> fst (power_on_rails env p) \<noteq> 0 \<and>
         snd (power_on_rails env p) = p"
proof -
  have "power_on_rails env p = (ret, q) \<Longrightarrow> ret = 0 \<and> q = powered p \<or> ret \<noteq> 0 \<and> q = p" for ret q
    using assms
    by (auto simp: power_on_unfold powered_def devfreq_lock_commute split: prod.splits if_splits
        dest!: try_rail_result)
  then show ?thesis by (metis prod.collapse)
qed

lemma usage_powered: "usage (powered p) r = usage p r + (if present p r then 1 else 0)"
proof (cases r)
  case (Genpd i)
  consider "i = 0" | "i = 1" | "i = 2" | "3 \<le> i" by linarith
  then show ?thesis by cases (simp_all add: powered_def Genpd)
qed (simp_all add: powered_def)

lemma powered_fields [simp]:
  "present (powered p) = present p" "devfreq_lock (powered p) = devfreq_lock p"
  "power_refcount (powered p) = power_refcount p" "power_off_work (powered p) = power_off_work p"
  "multiple_domains (powered p) = multiple_domains p" "power_put_delay (powered p) = power_put_delay p"
proof -
  have "present (powered p) r = present p r" for r by (cases r) (simp_all add: powered_def)
  then show "present (powered p) = present p" by blast
qed (simp_all add: powered_def)

text \<open>The rails a successful power-off has released.\<close>

definition unpowered :: "power_state \<Rightarrow> power_state" where
  "unpowered p =
    rail_put_if (has_mem p) Mem (rail_put_if (has_vdd p) Vdd (rail_put_if True Clk
      (rail_put_if (multiple_domains p \<and> has_genpd p 0) (Genpd 0)
        (rail_put_if (multiple_domains p \<and> has_genpd p 1) (Genpd 1)
          (rail_put_if (multiple_domains p \<and> has_genpd p 2) (Genpd 2) (rail_put_if True PmDev p))))))"

lemma devfreq_put_lock: "rail_put_if b r (rknpu_devfreq_lock p) = rknpu_devfreq_lock (rail_put_if b r p)"
  by (simp add: rknpu_devfreq_lock_def rail_put_if_def rail_put_def)

lemma power_off_rails_result:
  assumes "\<not> devfreq_lock p"
  shows "power_off_rails env p =
    (if multiple_domains p \<and> has_iommu_group env then (- ETIMEDOUT, p) else (0, unpowered p))"
  using assms
  by (simp add: power_off_rails_def Let_def rail_get_is_if unpowered_def devfreq_lock_commute
      devfreq_put_lock poll_iommu_disabled_def rockchip_iommu_is_enabled_def)

lemma usage_rail_put_if [simp]:
  "usage (rail_put_if b r p) r' = usage p r' - (if b \<and> r' = r then 1 else 0)"
  by (simp add: rail_put_if_def rail_put_def)

lemma usage_unpowered: "usage (unpowered p) r = usage p r - (if present p r then 1 else 0)"
proof (cases r)
  case (Genpd i)
  consider "i = 0" | "i = 1" | "i = 2" | "3 \<le> i" by linarith
  then show ?thesis by cases (simp_all add: unpowered_def Genpd)
qed (simp_all add: unpowered_def)

lemma unpowered_fields [simp]:
  "present (unpowered p) = present p" "devfreq_lock (unpowered p) = devfreq_lock p"
  "power_refcount (unpowered p) = power_refcount p" "power_off_work (unpowered p) = power_off_work p"
  "multiple_domains (unpowered p) = multiple_domains p"
  "power_put_delay (unpowered p) = power_put_delay p"
proof -
  have "present (unpowered p) r = present p r" for r by (cases r) (simp_all add: unpowered_def)
  then show "present (unpowered p) = present p" by blast
qed (simp_all add: unpowered_def)

lemma unpowered_powered [simp]: "unpowered (powered p) = p"
  by (simp add: unpowered_def powered_def rail_put_commute [of Mem Vdd])

lemma all_rails_powered: "all_rails n (powered p) \<longleftrightarrow> all_rails (n - 1) p"
proof -
  have "usage (powered p) r = (if present p r then n else 0) \<longleftrightarrow>
        usage p r = (if present p r then n - 1 else 0)" for r
    by (simp add: usage_powered; linarith)
  then show ?thesis by (simp add: all_rails_def)
qed

lemma all_rails_unpowered: "all_rails n (unpowered p) \<longleftrightarrow> all_rails (n + 1) p"
proof -
  have "usage (unpowered p) r = (if present p r then n else 0) \<longleftrightarrow>
        usage p r = (if present p r then n + 1 else 0)" for r
    by (simp add: usage_unpowered; linarith)
  then show ?thesis by (simp add: all_rails_def)
qed

section \<open>Reference counting as a state machine\<close>

text \<open>
  Every section under \<open>power_lock\<close> is one step; the callers interleave arbitrarily between sections. Beside
  the device the system counts its users: a caller is a user from a successful \<open>rknpu_power_get\<close> until
  the section that gives its reference back. A put or a delayed work whose power-off fails restores the
  count and is a user again until its retry (\<open>Put_Delay\<close>). A step is refused (\<open>None\<close>) when no caller is in
  a position to take it.
\<close>

datatype power_event = Get power_env | Put power_env | Put_Delay | Off_Work power_env

fun power_step :: "power_event \<Rightarrow> rknpu_device \<times> nat \<Rightarrow> (rknpu_device \<times> nat) option" where
  "power_step (Get env) (s, users) =
     (let (ret, s) = rknpu_power_get env s in Some (s, if ret = 0 then users + 1 else users))"
| "power_step (Put env) (s, users) =
     (if users = 0 then None
      else let (ret, s) = drop_power env s in Some (s, if ret = 0 then users - 1 else users))"
| "power_step Put_Delay (s, users) = (if users = 0 then None else Some (delay_section s, users - 1))"
| "power_step (Off_Work env) (s, users) =
     (if \<not> power_off_work (pwr s) then None
      else let (ret, s) = drop_power env (set_off_work False s)
           in Some (s, if ret = 0 then users else users + 1))"

definition power_init :: "rknpu_device \<times> nat \<Rightarrow> bool" where
  "power_init p \<longleftrightarrow>
     power_refcount (pwr (fst p)) = 0 \<and> \<not> power_off_work (pwr (fst p)) \<and>
     \<not> devfreq_lock (pwr (fst p)) \<and> all_rails 0 (pwr (fst p)) \<and> snd p = 0"

definition power_inv :: "rknpu_device \<times> nat \<Rightarrow> bool" where
  "power_inv p \<longleftrightarrow>
     power_refcount (pwr (fst p)) = int (snd p) + (if power_off_work (pwr (fst p)) then 1 else 0) \<and>
     \<not> devfreq_lock (pwr (fst p)) \<and>
     all_rails (if power_refcount (pwr (fst p)) > 0 then 1 else 0) (pwr (fst p))"

lemma present_update [simp]:
  "present (p\<lparr>power_refcount := n\<rparr>) = present p" "present (p\<lparr>power_off_work := b\<rparr>) = present p"
proof -
  have "present (p\<lparr>power_refcount := n\<rparr>) r = present p r" for r by (cases r) simp_all
  then show "present (p\<lparr>power_refcount := n\<rparr>) = present p" by blast
  have "present (p\<lparr>power_off_work := b\<rparr>) r = present p r" for r by (cases r) simp_all
  then show "present (p\<lparr>power_off_work := b\<rparr>) = present p" by blast
qed

lemma all_rails_update [simp]:
  "all_rails k (p\<lparr>power_refcount := n\<rparr>) = all_rails k p"
  "all_rails k (p\<lparr>power_off_work := b\<rparr>) = all_rails k p"
  by (simp_all add: all_rails_def)

lemma run_state_init_pwr [simp]: "pwr (run_state_init s) = pwr s"
  by (simp add: run_state_init_def rk3576_state_init_def split: option.splits state_init_fn.splits)

lemma power_on_pwr:
  assumes "\<not> devfreq_lock (pwr s)"
  shows "pwr (snd (rknpu_power_on env s)) =
           (if fst (rknpu_power_on env s) = 0 then powered (pwr s) else pwr s)"
  using power_on_rails_result [OF assms, of env]
  by (auto simp: rknpu_power_on_def Let_def split: prod.splits)

lemma power_off_pwr:
  assumes "\<not> devfreq_lock (pwr s)"
  shows "rknpu_power_off env s =
    (if multiple_domains (pwr s) \<and> has_iommu_group env then (- ETIMEDOUT, s)
     else (0, s\<lparr>pwr := unpowered (pwr s)\<rparr>))"
  using assms by (simp add: rknpu_power_off_def power_off_rails_result)

text \<open>The three locked sections, on the power state alone.\<close>

lemma set_pwr_simps [simp]:
  "pwr (set_refcount n s) = (pwr s)\<lparr>power_refcount := n\<rparr>"
  "pwr (set_off_work b s) = (pwr s)\<lparr>power_off_work := b\<rparr>"
  by (simp_all add: set_refcount_def set_off_work_def)

lemma set_refcount_same [simp]: "power_refcount (pwr s) = n \<Longrightarrow> set_refcount n s = s"
  by (auto simp: set_refcount_def)

lemma set_refcount_twice [simp]: "set_refcount n (set_refcount m s) = set_refcount n s"
  by (simp add: set_refcount_def)

lemma power_get_cases:
  assumes "\<not> devfreq_lock (pwr s)" and "rknpu_power_get env s = (ret, t)"
  obtains (first) "power_refcount (pwr s) = 0" "ret = 0"
      "pwr t = powered ((pwr s)\<lparr>power_refcount := 1\<rparr>)"
  | (failed) "power_refcount (pwr s) = 0" "ret \<noteq> 0" "pwr t = pwr s"
  | (again) "power_refcount (pwr s) \<noteq> 0" "ret = 0"
      "pwr t = (pwr s)\<lparr>power_refcount := power_refcount (pwr s) + 1\<rparr>"
proof (cases "power_refcount (pwr s) = 0")
  case True
  let ?s1 = "set_refcount 1 s"
  obtain r u where on: "rknpu_power_on env ?s1 = (r, u)" by fastforce
  have "pwr u = (if r = 0 then powered (pwr ?s1) else pwr ?s1)"
    using power_on_pwr [of ?s1 env] on assms(1) by simp
  with True on assms(2) show ?thesis
    by (cases "r = 0") (auto intro: first failed simp: rknpu_power_get_def Let_def)
next
  case False
  with assms show ?thesis by (intro again) (auto simp: rknpu_power_get_def Let_def)
qed

lemma drop_power_cases:
  assumes "\<not> devfreq_lock (pwr s)" and "0 < power_refcount (pwr s)" and "drop_power env s = (ret, t)"
  obtains (last) "power_refcount (pwr s) = 1" "ret = 0"
      "t = s\<lparr>pwr := unpowered ((pwr s)\<lparr>power_refcount := 0\<rparr>)\<rparr>"
  | (failed) "power_refcount (pwr s) = 1" "ret = - ETIMEDOUT" "t = s"
      "multiple_domains (pwr s)" "has_iommu_group env"
  | (shared) "1 < power_refcount (pwr s)" "ret = 0" "t = set_refcount (power_refcount (pwr s) - 1) s"
proof (cases "power_refcount (pwr s) = 1")
  case True
  show ?thesis
  proof (cases "multiple_domains (pwr s) \<and> has_iommu_group env")
    case io: True
    with True assms show ?thesis by (intro failed) (auto simp: drop_power_def power_off_pwr)
  next
    case io: False
    have "set_refcount 0 s\<lparr>pwr := unpowered (pwr (set_refcount 0 s))\<rparr> =
            s\<lparr>pwr := unpowered ((pwr s)\<lparr>power_refcount := 0\<rparr>)\<rparr>" by (simp add: set_refcount_def)
    with io True assms show ?thesis by (intro last) (auto simp: drop_power_def power_off_pwr)
  qed
next
  case False
  with assms show ?thesis by (intro shared) (auto simp: drop_power_def)
qed

lemma power_inv_get:
  assumes "power_inv (s, users)" and "rknpu_power_get env s = (ret, t)"
  shows "power_inv (t, if ret = 0 then users + 1 else users)"
proof -
  have "\<not> devfreq_lock (pwr s)" using assms(1) by (simp add: power_inv_def)
  from this assms(2) show ?thesis
  proof (cases rule: power_get_cases)
    case first
    with assms(1) show ?thesis by (auto simp: power_inv_def all_rails_powered split: if_splits)
  qed (use assms(1) in \<open>auto simp: power_inv_def split: if_splits\<close>)
qed

lemma power_inv_drop:
  assumes "power_inv (s, users)" and "users > 0" and "drop_power env s = (ret, t)"
  shows "power_inv (t, if ret = 0 then users - 1 else users)"
proof -
  have "\<not> devfreq_lock (pwr s)" and "0 < power_refcount (pwr s)"
    using assms(1,2) by (auto simp: power_inv_def)
  from this assms(3) show ?thesis
  proof (cases rule: drop_power_cases)
    case last
    with assms(1,2) show ?thesis by (auto simp: power_inv_def all_rails_unpowered split: if_splits)
  qed (use assms(1,2) in \<open>auto simp: power_inv_def split: if_splits\<close>)
qed

lemma power_inv_delay:
  "power_inv (s, users) \<Longrightarrow> users > 0 \<Longrightarrow> power_inv (delay_section s, users - 1)"
  by (auto simp: power_inv_def delay_section_def split: if_splits)

text \<open>Dequeued, the delayed work is a user that holds the reference the queue held.\<close>

lemma power_inv_work:
  "power_inv (s, users) \<Longrightarrow> power_off_work (pwr s) \<Longrightarrow> power_inv (set_off_work False s, users + 1)"
  by (auto simp: power_inv_def)

text \<open>Whichever of the two put functions gives a reference back, the invariant is that of one user fewer.\<close>

lemma power_inv_put:
  assumes "power_inv (s, users)" and "users > 0"
  shows "rknpu_power_put n env s = Some (r, t) \<Longrightarrow> power_inv (t, users - 1)"
    and "rknpu_power_put_delay n env s = Some (r, t) \<Longrightarrow> power_inv (t, users - 1)"
proof -
  have "(\<forall>s r t. power_inv (s, users) \<longrightarrow> rknpu_power_put n env s = Some (r, t) \<longrightarrow> power_inv (t, users - 1)) \<and>
        (\<forall>s r t. power_inv (s, users) \<longrightarrow> rknpu_power_put_delay n env s = Some (r, t) \<longrightarrow> power_inv (t, users - 1))"
  proof (induction n)
    case (Suc n)
    show ?case
    proof (intro conjI allI impI)
      fix s r t
      assume inv: "power_inv (s, users)" and "rknpu_power_put (Suc n) env s = Some (r, t)"
      moreover obtain ret u where "drop_power env s = (ret, u)" by fastforce
      moreover from power_inv_drop [OF inv assms(2) this] have "power_inv (u, if ret = 0 then users - 1 else users)" .
      ultimately show "power_inv (t, users - 1)" using Suc.IH by (auto simp: bind_eq_Some_conv split: if_splits)
    next
      fix s r t
      assume inv: "power_inv (s, users)" and "rknpu_power_put_delay (Suc n) env s = Some (r, t)"
      with Suc.IH power_inv_delay [OF inv assms(2)] show "power_inv (t, users - 1)" by (auto split: if_splits)
    qed
  qed simp
  with assms(1) show "rknpu_power_put n env s = Some (r, t) \<Longrightarrow> power_inv (t, users - 1)"
    and "rknpu_power_put_delay n env s = Some (r, t) \<Longrightarrow> power_inv (t, users - 1)" by blast+
qed

interpretation power: invariant_system power_init power_step power_inv
proof unfold_locales
  fix e p q
  assume inv: "power_inv p" and st: "power_step e p = Some q"
  obtain s users where p: "p = (s, users)" by fastforce
  show "power_inv q"
  proof (cases e)
    case (Get env)
    with inv st p show ?thesis by (auto split: prod.splits dest: power_inv_get)
  next
    case (Put env)
    with inv st p show ?thesis by (auto split: prod.splits if_splits dest: power_inv_drop)
  next
    case Put_Delay
    with inv st p power_inv_delay [of s users] show ?thesis by (auto split: if_splits)
  next
    case (Off_Work env)
    obtain ret t where d: "drop_power env (set_off_work False s) = (ret, t)" by fastforce
    from Off_Work st p have w: "power_off_work (pwr s)" by (auto split: if_splits)
    have "power_inv (t, if ret = 0 then users + 1 - 1 else users + 1)"
      using power_inv_work [of s users] inv w p by (intro power_inv_drop [OF _ _ d]) simp_all
    with Off_Work d w st p show ?thesis by (auto split: if_splits)
  qed
qed (simp add: power_init_def power_inv_def)

section \<open>Properties\<close>

text \<open>
  C1: nobody loses power while using the device. Whatever sequence of gets, puts, delayed puts and
  delayed power-off works is executed from the state the probe leaves, with any answers of the kernel,
  every rail the device has is enabled exactly once while there is a user, and the reference count is
  the number of users plus one for a queued power-off; once there is no user and no power-off queued,
  every rail is released.
\<close>

theorem user_keeps_power:
  assumes "power_init (s0, 0)" and "for_each es power_step (s0, 0) = Some (s, users)"
  shows "power_refcount (pwr s) = int users + (if power_off_work (pwr s) then 1 else 0) \<and>
         (users > 0 \<longrightarrow> all_rails 1 (pwr s)) \<and>
         (users = 0 \<and> \<not> power_off_work (pwr s) \<longrightarrow> all_rails 0 (pwr s))"
  using power.inv_execution [OF assms] by (auto simp: power_inv_def split: if_splits)

definition power_env_ok :: power_env where
  "power_env_ok =
    \<lparr>enable_ret = (\<lambda>r. 0), has_iommu_group = True, force_suspend_ret = 0, force_resume_ret = 0\<rparr>"

lemma sample_power_init: "power_init (sample_device, 0)"
  by (simp add: power_init_def sample_device_def all_rails_def)

theorem user_keeps_power_witness:
  "\<exists>s. for_each [Get power_env_ok, Get power_env_ok, Put power_env_ok, Put power_env_ok, Put_Delay]
         power_step (sample_device, 0) = Some (s, 0) \<and> power_refcount (pwr s) = 1"
proof -
  have "map_option (\<lambda>(s, users). (users, power_off_work (pwr s)))
          (for_each [Get power_env_ok, Get power_env_ok, Put power_env_ok, Put power_env_ok, Put_Delay]
             power_step (sample_device, 0)) = Some (0, True)"
    by code_simp
  then obtain s where run:
    "for_each [Get power_env_ok, Get power_env_ok, Put power_env_ok, Put power_env_ok, Put_Delay]
       power_step (sample_device, 0) = Some (s, 0)" and "power_off_work (pwr s)"
    by (auto simp del: for_each.simps)
  with user_keeps_power [OF sample_power_init run] show ?thesis by (auto simp del: for_each.simps)
qed

text \<open>
  C13: powering on is all or nothing. Either every rail the device has was enabled once more and the
  call returns 0, or the call returns an error and every count is as before, whichever rail failed.
\<close>

theorem power_on_all_or_nothing:
  assumes "\<not> devfreq_lock (pwr s)" and "rknpu_power_on env s = (ret, t)"
  shows "if ret = 0
         then \<forall>r. usage (pwr t) r = usage (pwr s) r + (if present (pwr s) r then 1 else 0)
         else t = s"
proof -
  have "t = s" if "ret \<noteq> 0"
    using that assms power_on_rails_result [OF assms(1), of env]
    by (auto simp: rknpu_power_on_def Let_def split: prod.splits)
  moreover have "pwr t = powered (pwr s)" if "ret = 0"
    using that assms power_on_pwr [OF assms(1), of env] by simp
  ultimately show ?thesis by (simp add: usage_powered)
qed

theorem power_on_all_or_nothing_witness:
  "snd (rknpu_power_on (power_env_ok\<lparr>enable_ret := (\<lambda>r. 0)(Genpd 2 := - EIO)\<rparr>) sample_device)
     = sample_device"
proof -
  let ?env = "power_env_ok\<lparr>enable_ret := (\<lambda>r. 0)(Genpd 2 := - EIO)\<rparr>"
  have "fst (rknpu_power_on ?env sample_device) = - EIO" by code_simp
  moreover have "\<not> devfreq_lock (pwr sample_device)" by code_simp
  ultimately show ?thesis
    using power_on_all_or_nothing [OF _ surjective_pairing, of sample_device ?env] by simp
qed

text \<open>
  C14: power-off undoes power-on. After a successful power-on, power-off returns every count to what it
  was, unless the device has several power domains and belongs to an IOMMU group: then the poll for a
  disabled IOMMU times out and everything stays on.
\<close>

theorem power_off_after_on:
  assumes "\<not> devfreq_lock (pwr s)" and "rknpu_power_on env s = (0, t)"
  shows "rknpu_power_off env' t =
           (if multiple_domains (pwr s) \<and> has_iommu_group env' then (- ETIMEDOUT, t)
            else (0, t\<lparr>pwr := pwr s\<rparr>))"
proof -
  have "pwr t = powered (pwr s)" using assms power_on_pwr [OF assms(1), of env] by simp
  with assms(1) show ?thesis by (simp add: power_off_pwr)
qed

theorem power_off_after_on_witness:
  "rknpu_power_off (power_env_ok\<lparr>has_iommu_group := False\<rparr>) (snd (rknpu_power_on power_env_ok sample_device))
     = (0, (snd (rknpu_power_on power_env_ok sample_device))\<lparr>pwr := pwr sample_device\<rparr>)"
proof -
  have "fst (rknpu_power_on power_env_ok sample_device) = 0" by code_simp
  moreover have "\<not> devfreq_lock (pwr sample_device)" by code_simp
  ultimately show ?thesis
    using power_off_after_on
      [of sample_device power_env_ok "snd (rknpu_power_on power_env_ok sample_device)"
          "power_env_ok\<lparr>has_iommu_group := False\<rparr>"]
    by (simp add: prod_eq_iff)
qed

text \<open>
  C21: giving a reference back returns after at most two nested calls whenever a power-off delay is set
  or the power-off can succeed.
\<close>

theorem power_put_returns:
  assumes "\<not> devfreq_lock (pwr s)" and "0 < power_refcount (pwr s)"
    and "power_put_delay (pwr s) \<noteq> 0 \<or> \<not> (multiple_domains (pwr s) \<and> has_iommu_group env)"
  shows "(\<exists>r. rknpu_power_put (Suc (Suc n)) env s = Some r) \<and>
         (\<exists>r. rknpu_power_put_delay (Suc (Suc n)) env s = Some r)"
proof -
  obtain ret t where d: "drop_power env s = (ret, t)" by fastforce
  from assms(1,2) d show ?thesis
    by (cases rule: drop_power_cases) (use assms(3) d in \<open>auto\<close>)
qed

theorem power_put_returns_witness:
  "(\<exists>r. rknpu_power_put 2 power_env_ok (set_refcount 1 sample_device) = Some r) \<and>
   (\<exists>r. rknpu_power_put_delay 2 power_env_ok (set_refcount 1 sample_device) = Some r)"
  using power_put_returns [of "set_refcount 1 sample_device" power_env_ok 0]
  by (simp add: sample_device_def numeral_2_eq_2)

text \<open>
  C22: with the power-off delay set to 0, on a device with several power domains in an IOMMU group, giving
  the last reference back never returns: the two put functions call each other for ever, at every depth.
\<close>

theorem power_put_diverges:
  assumes "\<not> devfreq_lock (pwr s)" and "power_refcount (pwr s) = 1" and "power_put_delay (pwr s) = 0"
    and "multiple_domains (pwr s)" and "has_iommu_group env"
  shows "rknpu_power_put n env s = None"
proof -
  have "drop_power env s = (- ETIMEDOUT, s)"
    using assms by (simp add: drop_power_def power_off_pwr)
  then have "rknpu_power_put n env s = None \<and> rknpu_power_put_delay n env s = None"
    using assms(3) by (induction n) simp_all
  then show ?thesis ..
qed

theorem power_put_diverges_witness:
  "rknpu_power_put 100 power_env_ok
     (sample_device\<lparr>pwr := (pwr sample_device)\<lparr>power_refcount := 1, power_put_delay := 0\<rparr>\<rparr>) = None"
  by (rule power_put_diverges) (simp_all add: sample_device_def power_env_ok_def)

text \<open>
  The ioctl wrapper runs its handler only with every rail on and a reference held, and reports a
  failed power-on without running it.
\<close>

lemma ioctl_runs_powered:
  assumes "power_inv (s, users)" and "rknpu_power_get env s = (ret, t)"
  shows "if ret = 0
         then RKNPU_IOCTL depth env func s =
                do { (r, u) \<leftarrow> func t; (_, u) \<leftarrow> rknpu_power_put_delay depth env u; Some (r, u) } \<and>
              all_rails 1 (pwr t) \<and> 0 < power_refcount (pwr t)
         else RKNPU_IOCTL depth env func s = Some (ret, t)"
  using assms(2) power_inv_get [OF assms] by (auto simp: RKNPU_IOCTL_def power_inv_def split: if_splits)

end
