(* ===== verification/Rknpu_Reset.thy ===== *)
theory Rknpu_Reset
  imports Rknpu_Iommu Rknpu_Power
begin

text \<open>
  The soft reset of \<open>rknpu_reset.c\<close>: acquiring the reset controls at probe time and the reset
  sequence. The theory determines the outcome of a reset from the answers of the reset controls.
\<close>

section \<open>Model\<close>

text \<open>
  What the reset framework answers for each control (named by a number), and the IOMMU's answer when the
  domain is attached again.
\<close>

record reset_env =
  assert_ret :: "nat \<Rightarrow> int"
  deassert_ret :: "nat \<Rightarrow> int"
  reattach_env :: iommu_env

text \<open>
  \<open>rknpu_reset_get\<close>: \<open>count\<close> is the number of phandles (\<open>of_count_phandle_with_args\<close>), \<open>kcalloc_ok\<close> whether
  the array could be allocated, \<open>get i\<close> the control with index \<open>i\<close> or the error of its lookup. The array
  is filled up to the first error.
\<close>

fun get_controls :: "(nat \<Rightarrow> int + nat) \<Rightarrow> nat list \<Rightarrow> nat option list \<Rightarrow> (int \<times> nat option list) + nat option list"
where
  "get_controls get [] acc = Inr acc"
| "get_controls get (i # is) acc =
    (case get i of Inl e \<Rightarrow> Inl (e, acc) | Inr c \<Rightarrow> get_controls get is (acc @ [Some c]))"

definition rknpu_reset_get ::
    "int \<Rightarrow> bool \<Rightarrow> (nat \<Rightarrow> int + nat) \<Rightarrow> reset_state \<Rightarrow> int \<times> reset_state" where
  "rknpu_reset_get count kcalloc_ok get r =
    (if count \<le> 0 then (count, r)
     else if \<not> kcalloc_ok then (- ENOMEM, r\<lparr>srsts := []\<rparr>)
     else case get_controls get [0..<nat count] [] of
            Inl (e, cs) \<Rightarrow> (e, r\<lparr>srsts := cs, num_srsts := length cs\<rparr>)
          | Inr cs \<Rightarrow> (count, r\<lparr>srsts := cs, num_srsts := nat count\<rparr>))"

definition rknpu_reset_assert :: "reset_env \<Rightarrow> nat option \<Rightarrow> reset_state \<Rightarrow> int \<times> reset_state" where
  "rknpu_reset_assert env ctl r =
    (case ctl of
       None \<Rightarrow> (- EINVAL, r)
     | Some c \<Rightarrow>
         if assert_ret env c < 0 then (assert_ret env c, r)
         else (0, r\<lparr>line_asserted := (line_asserted r)(c := True)\<rparr>))"

definition rknpu_reset_deassert :: "reset_env \<Rightarrow> nat option \<Rightarrow> reset_state \<Rightarrow> int \<times> reset_state" where
  "rknpu_reset_deassert env ctl r =
    (case ctl of
       None \<Rightarrow> (- EINVAL, r)
     | Some c \<Rightarrow>
         if deassert_ret env c < 0 then (deassert_ret env c, r)
         else (0, r\<lparr>line_asserted := (line_asserted r)(c := False)\<rparr>))"

text \<open>\<open>for (i = 0; i < num_srsts; ++i) ret |= op (srsts[i])\<close>; an index outside the array faults.\<close>

definition or_step ::
    "(nat option \<Rightarrow> reset_state \<Rightarrow> int \<times> reset_state) \<Rightarrow> nat \<Rightarrow> int \<times> reset_state
      \<Rightarrow> (int \<times> reset_state) option" where
  "or_step opn i p =
    (if i < length (srsts (snd p))
     then (let (ret, r) = opn (srsts (snd p) ! i) (snd p) in Some (fst p OR ret, r)) else None)"

definition or_loop ::
    "(nat option \<Rightarrow> reset_state \<Rightarrow> int \<times> reset_state) \<Rightarrow> int \<times> reset_state \<Rightarrow> (int \<times> reset_state) option" where
  "or_loop opn p = for_each [0..<num_srsts (snd p)] (or_step opn) p"

text \<open>Waking the wait queue of every core.\<close>

definition wake_all :: "rknpu_device \<Rightarrow> rknpu_device" where
  "wake_all s = fold wake_up [0..<cfg_num_irqs (config s)] s"

text \<open>Detach and attach the device again, when it has a domain.\<close>

definition reattach :: "iommu_env \<Rightarrow> iommu_state \<Rightarrow> iommu_state" where
  "reattach env io =
    (case (if iommu_en io then attached_domain io else None) of
       None \<Rightarrow> io
     | Some d \<Rightarrow> snd (iommu_attach_device env d (iommu_detach_device io)))"

definition set_soft_reseting :: "bool \<Rightarrow> rknpu_device \<Rightarrow> rknpu_device" where
  "set_soft_reseting b s = s\<lparr>rst := (rst s)\<lparr>soft_reseting := b\<rparr>\<rparr>"

definition rknpu_soft_reset :: "reset_env \<Rightarrow> rknpu_device \<Rightarrow> (int \<times> rknpu_device) option" where
  "rknpu_soft_reset env s =
    (if bypass_soft_reset (rst s) then Some (0, s)
     else if reset_lock (rst s) then Some (0, s)
     else do {
       let s = wake_all (set_soft_reseting True s);
       (ret, r) \<leftarrow> or_loop (rknpu_reset_assert env) (0, rst s);
       (ret, r) \<leftarrow> or_loop (rknpu_reset_deassert env) (ret, r);
       let s = s\<lparr>rst := r\<rparr>;
       if ret \<noteq> 0 then Some (ret, s)
       else Some (0, run_state_init (set_soft_reseting False
                       (s\<lparr>iommu := reattach (reattach_env env) (iommu s)\<rparr>)))
     })"

section \<open>Lemmas\<close>

text \<open>What is true of the controls after a successful \<open>rknpu_reset_get\<close>.\<close>

definition controls_ok :: "reset_state \<Rightarrow> bool" where
  "controls_ok r \<longleftrightarrow> num_srsts r \<le> length (srsts r) \<and> None \<notin> set (take (num_srsts r) (srsts r))"

lemma wake_all_frame [frame_simps, simp]:
  "rst (wake_all s) = rst s" "iommu (wake_all s) = iommu s" "jobs (wake_all s) = jobs s"
  "config (wake_all s) = config s" "pwr (wake_all s) = pwr s" "mmio (wake_all s) = mmio s"
  "gem_objs (wake_all s) = gem_objs s" "fences (wake_all s) = fences s" "build (wake_all s) = build s"
  "cleanup_works (wake_all s) = cleanup_works s"
proof -
  have "rst (fold wake_up is s) = rst s \<and> iommu (fold wake_up is s) = iommu s \<and>
        jobs (fold wake_up is s) = jobs s \<and> config (fold wake_up is s) = config s \<and>
        pwr (fold wake_up is s) = pwr s \<and> mmio (fold wake_up is s) = mmio s \<and>
        gem_objs (fold wake_up is s) = gem_objs s \<and> fences (fold wake_up is s) = fences s \<and>
        build (fold wake_up is s) = build s \<and> cleanup_works (fold wake_up is s) = cleanup_works s" for "is"
    by (induction "is" arbitrary: s) (simp_all add: wake_up_def)
  then show "rst (wake_all s) = rst s" "iommu (wake_all s) = iommu s" "jobs (wake_all s) = jobs s"
    "config (wake_all s) = config s" "pwr (wake_all s) = pwr s" "mmio (wake_all s) = mmio s"
    "gem_objs (wake_all s) = gem_objs s" "fences (wake_all s) = fences s"
    "build (wake_all s) = build s" "cleanup_works (wake_all s) = cleanup_works s"
    by (simp_all add: wake_all_def)
qed

text \<open>Waking leaves everything of a core but the wake-up count.\<close>

definition same_subcore :: "rknpu_subcore_data \<Rightarrow> rknpu_subcore_data \<Rightarrow> bool" where
  "same_subcore a b \<longleftrightarrow> a\<lparr>job_done_wq := 0\<rparr> = b\<lparr>job_done_wq := 0\<rparr>"

lemma wake_all_subcore: "same_subcore (subcore_datas (wake_all s) i) (subcore_datas s i)"
proof -
  have "same_subcore (subcore_datas (fold wake_up is s) i) (subcore_datas s i)" for "is"
    by (induction "is" arbitrary: s) (auto simp: wake_up_def same_subcore_def)
  then show ?thesis by (simp add: wake_all_def)
qed

text \<open>One pass over the controls: it never faults, and its result is 0 exactly when every control obeyed.\<close>

lemma or_loop_prefix:
  assumes "None \<notin> set (take n (srsts r))" and "n \<le> length (srsts r)"
    and ok: "\<And>c u. opn (Some c) u = (if f c < 0 then (f c, u)
                                    else (0, u\<lparr>line_asserted := (line_asserted u)(c := b)\<rparr>))"
  shows "\<exists>ret l. for_each [0..<n] (or_step opn) (ret0, r) = Some (ret, r\<lparr>line_asserted := l\<rparr>) \<and>
      (ret = 0 \<longleftrightarrow> ret0 = 0 \<and> (\<forall>c. Some c \<in> set (take n (srsts r)) \<longrightarrow> 0 \<le> f c)) \<and>
      (ret = 0 \<longrightarrow> (\<forall>c. l c = (if Some c \<in> set (take n (srsts r)) then b else line_asserted r c)))"
  using assms(1,2)
proof (induction n)
  case 0
  have "r = r\<lparr>line_asserted := line_asserted r\<rparr>" by simp
  then show ?case by (intro exI [of _ ret0] exI [of _ "line_asserted r"]) simp
next
  case (Suc n)
  then have n: "n < length (srsts r)" by simp
  with Suc.prems(1) obtain c where c: "srsts r ! n = Some c"
    by (cases "srsts r ! n") (auto simp: take_Suc_conv_app_nth)
  have tk: "take (Suc n) (srsts r) = take n (srsts r) @ [Some c]"
    using n c by (simp add: take_Suc_conv_app_nth)
  have "None \<notin> set (take n (srsts r))" and "n \<le> length (srsts r)" using Suc.prems tk by auto
  from Suc.IH [OF this] obtain ret l where IH: "for_each [0..<n] (or_step opn) (ret0, r) = Some (ret, r\<lparr>line_asserted := l\<rparr>)"
    "ret = 0 \<longleftrightarrow> ret0 = 0 \<and> (\<forall>c. Some c \<in> set (take n (srsts r)) \<longrightarrow> 0 \<le> f c)"
    "ret = 0 \<longrightarrow> (\<forall>c. l c = (if Some c \<in> set (take n (srsts r)) then b else line_asserted r c))"
    by (elim exE conjE)
  have step: "or_step opn n (ret, r\<lparr>line_asserted := l\<rparr>) =
      (if f c < 0 then Some (ret OR f c, r\<lparr>line_asserted := l\<rparr>)
       else Some (ret, r\<lparr>line_asserted := l(c := b)\<rparr>))"
    using n c by (simp add: or_step_def ok)
  show ?case
  proof (cases "f c < 0")
    case True
    then have "ret OR f c \<noteq> 0" by (simp add: or_eq_0_iff)
    with True IH step show ?thesis
      by (intro exI [of _ "ret OR f c"] exI [of _ l]) (auto simp: for_each_append tk)
  next
    case False
    show ?thesis
    proof (intro exI [of _ ret] exI [of _ "l(c := b)"] conjI)
      show "for_each [0..<Suc n] (or_step opn) (ret0, r) = Some (ret, r\<lparr>line_asserted := l(c := b)\<rparr>)"
        using IH(1) step False by (simp add: for_each_append)
    qed (use IH(2,3) False in \<open>auto simp: tk\<close>)
  qed
qed

lemma or_loop_result:
  assumes "controls_ok r"
    and "\<And>c u. opn (Some c) u = (if f c < 0 then (f c, u)
                                    else (0, u\<lparr>line_asserted := (line_asserted u)(c := b)\<rparr>))"
  obtains ret l where "or_loop opn (ret0, r) = Some (ret, r\<lparr>line_asserted := l\<rparr>)"
    and "ret = 0 \<longleftrightarrow> ret0 = 0 \<and> (\<forall>c. Some c \<in> set (take (num_srsts r) (srsts r)) \<longrightarrow> 0 \<le> f c)"
    and "ret = 0 \<longrightarrow> (\<forall>c. l c = (if Some c \<in> set (take (num_srsts r) (srsts r)) then b
                                  else line_asserted r c))"
  using or_loop_prefix [of "num_srsts r" r opn f b ret0] assms
  unfolding controls_ok_def or_loop_def snd_conv by blast

text \<open>The controls in use, and whether one of them disobeys.\<close>

definition in_use :: "reset_state \<Rightarrow> nat \<Rightarrow> bool" where
  "in_use r c \<longleftrightarrow> Some c \<in> set (take (num_srsts r) (srsts r))"

definition controls_obey :: "reset_env \<Rightarrow> reset_state \<Rightarrow> bool" where
  "controls_obey env r \<longleftrightarrow> (\<forall>c. in_use r c \<longrightarrow> 0 \<le> assert_ret env c \<and> 0 \<le> deassert_ret env c)"

lemma soft_reset_cases:
  assumes "controls_ok (rst s)" and "\<not> bypass_soft_reset (rst s)" and "\<not> reset_lock (rst s)"
  obtains (ok) l where "controls_obey env (rst s)" "\<And>c. in_use (rst s) c \<Longrightarrow> \<not> l c"
      "rknpu_soft_reset env s = Some (0, run_state_init (set_soft_reseting False
         (wake_all s\<lparr>rst := (rst s)\<lparr>line_asserted := l\<rparr>, iommu := reattach (reattach_env env) (iommu s)\<rparr>)))"
  | (failed) ret l where "\<not> controls_obey env (rst s)" "ret \<noteq> 0"
      "rknpu_soft_reset env s =
         Some (ret, wake_all s\<lparr>rst := (rst s)\<lparr>soft_reseting := True, line_asserted := l\<rparr>\<rparr>)"
proof -
  let ?s = "wake_all (set_soft_reseting True s)"
  have w: "?s = (wake_all s)\<lparr>rst := (rst s)\<lparr>soft_reseting := True\<rparr>\<rparr>"
  proof -
    have "wake_up i (u\<lparr>rst := r\<rparr>) = (wake_up i u)\<lparr>rst := r\<rparr>" for i r u
      by (simp add: wake_up_def upd_subcore_def)
    then have "fold wake_up is (u\<lparr>rst := r\<rparr>) = (fold wake_up is u)\<lparr>rst := r\<rparr>" for "is" r u
      by (induction "is" arbitrary: u) simp_all
    then show ?thesis by (simp add: wake_all_def set_soft_reseting_def)
  qed
  let ?r = "(rst s)\<lparr>soft_reseting := True\<rparr>"
  have c: "controls_ok ?r" using assms(1) by (simp add: controls_ok_def)
  obtain ret1 l1 where A: "or_loop (rknpu_reset_assert env) (0, ?r) = Some (ret1, ?r\<lparr>line_asserted := l1\<rparr>)"
    "ret1 = 0 \<longleftrightarrow> (\<forall>c. in_use (rst s) c \<longrightarrow> 0 \<le> assert_ret env c)"
    by (rule or_loop_result [OF c, of "rknpu_reset_assert env" "assert_ret env" True 0])
       (auto simp: rknpu_reset_assert_def in_use_def)
  have c': "controls_ok (?r\<lparr>line_asserted := l1\<rparr>)" using c by (simp add: controls_ok_def)
  obtain ret2 l2 where B: "or_loop (rknpu_reset_deassert env) (ret1, ?r\<lparr>line_asserted := l1\<rparr>) =
      Some (ret2, ?r\<lparr>line_asserted := l2\<rparr>)"
    "ret2 = 0 \<longleftrightarrow> ret1 = 0 \<and> (\<forall>c. in_use (rst s) c \<longrightarrow> 0 \<le> deassert_ret env c)"
    "ret2 = 0 \<longrightarrow> (\<forall>c. in_use (rst s) c \<longrightarrow> \<not> l2 c)"
    by (rule or_loop_result [OF c', of "rknpu_reset_deassert env" "deassert_ret env" False ret1])
       (auto simp: rknpu_reset_deassert_def in_use_def)
  have run: "rknpu_soft_reset env s =
      (if ret2 \<noteq> 0 then Some (ret2, ?s\<lparr>rst := ?r\<lparr>line_asserted := l2\<rparr>\<rparr>)
       else Some (0, run_state_init (set_soft_reseting False
              (?s\<lparr>rst := ?r\<lparr>line_asserted := l2\<rparr>, iommu := reattach (reattach_env env) (iommu s)\<rparr>))))"
    using A(1) B(1) assms(2,3) unfolding rknpu_soft_reset_def Let_def w by simp
  show ?thesis
  proof (cases "ret2 = 0")
    case True
    with A B have "controls_obey env (rst s)" by (auto simp: controls_obey_def)
    with True B(3) run [unfolded w] show ?thesis
      by (intro ok [of l2]) (simp_all add: set_soft_reseting_def)
  next
    case False
    with A B have "\<not> controls_obey env (rst s)" by (auto simp: controls_obey_def)
    with False run show ?thesis
      by (intro failed [of ret2 l2]) (simp_all add: w)
  qed
qed

text \<open>What a reset never touches, whatever its outcome.\<close>

lemma run_state_init_frame [frame_simps, simp]:
  "jobs (run_state_init s) = jobs s" "subcore_datas (run_state_init s) = subcore_datas s"
  "config (run_state_init s) = config s" "rst (run_state_init s) = rst s"
  "iommu (run_state_init s) = iommu s" "gem_objs (run_state_init s) = gem_objs s"
  "fences (run_state_init s) = fences s" "cleanup_works (run_state_init s) = cleanup_works s"
  "build (run_state_init s) = build s"
  by (simp_all add: run_state_init_def rk3576_state_init_def split: option.splits state_init_fn.splits)

lemma soft_reset_frame:
  assumes "rknpu_soft_reset env s = Some (ret, t)"
  shows "jobs t = jobs s" and "config t = config s" and "gem_objs t = gem_objs s"
    and "fences t = fences s" and "cleanup_works t = cleanup_works s" and "build t = build s"
    and "same_subcore (subcore_datas t i) (subcore_datas s i)"
  using assms wake_all_subcore [of "set_soft_reseting True s" i]
  by (auto simp: rknpu_soft_reset_def set_soft_reseting_def bind_eq_Some_conv same_subcore_def Let_def
      split: if_splits)

lemma get_controls_inr:
  "get_controls get is acc = Inr cs \<Longrightarrow> \<exists>ds. cs = acc @ map Some ds \<and> length ds = length is"
proof (induction get "is" acc rule: get_controls.induct)
  case (2 get i "is" acc)
  then obtain c ds where "get i = Inr c" and "cs = (acc @ [Some c]) @ map Some ds"
    and "length ds = length is" by (auto split: sum.splits)
  then show ?case by (intro exI [of _ "c # ds"]) simp
qed simp

lemma get_controls_inl:
  "get_controls get is acc = Inl (e, cs) \<Longrightarrow> \<exists>ds. cs = acc @ map Some ds \<and> length ds < length is"
proof (induction get "is" acc rule: get_controls.induct)
  case (2 get i "is" acc)
  show ?case
  proof (cases "get i")
    case (Inl e')
    with 2 show ?thesis by (intro exI [of _ "[]"]) simp
  next
    case (Inr c)
    with 2 obtain ds where "cs = (acc @ [Some c]) @ map Some ds" and "length ds < length is" by auto
    then show ?thesis by (intro exI [of _ "c # ds"]) simp
  qed
qed simp

section \<open>Properties\<close>

text \<open>
  Whatever the device tree and the reset framework answer at probe time, the array of reset controls holds a valid
  control at every index the reset loops visit: they never dereference an error pointer or run off the
  array, also when acquiring the controls failed half-way.
\<close>

lemma reset_get_controls_valid:
  assumes "num_srsts r = 0" and "rknpu_reset_get count kcalloc_ok get r = (ret, r')"
  shows "controls_ok r' \<and> num_srsts r' \<le> nat count"
proof (cases "count \<le> 0")
  case True
  with assms show ?thesis by (auto simp: rknpu_reset_get_def controls_ok_def)
next
  case False
  show ?thesis
  proof (cases "get_controls get [0..<nat count] []")
    case (Inl p)
    then obtain e cs ds where "p = (e, cs)" "cs = map Some ds" "length ds < nat count"
      using get_controls_inl by (cases p) fastforce
    with assms False Inl show ?thesis
      by (auto simp: rknpu_reset_get_def controls_ok_def split: if_splits)
  next
    case (Inr cs)
    then obtain ds where "cs = map Some ds" "length ds = nat count"
      using get_controls_inr [OF Inr] by auto
    with assms False Inr show ?thesis
      by (auto simp: rknpu_reset_get_def controls_ok_def split: if_splits)
  qed
qed

text \<open>
  C27: the outcome of a soft reset. It never faults; it reports success exactly when every control obeyed
  both commands, and then every reset line is released, scheduling is enabled again and the device is
  attached to the same domain as before (if attaching works). When a control fails, the error is
  reported but the flag \<open>soft_reseting\<close> stays set.
\<close>

theorem soft_reset_outcome:
  assumes "controls_ok (rst s)" and "\<not> bypass_soft_reset (rst s)" and "\<not> reset_lock (rst s)"
  shows "\<exists>ret t. rknpu_soft_reset env s = Some (ret, t) \<and> \<not> reset_lock (rst t) \<and>
           (ret = 0 \<longleftrightarrow> controls_obey env (rst s)) \<and>
           (soft_reseting (rst t) \<longleftrightarrow> ret \<noteq> 0) \<and>
           (ret = 0 \<longrightarrow> (\<forall>c. in_use (rst s) c \<longrightarrow> \<not> line_asserted (rst t) c)) \<and>
           (ret = 0 \<and> (\<forall>d. attach_ret (reattach_env env) d = 0) \<longrightarrow> iommu t = iommu s)"
  using assms
proof (cases rule: soft_reset_cases [where env = env])
  case (ok l)
  have "reattach (reattach_env env) (iommu s) = iommu s"
    if "\<forall>d. attach_ret (reattach_env env) d = 0"
    using that by (auto simp: reattach_def iommu_attach_device_def iommu_detach_device_def
        split: option.splits)
  with ok assms(3) show ?thesis by (simp add: set_soft_reseting_def)
next
  case (failed ret l)
  with assms(3) show ?thesis by simp
qed

definition reset_env_ok :: reset_env where
  "reset_env_ok = \<lparr>assert_ret = (\<lambda>c. 0), deassert_ret = (\<lambda>c. 0), reattach_env = env_example\<rparr>"

theorem soft_reset_outcome_witness:
  "\<exists>ret t. rknpu_soft_reset (reset_env_ok\<lparr>deassert_ret := (\<lambda>c. 0)(1 := - EIO)\<rparr>) sample_device
             = Some (ret, t) \<and> ret \<noteq> 0 \<and> soft_reseting (rst t)"
proof -
  let ?env = "reset_env_ok\<lparr>deassert_ret := (\<lambda>c. 0)(1 := - EIO)\<rparr>"
  have "\<not> controls_obey ?env (rst sample_device)"
    by (auto simp: controls_obey_def in_use_def sample_device_def)
  with soft_reset_outcome [of sample_device ?env] show ?thesis
    by (auto simp: controls_ok_def sample_device_def)
qed

end
