(* ===== verification/Rknpu_Gem.thy ===== *)
theory Rknpu_Gem
  imports Rknpu_Iommu Rknpu_Power
begin

text \<open>
  Buffer objects (\<open>rknpu_gem.c\<close>, \<open>rknpu_gem.h\<close>): allocating and freeing the backing memory in its three
  ways (shmem pages, \<open>dma_alloc_attrs\<close>, on-chip buffer plus pages), creating and destroying objects,
  their references and handles, the create and destroy ioctls, dumb buffers and prime import.

  Everything acquired from the kernel is counted by kind in \<open>gem_count\<close>. The theory shows that a failed
  creation leaves every count and every object as it was, and that destroying a buffer gives back what
  creating it took.
\<close>

section \<open>Model\<close>

subsection \<open>The kernel's answers\<close>

record gem_env =
  gem_iommu :: iommu_env
  gem_power :: power_env
  power_depth :: nat
  gem_kzalloc :: "u64 option"  \<comment> \<open>address of a new object\<close>
  gem_object_init_ret :: int
  get_pages_ret :: "int + u64 list"  \<comment> \<open>\<open>drm_gem_get_pages\<close>: error or page frames\<close>
  pages_to_sg_ret :: "int + sg_table"
  map_sg_ret :: nat  \<comment> \<open>\<open>dma_map_sg\<close>: number of mapped segments, 0 on failure\<close>
  sg_dma_addr :: u64
  vmap_ret :: u64
  kv_contents :: "rknpu_task list"  \<comment> \<open>contents of a fresh kernel mapping\<close>
  page_array_ok :: bool
  dma_alloc_ret :: "u64 \<Rightarrow> (u64 \<times> u64) option"  \<comment> \<open>cookie and bus address, by attributes\<close>
  kzalloc_sgt_ok :: bool
  get_sgtable_ret :: int
  get_sgtable :: sg_table
  sg_to_pages_ret :: int
  sg_to_pages :: "u64 list"
  iova_align :: "u64 \<Rightarrow> u64"
  alloc_iova_ret :: u64
  iommu_map_ret :: "u64 \<Rightarrow> int"
  mm_alloc_ret :: int  \<comment> \<open>\<open>rknpu_mm_alloc\<close>, whose source is not part of the repository\<close>
  mm_alloc_obj :: rknpu_mm_obj
  handle_create_ret :: int
  new_handle :: u32

abbreviation (input) PAGE_SHIFT :: nat where "PAGE_SHIFT \<equiv> 12"
abbreviation (input) PAGE_SIZE :: u64 where "PAGE_SIZE \<equiv> 4096"
abbreviation (input) DMA_ATTR_WRITE_COMBINE :: u64 where "DMA_ATTR_WRITE_COMBINE \<equiv> 4"
abbreviation (input) DMA_ATTR_NO_KERNEL_MAPPING :: u64 where "DMA_ATTR_NO_KERNEL_MAPPING \<equiv> 16"
abbreviation (input) DMA_ATTR_FORCE_CONTIGUOUS :: u64 where "DMA_ATTR_FORCE_CONTIGUOUS \<equiv> 64"

text \<open>The kernel's \<open>round_up (size, PAGE_SIZE)\<close>.\<close>

definition page_round_up :: "u64 \<Rightarrow> u64" where
  "page_round_up sz = ((sz - 1) OR mask PAGE_SHIFT) + 1"

definition acquire :: "gem_resource \<Rightarrow> rknpu_device \<Rightarrow> rknpu_device" where
  "acquire r s = s\<lparr>gem_count := (gem_count s)(r := gem_count s r + 1)\<rparr>"

definition release :: "gem_resource \<Rightarrow> rknpu_device \<Rightarrow> rknpu_device" where
  "release r s = s\<lparr>gem_count := (gem_count s)(r := gem_count s r - 1)\<rparr>"

subsection \<open>Backing memory from shmem pages\<close>

definition rknpu_gem_get_pages ::
    "gem_env \<Rightarrow> rknpu_gem_object \<Rightarrow> rknpu_device \<Rightarrow> int \<times> rknpu_gem_object \<times> rknpu_device" where
  "rknpu_gem_get_pages env ob s =
    (case get_pages_ret env of
       Inl e \<Rightarrow> (e, ob, s)
     | Inr pages \<Rightarrow>
         let ob = ob\<lparr>obj_pages := Some pages, obj_num_pages := drop_bit PAGE_SHIFT (obj_size ob)\<rparr>;
             s = acquire R_shmem_pages s in
         case pages_to_sg_ret env of
           Inl e \<Rightarrow> (e, ob, release R_shmem_pages s)
         | Inr sgt \<Rightarrow>
             let s = acquire R_sgt s;
                 ob = ob\<lparr>obj_sgt := Some sgt\<rparr> in
             if map_sg_ret env = 0 then (- EFAULT, ob, release R_shmem_pages (release R_sgt s))
             else
               let s = acquire R_dma_map s;
                   ob = ob\<lparr>obj_sgt := Some (sgt\<lparr>sg_nents := map_sg_ret env\<rparr>)\<rparr> in
               if has (obj_flags ob) RKNPU_MEM_KERNEL_MAPPING \<and> vmap_ret env = 0
               then (- ENOMEM, ob, release R_shmem_pages (release R_sgt (release R_dma_map s)))
               else
                 let (ob, s) = (if has (obj_flags ob) RKNPU_MEM_KERNEL_MAPPING
                                then (ob\<lparr>obj_cookie := vmap_ret env, obj_kv_addr := vmap_ret env,
                                         obj_kv_tasks := kv_contents env\<rparr>, acquire R_vmap s)
                                else (ob, s))
                 in (0, ob\<lparr>obj_dma_addr := sg_dma_addr env\<rparr>, s))"

definition rknpu_gem_put_pages ::
    "rknpu_gem_object \<Rightarrow> rknpu_device \<Rightarrow> rknpu_gem_object \<times> rknpu_device" where
  "rknpu_gem_put_pages ob s =
    (let (ob, s) = (if has (obj_flags ob) RKNPU_MEM_KERNEL_MAPPING
                    then (ob\<lparr>obj_kv_addr := 0\<rparr>, release R_vmap s) else (ob, s));
         s = (if obj_sgt ob \<noteq> None then release R_sgt (release R_dma_map s) else s)
     in (ob, release R_shmem_pages s))"

subsection \<open>rknpu_gem_alloc_buf and rknpu_gem_free_buf\<close>

definition gem_dma_attrs :: "u32 \<Rightarrow> u64" where
  "gem_dma_attrs flags =
    (if \<not> has flags RKNPU_MEM_NON_CONTIGUOUS then DMA_ATTR_FORCE_CONTIGUOUS else 0) OR
    (if has flags RKNPU_MEM_CACHEABLE then 0
     else if has flags RKNPU_MEM_WRITE_COMBINE then DMA_ATTR_WRITE_COMBINE else 0) OR
    (if \<not> has flags RKNPU_MEM_KERNEL_MAPPING then DMA_ATTR_NO_KERNEL_MAPPING else 0)"

text \<open>
  The two attempts of \<open>dma_alloc_attrs\<close>: a contiguous request on a device with an IOMMU is retried as a
  non-contiguous one, and the object's flags say so from then on.
\<close>

definition gem_dma_alloc ::
    "gem_env \<Rightarrow> bool \<Rightarrow> rknpu_gem_object \<Rightarrow> ((u64 \<times> u64) \<times> rknpu_gem_object) option" where
  "gem_dma_alloc env io ob =
    (case dma_alloc_ret env (obj_dma_attrs ob) of
       Some r \<Rightarrow> Some (r, ob)
     | None \<Rightarrow>
         if \<not> has (obj_flags ob) RKNPU_MEM_NON_CONTIGUOUS \<and> io then
           (let ob = ob\<lparr>obj_dma_attrs := obj_dma_attrs ob AND NOT DMA_ATTR_FORCE_CONTIGUOUS,
                       obj_flags := obj_flags ob OR RKNPU_MEM_NON_CONTIGUOUS\<rparr> in
            case dma_alloc_ret env (obj_dma_attrs ob) of Some r \<Rightarrow> Some (r, ob) | None \<Rightarrow> None)
         else None)"

definition rknpu_gem_alloc_buf ::
    "gem_env \<Rightarrow> rknpu_gem_object \<Rightarrow> rknpu_device \<Rightarrow> int \<times> rknpu_gem_object \<times> rknpu_device" where
  "rknpu_gem_alloc_buf env ob s =
    (if obj_dma_addr ob \<noteq> 0 then (0, ob, s)
     else
       let ob = ob\<lparr>obj_dma_attrs := gem_dma_attrs (obj_flags ob)\<rparr> in
       if has (obj_flags ob) RKNPU_MEM_NON_CONTIGUOUS \<and> iommu_en (iommu s)
       then rknpu_gem_get_pages env ob s
       else if \<not> page_array_ok env then (- ENOMEM, ob, s)
       else
         let s = acquire R_page_array s in
         case gem_dma_alloc env (iommu_en (iommu s)) ob of
           None \<Rightarrow> (- EINVAL, ob, release R_page_array s)
         | Some ((cookie, dma), ob) \<Rightarrow>
             let s = acquire R_dma_alloc s;
                 ob = ob\<lparr>obj_cookie := cookie, obj_dma_addr := dma\<rparr>;
                 ob = (if has (obj_flags ob) RKNPU_MEM_KERNEL_MAPPING
                       then ob\<lparr>obj_kv_addr := cookie, obj_kv_tasks := kv_contents env\<rparr> else ob) in
             if \<not> kzalloc_sgt_ok env then (- ENOMEM, ob, release R_page_array (release R_dma_alloc s))
             else if get_sgtable_ret env < 0
             then (get_sgtable_ret env, ob, release R_page_array (release R_dma_alloc s))
             else
               let s = acquire R_sgt s in
               if sg_to_pages_ret env < 0
               then (sg_to_pages_ret env, ob,
                     release R_page_array (release R_dma_alloc (release R_sgt s)))
               else (sg_to_pages_ret env,
                     ob\<lparr>obj_pages := Some (sg_to_pages env), obj_sgt := Some (get_sgtable env)\<rparr>, s))"

definition rknpu_gem_free_buf ::
    "rknpu_gem_object \<Rightarrow> rknpu_device \<Rightarrow> rknpu_gem_object \<times> rknpu_device" where
  "rknpu_gem_free_buf ob s =
    (if obj_dma_addr ob = 0 then (ob, s)
     else if has (obj_flags ob) RKNPU_MEM_NON_CONTIGUOUS \<and> iommu_en (iommu s)
     then rknpu_gem_put_pages ob s
     else (ob\<lparr>obj_dma_addr := 0\<rparr>, release R_page_array (release R_dma_alloc (release R_sgt s))))"

subsection \<open>Backing memory with the on-chip buffer\<close>

datatype rknpu_cache_type = RKNPU_CACHE_SRAM | RKNPU_CACHE_NBUF

text \<open>\<open>iommu_map\<close> and \<open>iommu_unmap\<close> on the table of mappings of the current domain.\<close>

definition iommu_map ::
    "gem_env \<Rightarrow> u64 \<Rightarrow> u64 \<Rightarrow> u64 \<Rightarrow> rknpu_device \<Rightarrow> int \<times> rknpu_device" where
  "iommu_map env iova paddr sz s =
    (iommu_map_ret env iova,
     if iommu_map_ret env iova = 0 then s\<lparr>io_map := (iova, paddr, sz) # io_map s\<rparr> else s)"

definition iommu_unmap :: "u64 \<Rightarrow> u64 \<Rightarrow> rknpu_device \<Rightarrow> rknpu_device" where
  "iommu_unmap iova sz s =
    s\<lparr>io_map := filter (\<lambda>(a, p, n). \<not> (iova \<le> a \<and> uint a < uint iova + uint sz)) (io_map s)\<rparr>"

text \<open>The table a core mask selects in the three loops over \<open>cache_sgt\<close>.\<close>

definition cache_sgt_index :: "u32 \<Rightarrow> nat" where
  "cache_sgt_index core_mask =
    (if core_mask = RKNPU_CORE0_MASK then 0 else if core_mask = RKNPU_CORE1_MASK then 1 else 0)"

fun map_cache_segs ::
    "gem_env \<Rightarrow> u64 \<Rightarrow> u64 \<Rightarrow> u64 \<Rightarrow> cache_segment list \<Rightarrow> rknpu_device \<Rightarrow> int \<times> rknpu_device" where
  "map_cache_segs env nbuf iova len [] s = (0, s)"
| "map_cache_segs env nbuf iova len (seg # segs) s =
    (let sz = (if len < seg_length seg then len else seg_length seg);
         (ret, s) = iommu_map env iova (nbuf + seg_offset seg) sz s in
     if ret \<noteq> 0 then (ret, s)
     else if len - sz = 0 then (0, s)
     else map_cache_segs env nbuf (iova + sz) (len - sz) segs s)"

definition rknpu_iommu_map_with_cache_sgt ::
    "gem_env \<Rightarrow> rknpu_gem_object \<Rightarrow> u64 \<Rightarrow> rknpu_device \<Rightarrow> (int \<times> rknpu_device) option" where
  "rknpu_iommu_map_with_cache_sgt env ob cache_size s =
    do { segs \<leftarrow> cache_sgt s (cache_sgt_index (obj_core_mask ob));
         Some (map_cache_segs env (nbuf_start s) (obj_iova_start ob) cache_size segs s) }"

text \<open>The DDR loop: returns the unmapped length as well, which the label \<open>sgl_unmap\<close> needs.\<close>

fun map_sgl :: "gem_env \<Rightarrow> u64 \<Rightarrow> u64 \<Rightarrow> scatterlist list \<Rightarrow> rknpu_device \<Rightarrow> int \<times> u64 \<times> rknpu_device" where
  "map_sgl env offset len [] s = (0, len, s)"
| "map_sgl env offset len (sg # sgs) s =
    (let sz = (if len < sg_length sg then len else sg_length sg);
         (ret, s) = iommu_map env offset (sg_phys sg) sz s in
     if ret \<noteq> 0 then (ret, len, s)
     else if len - sz = 0 then (0, 0, s)
     else map_sgl env (offset + sz) (len - sz) sgs s)"

text \<open>Start and size of the on-chip part; a missing SRAM object or manager is a NULL dereference.\<close>

definition cache_region :: "rknpu_gem_object \<Rightarrow> rknpu_cache_type \<Rightarrow> rknpu_device \<Rightarrow> (u64 \<times> u64) option" where
  "cache_region ob cache_type s =
    (case cache_type of
       RKNPU_CACHE_SRAM \<Rightarrow>
         do { so \<leftarrow> obj_sram_obj ob; mm \<leftarrow> sram_mm s;
              Some (sram_start s + ucast (range_start so * mm_chunk_size mm), obj_sram_size ob) }
     | RKNPU_CACHE_NBUF \<Rightarrow> Some (nbuf_start s, obj_nbuf_size ob))"

text \<open>
  The second half of \<open>rknpu_gem_alloc_buf_with_cache\<close>, which backs the rest of the range with DDR pages,
  with its error labels \<open>sgl_unmap\<close>, \<open>put_pages\<close> and \<open>cache_unmap\<close>.
\<close>

definition cache_ddr ::
    "gem_env \<Rightarrow> u64 \<Rightarrow> rknpu_gem_object \<Rightarrow> rknpu_device \<Rightarrow> int \<times> rknpu_gem_object \<times> rknpu_device" where
  "cache_ddr env cache_size ob s =
    (case get_pages_ret env of
       Inl e \<Rightarrow> (e, ob, iommu_unmap (obj_iova_start ob) cache_size s)
     | Inr pages \<Rightarrow>
         let ob = ob\<lparr>obj_pages := Some pages, obj_num_pages := drop_bit PAGE_SHIFT (obj_size ob)\<rparr>;
             s = acquire R_shmem_pages s in
         case pages_to_sg_ret env of
           Inl e \<Rightarrow> (e, ob, iommu_unmap (obj_iova_start ob) cache_size (release R_shmem_pages s))
         | Inr sgt \<Rightarrow>
             let ob = ob\<lparr>obj_sgt := Some sgt\<rparr>;
                 (ret, len, s) = map_sgl env (obj_iova_start ob + cache_size) (obj_size ob)
                                   (take (sg_nents sgt) (sgl sgt)) (acquire R_sgt s) in
             if ret = 0 then (0, ob, s)
             else
               let s = (if obj_size ob - len > 0
                        then iommu_unmap (obj_iova_start ob + cache_size) (obj_size ob - len) s else s)
               in (ret, ob, iommu_unmap (obj_iova_start ob) cache_size
                              (release R_shmem_pages (release R_sgt s))))"

definition rknpu_gem_alloc_buf_with_cache ::
    "gem_env \<Rightarrow> rknpu_cache_type \<Rightarrow> rknpu_gem_object \<Rightarrow> rknpu_device
      \<Rightarrow> (int \<times> rknpu_gem_object \<times> rknpu_device) option" where
  "rknpu_gem_alloc_buf_with_cache env cache_type ob s =
    do { (cache_start, cache_size) \<leftarrow> cache_region ob cache_type s;
         if attached_domain (iommu s) = None then Some (- EINVAL, ob, s)
         else do {
           let ob = ob\<lparr>obj_iova_size := iova_align env (cache_size + obj_size ob),
                      obj_iova_start := alloc_iova_ret env\<rparr>;
           if obj_iova_start ob = 0 then Some (- ENOMEM, ob, s)
           else do {
             let s = acquire R_iova s;
             (ret, s) \<leftarrow> (if \<not> obj_cache_with_sgt ob
                          then Some (iommu_map env (obj_iova_start ob) cache_start cache_size s)
                          else rknpu_iommu_map_with_cache_sgt env ob cache_size s);
             if ret \<noteq> 0 then Some (ret, ob, release R_iova s)
             else do {
               let ob = ob\<lparr>obj_dma_addr := obj_iova_start ob\<rparr>;
               if obj_size ob = 0 then Some (0, ob, s)
               else do {
                 let (ret, ob, s) = cache_ddr env cache_size ob s;
                 Some (if ret = 0 then (0, ob, s) else (ret, ob, release R_iova s)) } } } } }"

definition rknpu_gem_free_buf_with_cache ::
    "rknpu_cache_type \<Rightarrow> rknpu_gem_object \<Rightarrow> rknpu_device \<Rightarrow> rknpu_device" where
  "rknpu_gem_free_buf_with_cache cache_type ob s =
    (let cache_size = (case cache_type of RKNPU_CACHE_SRAM \<Rightarrow> obj_sram_size ob
                                        | RKNPU_CACHE_NBUF \<Rightarrow> obj_nbuf_size ob);
         s = (if attached_domain (iommu s) = None then s
              else
                let s = iommu_unmap (obj_iova_start ob) cache_size s;
                    s = (if obj_size ob > 0
                         then iommu_unmap (obj_iova_start ob + cache_size) (obj_size ob) s else s)
                in release R_iova s);
         s = (if obj_pages ob \<noteq> None then release R_shmem_pages s else s)
     in if obj_sgt ob \<noteq> None then release R_sgt s else s)"

subsection \<open>Objects\<close>

text \<open>
  \<open>kzalloc\<close> clears the object, so the test of \<open>rknpu_obj->flags\<close> in \<open>rknpu_gem_init\<close> sees 0. The page
  mask of the backing file starts without the two bits.
\<close>

definition zero_gem_object :: rknpu_gem_object where
  "zero_gem_object =
    \<lparr>obj_refcount = 0, obj_import_attach = False, obj_gfp_zero = False, obj_gfp_dma32 = False,
     obj_flags = 0, obj_size = 0, obj_sram_size = 0, obj_nbuf_size = 0, obj_sram_obj = None,
     obj_iova_start = 0, obj_iova_size = 0, obj_cookie = 0, obj_kv_addr = 0, obj_kv_tasks = [],
     obj_dma_addr = 0, obj_dma_attrs = 0, obj_num_pages = 0, obj_pages = None, obj_sgt = None,
     obj_iommu_domain_id = 0, obj_core_mask = 0, obj_cache_with_sgt = False\<rparr>"

definition rknpu_gem_init ::
    "gem_env \<Rightarrow> u64 \<Rightarrow> rknpu_device \<Rightarrow> (int + u64 \<times> rknpu_gem_object) \<times> rknpu_device" where
  "rknpu_gem_init env sz s =
    (case gem_kzalloc env of
       None \<Rightarrow> (Inl (- ENOMEM), s)
     | Some addr \<Rightarrow>
         let ob = zero_gem_object in
         if gem_object_init_ret env < 0 then (Inl (gem_object_init_ret env), s)
         else
           let ob = ob\<lparr>obj_refcount := 1, obj_size := sz,
                      obj_gfp_zero := has (obj_flags ob) RKNPU_MEM_ZEROING,
                      obj_gfp_dma32 := \<not> iommu_en (iommu s) \<or>
                        cfg_dma_mask (config s) \<le> DMA_BIT_MASK 32 \<or> has (obj_flags ob) RKNPU_MEM_DMA32\<rparr>
           in (Inr (addr, ob), acquire R_object s))"

definition rknpu_gem_release :: "rknpu_device \<Rightarrow> rknpu_device" where
  "rknpu_gem_release s = release R_object s"

text \<open>
  The choice of backing memory in \<open>rknpu_gem_object_create\<close>: first the on-chip memory the build and the
  flags ask for, then the DDR buffer if no on-chip buffer was set up. \<open>ddr\<close> is \<open>remain_ddr_size\<close>. The
  error label is folded in: SRAM that was allocated is given back when mapping it fails.
\<close>

definition create_sram ::
    "gem_env \<Rightarrow> u64 \<Rightarrow> u64 \<Rightarrow> rknpu_gem_object \<Rightarrow> rknpu_device
      \<Rightarrow> (int \<times> u64 \<times> rknpu_gem_object \<times> rknpu_device) option" where
  "create_sram env ddr req ob s =
    do { mm \<leftarrow> sram_mm s;
         let req = (if req \<noteq> 0 then page_round_up req else req);
         let ob = ob\<lparr>obj_cache_with_sgt := False\<rparr>;
         let free_size = (ucast (mm_free_chunks mm * mm_chunk_size mm) :: u64);
         let real_size = (if free_size > 0
                          then (let r = (if req \<noteq> 0 \<and> ddr > req then req else ddr)
                                in if r > free_size then free_size else r)
                          else 0);
         let (real_size, ob, s) =
               (if free_size > 0
                then if mm_alloc_ret env \<noteq> 0 then (0, ob, s)
                     else (real_size, ob\<lparr>obj_sram_obj := Some (mm_alloc_obj env)\<rparr>, acquire R_sram s)
                else (real_size, ob, s));
         if real_size > 0 then do {
           (ret, ob, s) \<leftarrow> rknpu_gem_alloc_buf_with_cache env RKNPU_CACHE_SRAM
                            (ob\<lparr>obj_sram_size := real_size\<rparr>) s;
           if ret < 0 then Some (ret, ddr, ob, if obj_sram_obj ob \<noteq> None then release R_sram s else s)
           else Some (0, 0, ob, s) }
         else Some (0, ddr, ob, s) }"

definition create_nbuf ::
    "gem_env \<Rightarrow> u64 \<Rightarrow> u32 \<Rightarrow> rknpu_gem_object \<Rightarrow> rknpu_device
      \<Rightarrow> (int \<times> u64 \<times> rknpu_gem_object \<times> rknpu_device) option" where
  "create_nbuf env ddr core_mask ob s =
    (let single = (core_mask = RKNPU_CORE_AUTO_MASK \<or> core_mask = RKNPU_CORE0_MASK \<or>
                   core_mask = RKNPU_CORE1_MASK);
         nbuf = (if single then ucast (nbuf_size s div of_nat (cfg_num_irqs (config s)))
                 else ucast (nbuf_size s) :: u64);
         ob = ob\<lparr>obj_cache_with_sgt := single \<and> cache_sgt s 0 \<noteq> None, obj_core_mask := core_mask\<rparr>;
         nbuf = (if ddr \<le> nbuf then ddr else nbuf) in
     if nbuf > 0 then do {
       (ret, ob, s) \<leftarrow> rknpu_gem_alloc_buf_with_cache env RKNPU_CACHE_NBUF (ob\<lparr>obj_nbuf_size := nbuf\<rparr>) s;
       if ret < 0 then Some (ret, ddr, ob, s) else Some (0, 0, ob, s) }
     else Some (0, ddr, ob, s))"

definition create_backing ::
    "gem_env \<Rightarrow> u32 \<Rightarrow> u64 \<Rightarrow> u64 \<Rightarrow> u32 \<Rightarrow> rknpu_gem_object \<Rightarrow> rknpu_device
      \<Rightarrow> (int \<times> rknpu_gem_object \<times> rknpu_device) option" where
  "create_backing env flags ddr req core_mask ob s =
    do { (ret, ddr, ob, s) \<leftarrow>
           (if CONFIG_ROCKCHIP_RKNPU_SRAM (build s) \<and> has flags RKNPU_MEM_TRY_ALLOC_SRAM \<and> sram_size s > 0
            then create_sram env ddr req ob s
            else if CONFIG_NO_GKI (build s) \<and> has flags RKNPU_MEM_TRY_ALLOC_NBUF \<and> nbuf_size s > 0
            then create_nbuf env ddr core_mask ob s
            else Some (0, ddr, ob, s));
         if ret < 0 then Some (ret, ob, s)
         else if ddr > 0 then Some (rknpu_gem_alloc_buf env ob s)
         else Some (0, ob, s) }"

definition rknpu_gem_object_create ::
    "gem_env \<Rightarrow> u32 \<Rightarrow> u64 \<Rightarrow> u64 \<Rightarrow> int \<Rightarrow> u32 \<Rightarrow> rknpu_device
      \<Rightarrow> ((int + u64) \<times> rknpu_device) option" where
  "rknpu_gem_object_create env flags sz req domain_id core_mask s =
    (if sz = 0 then Some (Inl (- EINVAL), s)
     else
       let ddr = page_round_up sz in
       case rknpu_gem_init env ddr s of
         (Inl e, s) \<Rightarrow> Some (Inl e, s)
       | (Inr (addr, ob), s) \<Rightarrow>
           let (ret, s) = dev_domain_get (gem_iommu env) domain_id s in
           if ret \<noteq> 0 then Some (Inl (- EINVAL), rknpu_gem_release s)
           else
             let flags = (if \<not> iommu_en (iommu s) \<and> has flags RKNPU_MEM_NON_CONTIGUOUS
                          then flags AND NOT RKNPU_MEM_NON_CONTIGUOUS else flags);
                 ob = ob\<lparr>obj_iommu_domain_id := domain_id, obj_flags := flags\<rparr> in
             do { (ret, ob, s) \<leftarrow> create_backing env flags ddr req core_mask ob s;
                  if ret < 0 then Some (Inl ret, dev_domain_put (rknpu_gem_release s))
                  else Some (Inr addr, dev_domain_put (s\<lparr>gem_objs := (gem_objs s)(addr \<mapsto> ob)\<rparr>)) })"

text \<open>Up to three attempts to get the object's domain.\<close>

fun domain_retry :: "nat \<Rightarrow> iommu_env \<Rightarrow> int \<Rightarrow> rknpu_device \<Rightarrow> int \<times> rknpu_device" where
  "domain_retry 0 env domain_id s = (- EINVAL, s)"
| "domain_retry (Suc n) env domain_id s =
    (let (ret, s) = dev_domain_get env domain_id s in
     if ret \<noteq> 0 \<and> n \<noteq> 0 then domain_retry n env domain_id s else (ret, s))"

definition free_backing :: "rknpu_gem_object \<Rightarrow> rknpu_device \<Rightarrow> rknpu_device" where
  "free_backing ob s =
    (if obj_import_attach ob then release R_page_array s
     else if CONFIG_ROCKCHIP_RKNPU_SRAM (build s) \<and> obj_sram_size ob > 0 then
       rknpu_gem_free_buf_with_cache RKNPU_CACHE_SRAM ob
         (if obj_sram_obj ob \<noteq> None then release R_sram s else s)
     else if CONFIG_NO_GKI (build s) \<and> obj_nbuf_size ob > 0 then
       rknpu_gem_free_buf_with_cache RKNPU_CACHE_NBUF ob s
     else snd (rknpu_gem_free_buf ob s))"

definition rknpu_gem_object_destroy :: "gem_env \<Rightarrow> u64 \<Rightarrow> rknpu_device \<Rightarrow> rknpu_device option" where
  "rknpu_gem_object_destroy env addr s =
    do { ob \<leftarrow> gem_objs s addr;
         let (ret, s) = domain_retry 3 (gem_iommu env) (obj_iommu_domain_id ob) s;
         if ret \<noteq> 0 then Some s
         else Some (dev_domain_put (rknpu_gem_release
                ((free_backing ob s)\<lparr>gem_objs := (gem_objs s)(addr := None)\<rparr>))) }"

subsection \<open>References and handles\<close>

text \<open>\<open>rknpu_gem_free_object\<close>, which the DRM core calls when the last reference is dropped.\<close>

definition rknpu_gem_free_object :: "gem_env \<Rightarrow> u64 \<Rightarrow> rknpu_device \<Rightarrow> rknpu_device option" where
  "rknpu_gem_free_object env addr s =
    do { let (_, s) = rknpu_power_get (gem_power env) s;
         s \<leftarrow> rknpu_gem_object_destroy env addr s;
         (_, s) \<leftarrow> rknpu_power_put_delay (power_depth env) (gem_power env) s;
         Some s }"

definition upd_gem :: "u64 \<Rightarrow> (rknpu_gem_object \<Rightarrow> rknpu_gem_object) \<Rightarrow> rknpu_device \<Rightarrow> rknpu_device option" where
  "upd_gem addr f s = do { ob \<leftarrow> gem_objs s addr; Some (s\<lparr>gem_objs := (gem_objs s)(addr \<mapsto> f ob)\<rparr>) }"

definition rknpu_gem_object_get :: "u64 \<Rightarrow> rknpu_device \<Rightarrow> rknpu_device option" where
  "rknpu_gem_object_get addr s = upd_gem addr (\<lambda>ob. ob\<lparr>obj_refcount := obj_refcount ob + 1\<rparr>) s"

definition rknpu_gem_object_put :: "gem_env \<Rightarrow> u64 \<Rightarrow> rknpu_device \<Rightarrow> rknpu_device option" where
  "rknpu_gem_object_put env addr s =
    do { ob \<leftarrow> gem_objs s addr;
         let n = obj_refcount ob - 1;
         s \<leftarrow> upd_gem addr (\<lambda>ob. ob\<lparr>obj_refcount := n\<rparr>) s;
         if n = 0 then rknpu_gem_free_object env addr s else Some s }"

text \<open>Lookup takes a reference and \<open>rknpu_gem_object_put\<close> drops it at once.\<close>

definition rknpu_gem_object_find :: "nat \<Rightarrow> u32 \<Rightarrow> rknpu_device \<Rightarrow> u64 option" where
  "rknpu_gem_object_find file handle s = gem_handles s (file, handle)"

text \<open>\<open>drm_gem_handle_create\<close> gives the handle a reference of its own.\<close>

definition rknpu_gem_handle_create ::
    "gem_env \<Rightarrow> nat \<Rightarrow> u64 \<Rightarrow> rknpu_device \<Rightarrow> (int \<times> rknpu_device) option" where
  "rknpu_gem_handle_create env file addr s =
    (if handle_create_ret env \<noteq> 0 then Some (handle_create_ret env, s)
     else do {
       s \<leftarrow> rknpu_gem_object_get addr s;
       s \<leftarrow> rknpu_gem_object_put env addr
              (s\<lparr>gem_handles := (gem_handles s)((file, new_handle env) \<mapsto> addr)\<rparr>);
       Some (0, s) })"

definition rknpu_gem_handle_destroy ::
    "gem_env \<Rightarrow> nat \<Rightarrow> u32 \<Rightarrow> rknpu_device \<Rightarrow> (int \<times> rknpu_device) option" where
  "rknpu_gem_handle_destroy env file handle s =
    (case gem_handles s (file, handle) of
       None \<Rightarrow> Some (- EINVAL, s)
     | Some addr \<Rightarrow> do {
         s \<leftarrow> rknpu_gem_object_put env addr (s\<lparr>gem_handles := (gem_handles s)((file, handle) := None)\<rparr>);
         Some (0, s) })"

subsection \<open>Ioctls and imports\<close>

definition rknpu_gem_create_ioctl ::
    "gem_env \<Rightarrow> nat \<Rightarrow> rknpu_mem_create \<Rightarrow> rknpu_device
      \<Rightarrow> (int \<times> rknpu_mem_create \<times> rknpu_device) option" where
  "rknpu_gem_create_ioctl env file args s =
    do { (r, args, s) \<leftarrow>
           (case rknpu_gem_object_find file (mc_handle args) s of
              Some addr \<Rightarrow> Some (Inr addr, args, s)
            | None \<Rightarrow> do {
                (r, s) \<leftarrow> rknpu_gem_object_create env (mc_flags args) (mc_size args) (mc_sram_size args)
                           (mc_iommu_domain_id args) (mc_core_mask args) s;
                case r of
                  Inl e \<Rightarrow> Some (Inl e, args, s)
                | Inr addr \<Rightarrow> do {
                    (ret, s) \<leftarrow> rknpu_gem_handle_create env file addr s;
                    if ret \<noteq> 0 then do { s \<leftarrow> rknpu_gem_object_destroy env addr s; Some (Inl ret, args, s) }
                    else Some (Inr addr, args\<lparr>mc_handle := new_handle env\<rparr>, s) } });
         case r of
           Inl e \<Rightarrow> Some (e, args, s)
         | Inr addr \<Rightarrow> do {
             ob \<leftarrow> gem_objs s addr;
             Some (0, args\<lparr>mc_size := obj_size ob, mc_sram_size := obj_sram_size ob, mc_obj_addr := addr,
                           mc_dma_addr := obj_dma_addr ob\<rparr>, s) } }"

definition rknpu_gem_destroy_ioctl ::
    "gem_env \<Rightarrow> nat \<Rightarrow> rknpu_mem_destroy \<Rightarrow> rknpu_device \<Rightarrow> (int \<times> rknpu_device) option" where
  "rknpu_gem_destroy_ioctl env file args s =
    (case rknpu_gem_object_find file (md_handle args) s of
       None \<Rightarrow> Some (- EINVAL, s)
     | Some addr \<Rightarrow> do {
         ob \<leftarrow> gem_objs s addr;
         let (ret, s) = domain_retry 3 (gem_iommu env) (obj_iommu_domain_id ob) s;
         if ret \<noteq> 0 then Some (ret, s)
         else do {
           (ret, s) \<leftarrow> rknpu_gem_handle_destroy env file (md_handle args) s;
           Some (ret, dev_domain_put s) } })"

text \<open>\<open>struct drm_mode_create_dumb\<close>: width, height and bpp in; pitch, size and handle out.\<close>

record drm_mode_create_dumb =
  dumb_height :: u32
  dumb_width :: u32
  dumb_bpp :: u32
  dumb_handle :: u32
  dumb_pitch :: u32
  dumb_size :: u64

definition rknpu_gem_dumb_create ::
    "gem_env \<Rightarrow> nat \<Rightarrow> drm_mode_create_dumb \<Rightarrow> rknpu_device
      \<Rightarrow> (int \<times> drm_mode_create_dumb \<times> rknpu_device) option" where
  "rknpu_gem_dumb_create env file args s =
    (let args = args\<lparr>dumb_pitch := dumb_width args * ((dumb_bpp args + 7) div 8)\<rparr>;
         args = args\<lparr>dumb_size := ucast (dumb_pitch args * dumb_height args)\<rparr>;
         flags = (if iommu_en (iommu s) then RKNPU_MEM_NON_CONTIGUOUS OR RKNPU_MEM_WRITE_COMBINE
                  else RKNPU_MEM_CONTIGUOUS OR RKNPU_MEM_WRITE_COMBINE) in
     do { (r, s) \<leftarrow> rknpu_gem_object_create env flags (dumb_size args) 0 0 0 s;
          case r of
            Inl e \<Rightarrow> Some (e, args, s)
          | Inr addr \<Rightarrow> do {
              (ret, s) \<leftarrow> rknpu_gem_handle_create env file addr s;
              if ret \<noteq> 0 then do { s \<leftarrow> rknpu_gem_object_destroy env addr s; Some (ret, args, s) }
              else Some (0, args\<lparr>dumb_handle := new_handle env\<rparr>, s) } })"

text \<open>
  \<open>rknpu_gem_prime_import_sg_table\<close>; \<open>dmabuf_size\<close> is \<open>attach->dmabuf->size\<close>. The DRM core sets
  \<open>import_attach\<close> on the returned object, which is folded in here.
\<close>

definition rknpu_gem_prime_import_sg_table ::
    "gem_env \<Rightarrow> u64 \<Rightarrow> sg_table \<Rightarrow> rknpu_device \<Rightarrow> (int + u64) \<times> rknpu_device" where
  "rknpu_gem_prime_import_sg_table env dmabuf_size sgt s =
    (case rknpu_gem_init env dmabuf_size s of
       (Inl e, s) \<Rightarrow> (Inl e, s)
     | (Inr (addr, ob), s) \<Rightarrow>
         let ob = ob\<lparr>obj_dma_addr := sg_dma_addr env\<rparr> in
         if \<not> page_array_ok env then (Inl (- ENOMEM), rknpu_gem_release s)
         else
           let s = acquire R_page_array s in
           if sg_to_pages_ret env < 0
           then (Inl (sg_to_pages_ret env), rknpu_gem_release (release R_page_array s))
           else
             let ob = ob\<lparr>obj_pages := Some (sg_to_pages env), obj_sgt := Some sgt,
                        obj_flags := obj_flags ob OR (if sg_nents sgt = 1 then RKNPU_MEM_CONTIGUOUS
                                                      else RKNPU_MEM_NON_CONTIGUOUS),
                        obj_import_attach := True\<rparr>
             in (Inr addr, s\<lparr>gem_objs := (gem_objs s)(addr \<mapsto> ob)\<rparr>))"

section \<open>Lemmas\<close>

subsection \<open>Rounding to pages\<close>

lemma page_round_up_uint:
  assumes "0 < sz" and "uint sz \<le> 2 ^ 64 - 4096"
  shows "uint (page_round_up sz) = (uint sz - 1) div 4096 * 4096 + 4096"
proof -
  have "1 \<le> sz" using assms(1) by (simp add: word_le_def word_less_def)
  then have x: "uint (sz - 1) = uint sz - 1" using uint_minus_simple_alt [of 1 sz] by simp
  let ?y = "(uint sz - 1) div 4096"
  have m: "uint ((sz - 1) OR mask 12) = ?y * 4096 + 4095"
    using int_or_mask [of "uint sz - 1" 12] by (simp add: uint_or uint_mask_eq mask_eq_exp_minus_1 x)
  have "?y \<le> (2 ^ 64 - 4097) div 4096" using assms(2) by (intro zdiv_mono1) simp_all
  then have "?y * 4096 + 4096 < 2 ^ 64" by simp
  moreover have "0 \<le> ?y * 4096 + 4096" using \<open>1 \<le> sz\<close> by (simp add: word_le_def pos_imp_zdiv_nonneg_iff)
  ultimately show ?thesis
    unfolding page_round_up_def uint_word_ariths m by simp
qed

lemma page_round_up_bounds:
  assumes "0 < sz" and "uint sz \<le> 2 ^ 64 - 4096"
  shows "uint sz \<le> uint (page_round_up sz) \<and> uint (page_round_up sz) < uint sz + 4096 \<and>
         4096 dvd uint (page_round_up sz)"
proof -
  have "(uint sz - 1) mod 4096 = (uint sz - 1) - (uint sz - 1) div 4096 * 4096"
    using minus_div_mult_eq_mod [of "uint sz - 1" 4096] by simp
  moreover have "0 \<le> (uint sz - 1) mod 4096" "(uint sz - 1) mod 4096 < 4096" by simp_all
  ultimately show ?thesis unfolding page_round_up_uint [OF assms] by auto
qed

subsection \<open>The ledger\<close>

lemma release_acquire [simp]: "release r (acquire r s) = s"
  by (simp add: release_def acquire_def)

lemma gem_count_ledger [simp]:
  "gem_count (acquire r s) = (gem_count s)(r := gem_count s r + 1)"
  "gem_count (release r s) = (gem_count s)(r := gem_count s r - 1)"
  "gem_count (iommu_unmap a n s) = gem_count s"
  "gem_count (snd (iommu_map env a q n s)) = gem_count s"
  by (simp_all add: acquire_def release_def iommu_unmap_def iommu_map_def)

lemma ledger_frame [frame_simps, simp]:
  "iommu (acquire r s) = iommu s" "build (acquire r s) = build s" "gem_objs (acquire r s) = gem_objs s"
  "gem_handles (acquire r s) = gem_handles s"
  "iommu (release r s) = iommu s" "build (release r s) = build s" "gem_objs (release r s) = gem_objs s"
  "gem_handles (release r s) = gem_handles s"
  by (simp_all add: acquire_def release_def)

text \<open>
  The functions that set up and tear down backing memory change the counts and the I/O mappings and
  nothing else of the device.
\<close>

definition mem_frame :: "rknpu_device \<Rightarrow> rknpu_device \<Rightarrow> bool" where
  "mem_frame s t \<longleftrightarrow> (\<exists>c m. t = s\<lparr>gem_count := c, io_map := m\<rparr>)"

lemma mem_frame_upd [simp]: "mem_frame s (s\<lparr>gem_count := c, io_map := m\<rparr>)"
  unfolding mem_frame_def by blast

lemma mem_frame_refl [simp]: "mem_frame s s"
  using mem_frame_upd [where s = s and c = "gem_count s" and m = "io_map s"] by simp

lemma mem_frame_trans: "mem_frame s t \<Longrightarrow> mem_frame t u \<Longrightarrow> mem_frame s u"
proof -
  assume "mem_frame s t" and "mem_frame t u"
  then obtain c m c' m' where "t = s\<lparr>gem_count := c, io_map := m\<rparr>"
    and "u = t\<lparr>gem_count := c', io_map := m'\<rparr>" by (auto simp: mem_frame_def)
  then have "u = s\<lparr>gem_count := c', io_map := m'\<rparr>" by simp
  then show ?thesis by simp
qed

lemma mem_frame_fields:
  assumes "mem_frame s t"
  shows "iommu t = iommu s" "build t = build s" "gem_objs t = gem_objs s" "config t = config s"
    "gem_handles t = gem_handles s" "jobs t = jobs s" "subcore_datas t = subcore_datas s"
    "rst t = rst s" "fences t = fences s" "cleanup_works t = cleanup_works s" "pwr t = pwr s"
    "fence_ctx t = fence_ctx s" "mmio t = mmio s"
  using assms by (auto simp: mem_frame_def)

lemma mem_frame_ledger [simp]:
  "mem_frame s (acquire r t) \<longleftrightarrow> mem_frame s t" "mem_frame s (release r t) \<longleftrightarrow> mem_frame s t"
  "mem_frame s (iommu_unmap a n t) \<longleftrightarrow> mem_frame s t"
  "mem_frame s (snd (iommu_map env a q n t)) \<longleftrightarrow> mem_frame s t"
proof -
  have eq: "mem_frame s (t\<lparr>gem_count := c, io_map := m\<rparr>) \<longleftrightarrow> mem_frame s t" for c m
  proof
    assume "mem_frame s (t\<lparr>gem_count := c, io_map := m\<rparr>)"
    moreover have "mem_frame (t\<lparr>gem_count := c, io_map := m\<rparr>) t"
      using mem_frame_upd [where s = "t\<lparr>gem_count := c, io_map := m\<rparr>" and c = "gem_count t"
          and m = "io_map t"] by simp
    ultimately show "mem_frame s t" by (rule mem_frame_trans)
  qed (rule mem_frame_trans [OF _ mem_frame_upd])
  show "mem_frame s (acquire r t) \<longleftrightarrow> mem_frame s t" "mem_frame s (release r t) \<longleftrightarrow> mem_frame s t"
    "mem_frame s (iommu_unmap a n t) \<longleftrightarrow> mem_frame s t"
    using eq [where m = "io_map t"] eq [where c = "gem_count t"]
    by (simp_all add: acquire_def release_def iommu_unmap_def)
  show "mem_frame s (snd (iommu_map env a q n t)) \<longleftrightarrow> mem_frame s t"
    using eq [where c = "gem_count t"] by (simp add: iommu_map_def)
qed

lemma iommu_map_frame:
  "iommu_map env a q n s = (r, u) \<Longrightarrow> mem_frame s u \<and> gem_count u = gem_count s"
  using mem_frame_ledger(4) [of s env a q n s] gem_count_ledger(4) [of env a q n s] by simp

lemma map_cache_segs_frame:
  "map_cache_segs env nb a n segs s = (ret, t) \<Longrightarrow> mem_frame s t \<and> gem_count t = gem_count s"
proof (induction segs arbitrary: a n s)
  case (Cons seg segs)
  obtain r u where m: "iommu_map env a (nb + seg_offset seg) (if n < seg_length seg then n else seg_length seg) s
      = (r, u)" by fastforce
  have u: "mem_frame s u" "gem_count u = gem_count s"
    using iommu_map_frame [OF m] by auto
  from Cons.prems m have "t = u \<or> (\<exists>a n. map_cache_segs env nb a n segs u = (ret, t))"
    by (auto simp: Let_def split: if_splits)
  then show ?case using u Cons.IH [of _ _ u] mem_frame_trans [OF u(1)] by auto
qed simp

lemma map_sgl_frame:
  "map_sgl env a n sgs s = (ret, l, t) \<Longrightarrow> mem_frame s t \<and> gem_count t = gem_count s"
proof (induction sgs arbitrary: a n s)
  case (Cons sg sgs)
  obtain r u where m: "iommu_map env a (sg_phys sg) (if n < sg_length sg then n else sg_length sg) s = (r, u)"
    by fastforce
  have u: "mem_frame s u" "gem_count u = gem_count s"
    using iommu_map_frame [OF m] by auto
  from Cons.prems m have "t = u \<or> (\<exists>a n. map_sgl env a n sgs u = (ret, l, t))"
    by (auto simp: Let_def split: if_splits)
  then show ?case using u Cons.IH [of _ _ u] mem_frame_trans [OF u(1)] by auto
qed simp

text \<open>What the rest of the driver reads of an object, kept by the allocation functions.\<close>

definition same_object :: "rknpu_gem_object \<Rightarrow> rknpu_gem_object \<Rightarrow> bool" where
  "same_object ob ob' \<longleftrightarrow>
     obj_size ob' = obj_size ob \<and> obj_refcount ob' = obj_refcount ob \<and>
     obj_import_attach ob' = obj_import_attach ob \<and>
     obj_iommu_domain_id ob' = obj_iommu_domain_id ob \<and> obj_sram_size ob' = obj_sram_size ob \<and>
     obj_nbuf_size ob' = obj_nbuf_size ob \<and> obj_sram_obj ob' = obj_sram_obj ob"

text \<open>The documented sign of the kernel's error results.\<close>

definition errors_negative :: "gem_env \<Rightarrow> bool" where
  "errors_negative env \<longleftrightarrow>
     (case get_pages_ret env of Inl e \<Rightarrow> e < 0 | Inr _ \<Rightarrow> True) \<and>
     (case pages_to_sg_ret env of Inl e \<Rightarrow> e < 0 | Inr _ \<Rightarrow> True) \<and>
     (\<forall>a. iommu_map_ret env a \<le> 0)"

lemma get_pages_result:
  assumes "errors_negative env"
  shows "case rknpu_gem_get_pages env ob s of (ret, ob', s') \<Rightarrow>
           ret < 0 \<and> s' = s \<or>
           ret = 0 \<and> same_object ob ob' \<and> obj_flags ob' = obj_flags ob \<and>
           obj_dma_addr ob' = sg_dma_addr env \<and> mem_frame s s' \<and>
           snd (rknpu_gem_put_pages ob' s') = s"
proof (cases "get_pages_ret env")
  case (Inl e)
  with assms show ?thesis by (simp add: rknpu_gem_get_pages_def errors_negative_def)
next
  case pages: (Inr pages)
  show ?thesis
  proof (cases "pages_to_sg_ret env")
    case (Inl e)
    with assms pages show ?thesis by (simp add: rknpu_gem_get_pages_def errors_negative_def Let_def)
  next
    case (Inr sgt)
    with pages show ?thesis
      by (simp add: rknpu_gem_get_pages_def rknpu_gem_put_pages_def same_object_def Let_def)
  qed
qed

lemma gem_dma_alloc_result:
  "gem_dma_alloc env io ob = Some (r, ob') \<Longrightarrow>
   same_object ob ob' \<and> obj_pages ob' = obj_pages ob \<and>
   (obj_flags ob' = obj_flags ob \<or>
    io \<and> \<not> has (obj_flags ob) RKNPU_MEM_NON_CONTIGUOUS \<and>
    obj_flags ob' = obj_flags ob OR RKNPU_MEM_NON_CONTIGUOUS)"
  by (auto simp: gem_dma_alloc_def same_object_def Let_def split: option.splits if_splits)

lemma has_or_self: "m \<noteq> 0 \<Longrightarrow> has (f OR m) m"
proof -
  assume "m \<noteq> 0"
  have "(f OR m) AND m = m" by (simp add: bit_eq_iff bit_simps)
  with \<open>m \<noteq> 0\<close> show ?thesis by simp
qed

lemma free_buf_dma:
  "obj_dma_addr ob \<noteq> 0 \<Longrightarrow> \<not> (has (obj_flags ob) RKNPU_MEM_NON_CONTIGUOUS \<and> iommu_en (iommu s)) \<Longrightarrow>
   snd (rknpu_gem_free_buf ob s) = release R_page_array (release R_dma_alloc (release R_sgt s))"
  by (auto simp: rknpu_gem_free_buf_def)

text \<open>
  The three outcomes of \<open>rknpu_gem_alloc_buf\<close>: failure, with everything given back; success, undone by
  \<open>rknpu_gem_free_buf\<close>; or success by the fallback, which has changed the flags.
\<close>

lemma alloc_buf_result:
  assumes "errors_negative env" and "obj_dma_addr ob = 0"
  shows "case rknpu_gem_alloc_buf env ob s of (ret, ob', s') \<Rightarrow>
           ret < 0 \<and> s' = s \<or>
           0 \<le> ret \<and> same_object ob ob' \<and> mem_frame s s' \<and> obj_flags ob' = obj_flags ob \<and>
             (obj_dma_addr ob' \<noteq> 0 \<longrightarrow> snd (rknpu_gem_free_buf ob' s') = s) \<or>
           0 \<le> ret \<and> same_object ob ob' \<and> iommu_en (iommu s) \<and>
             \<not> has (obj_flags ob) RKNPU_MEM_NON_CONTIGUOUS \<and>
             obj_flags ob' = obj_flags ob OR RKNPU_MEM_NON_CONTIGUOUS \<and> obj_sgt ob' \<noteq> None \<and>
             s' = acquire R_sgt (acquire R_dma_alloc (acquire R_page_array s))"
proof -
  let ?ob = "ob\<lparr>obj_dma_attrs := gem_dma_attrs (obj_flags ob)\<rparr>"
  let ?s = "acquire R_page_array s"
  have io: "iommu ?s = iommu s" by (simp add: acquire_def)
  have so: "same_object ?ob u \<longleftrightarrow> same_object ob u" for u by (simp add: same_object_def)
  show ?thesis
  proof (cases "has (obj_flags ob) RKNPU_MEM_NON_CONTIGUOUS \<and> iommu_en (iommu s)")
    case True
    then have "rknpu_gem_alloc_buf env ob s = rknpu_gem_get_pages env ?ob s"
      using assms(2) by (simp add: rknpu_gem_alloc_buf_def Let_def)
    moreover have "snd (rknpu_gem_free_buf ob' s') = snd (rknpu_gem_put_pages ob' s')"
      if "obj_flags ob' = obj_flags ob" "mem_frame s s'" "obj_dma_addr ob' \<noteq> 0" for ob' s'
      using that True by (simp add: rknpu_gem_free_buf_def mem_frame_fields)
    ultimately show ?thesis
      using get_pages_result [OF assms(1), where ob = ?ob and s = s] by (auto simp: so split: prod.splits)
  next
    case dma: False
    then have dma': "\<not> (has (obj_flags ?ob) RKNPU_MEM_NON_CONTIGUOUS \<and> iommu_en (iommu s))" by simp
    have alloc: "rknpu_gem_alloc_buf env ob s =
        (if \<not> page_array_ok env then (- ENOMEM, ?ob, s)
         else case gem_dma_alloc env (iommu_en (iommu s)) ?ob of
           None \<Rightarrow> (- EINVAL, ?ob, s)
         | Some ((cookie, dm), ob1) \<Rightarrow>
             let ob1 = ob1\<lparr>obj_cookie := cookie, obj_dma_addr := dm\<rparr>;
                 ob1 = (if has (obj_flags ob1) RKNPU_MEM_KERNEL_MAPPING
                        then ob1\<lparr>obj_kv_addr := cookie, obj_kv_tasks := kv_contents env\<rparr> else ob1) in
             if \<not> kzalloc_sgt_ok env then (- ENOMEM, ob1, s)
             else if get_sgtable_ret env < 0 then (get_sgtable_ret env, ob1, s)
             else if sg_to_pages_ret env < 0 then (sg_to_pages_ret env, ob1, s)
             else (sg_to_pages_ret env,
                   ob1\<lparr>obj_pages := Some (sg_to_pages env), obj_sgt := Some (get_sgtable env)\<rparr>,
                   acquire R_sgt (acquire R_dma_alloc ?s)))"
      unfolding rknpu_gem_alloc_buf_def Let_def using dma' assms(2) io
      by (simp only: if_False if_True rknpu_gem_object.simps not_True_eq_False not_False_eq_True
          release_acquire simp_thms)
    show ?thesis
    proof (cases "page_array_ok env \<and> gem_dma_alloc env (iommu_en (iommu s)) ?ob \<noteq> None")
      case False
      then have "rknpu_gem_alloc_buf env ob s = (- ENOMEM, ?ob, s) \<or>
                 rknpu_gem_alloc_buf env ob s = (- EINVAL, ?ob, s)"
        using alloc by (cases "page_array_ok env"; cases "gem_dma_alloc env (iommu_en (iommu s)) ?ob") simp_all
      then show ?thesis by auto
    next
      case True
      then obtain cookie dm ob1 where al: "gem_dma_alloc env (iommu_en (iommu s)) ?ob = Some ((cookie, dm), ob1)"
        by auto
      note r = gem_dma_alloc_result [OF al, unfolded so]
      let ?ob2 = "if has (obj_flags ob1) RKNPU_MEM_KERNEL_MAPPING
        then ob1\<lparr>obj_cookie := cookie, obj_dma_addr := dm, obj_kv_addr := cookie, obj_kv_tasks := kv_contents env\<rparr>
        else ob1\<lparr>obj_cookie := cookie, obj_dma_addr := dm\<rparr>"
      let ?ob3 = "?ob2\<lparr>obj_pages := Some (sg_to_pages env), obj_sgt := Some (get_sgtable env)\<rparr>"
      let ?s3 = "acquire R_sgt (acquire R_dma_alloc ?s)"
      have res: "rknpu_gem_alloc_buf env ob s =
          (if \<not> kzalloc_sgt_ok env then (- ENOMEM, ?ob2, s)
           else if get_sgtable_ret env < 0 then (get_sgtable_ret env, ?ob2, s)
           else if sg_to_pages_ret env < 0 then (sg_to_pages_ret env, ?ob2, s)
           else (sg_to_pages_ret env, ?ob3, ?s3))"
        using alloc True al by (simp add: Let_def)
      have ob3: "same_object ob ?ob3" "obj_flags ?ob3 = obj_flags ob1" "mem_frame s ?s3"
        "iommu ?s3 = iommu s" "obj_sgt ?ob3 \<noteq> None" "obj_dma_addr ?ob3 = dm"
        using r by (auto simp: same_object_def)
      show ?thesis
      proof (cases "kzalloc_sgt_ok env \<and> 0 \<le> get_sgtable_ret env \<and> 0 \<le> sg_to_pages_ret env")
        case False
        with res show ?thesis by (auto simp: not_le)
      next
        case ok: True
        then have res': "rknpu_gem_alloc_buf env ob s = (sg_to_pages_ret env, ?ob3, ?s3)"
          using res by (simp only: not_less [symmetric]) simp
        define o3 where "o3 = ?ob3"
        note res' = res' [folded o3_def] and ob3 = ob3 [folded o3_def]
        have "snd (rknpu_gem_free_buf o3 ?s3) = s" if "obj_flags ob1 = obj_flags ob" and "dm \<noteq> 0"
          using free_buf_dma [of o3 ?s3] dma that ob3 by simp
        with r ob3 ok show ?thesis unfolding res' prod.case by auto
      qed
    qed
  qed
qed

lemma gem_count_free_cache:
  "gem_count (rknpu_gem_free_buf_with_cache ct ob s) =
     (\<lambda>r. gem_count s r
        - (if r = R_iova \<and> attached_domain (iommu s) \<noteq> None then 1 else 0)
        - (if r = R_shmem_pages \<and> obj_pages ob \<noteq> None then 1 else 0)
        - (if r = R_sgt \<and> obj_sgt ob \<noteq> None then 1 else 0))"
  by (rule ext) (auto simp: rknpu_gem_free_buf_with_cache_def Let_def)

lemma map_cache_nonneg:
  "errors_negative env \<Longrightarrow> map_cache_segs env nb a n segs s = (ret, t) \<Longrightarrow> ret \<le> 0"
  by (induction segs arbitrary: a n s)
     (auto simp: Let_def iommu_map_def errors_negative_def split: if_splits prod.splits)

lemma map_sgl_nonneg:
  "errors_negative env \<Longrightarrow> map_sgl env a n sgs s = (ret, l, t) \<Longrightarrow> ret \<le> 0"
  by (induction sgs arbitrary: a n s)
     (auto simp: Let_def iommu_map_def errors_negative_def split: if_splits prod.splits)

text \<open>The first mapping of the on-chip part, in either way.\<close>

lemma cache_map_frame:
  assumes "errors_negative env"
    and "(if \<not> obj_cache_with_sgt ob then Some (iommu_map env a c n s)
          else rknpu_iommu_map_with_cache_sgt env ob n s) = Some (ret, t)"
  shows "ret \<le> 0 \<and> mem_frame s t \<and> gem_count t = gem_count s"
proof (cases "obj_cache_with_sgt ob")
  case True
  with assms(2) obtain segs where
    "map_cache_segs env (nbuf_start s) (obj_iova_start ob) n segs s = (ret, t)"
    by (auto simp: rknpu_iommu_map_with_cache_sgt_def bind_eq_Some_conv)
  with assms(1) show ?thesis using map_cache_segs_frame map_cache_nonneg by blast
next
  case False
  with assms(2) have m: "iommu_map env a c n s = (ret, t)" by simp
  then have "ret = iommu_map_ret env a" by (simp add: iommu_map_def)
  with assms(1) iommu_map_frame [OF m] show ?thesis by (simp add: errors_negative_def)
qed

lemma cache_ddr_result:
  assumes neg: "errors_negative env" and run: "cache_ddr env n ob s = (ret, ob', s')"
  shows "mem_frame s s' \<and> same_object ob ob' \<and>
         (ret < 0 \<and> gem_count s' = gem_count s \<or>
          ret = 0 \<and> obj_pages ob' \<noteq> None \<and> obj_sgt ob' \<noteq> None \<and>
          gem_count s' = (gem_count s)(R_shmem_pages := gem_count s R_shmem_pages + 1,
                                       R_sgt := gem_count s R_sgt + 1))"
proof (cases "get_pages_ret env")
  case (Inl e)
  with neg run show ?thesis by (auto simp: cache_ddr_def errors_negative_def same_object_def)
next
  case pages: (Inr pages)
  show ?thesis
  proof (cases "pages_to_sg_ret env")
    case (Inl e)
    with neg run pages show ?thesis
      by (auto simp: cache_ddr_def errors_negative_def same_object_def Let_def)
  next
    case (Inr sgt)
    let ?s = "acquire R_sgt (acquire R_shmem_pages s)"
    obtain r l t where m: "map_sgl env (obj_iova_start ob + n) (obj_size ob)
        (take (sg_nents sgt) (sgl sgt)) ?s = (r, l, t)" by (metis prod_cases3)
    note fr = map_sgl_frame [OF m] and nn = map_sgl_nonneg [OF neg m]
    have "mem_frame s t" using fr by (auto intro: mem_frame_trans [of s ?s])
    with fr nn run pages Inr m show ?thesis
      by (auto simp: cache_ddr_def same_object_def Let_def split: if_splits)
  qed
qed

lemma alloc_cache_result:
  assumes neg: "errors_negative env" and none: "obj_pages ob = None" "obj_sgt ob = None"
    and run: "rknpu_gem_alloc_buf_with_cache env ct ob s = Some (ret, ob', s')"
  shows "mem_frame s s' \<and> same_object ob ob' \<and>
         (ret < 0 \<and> gem_count s' = gem_count s \<or>
          ret = 0 \<and> attached_domain (iommu s) \<noteq> None \<and>
          gem_count (rknpu_gem_free_buf_with_cache ct ob' s') = gem_count s)"
proof -
  from run obtain cs cn where reg: "cache_region ob ct s = Some (cs, cn)"
    by (auto simp: rknpu_gem_alloc_buf_with_cache_def bind_eq_Some_conv)
  let ?ob = "ob\<lparr>obj_iova_size := iova_align env (cn + obj_size ob), obj_iova_start := alloc_iova_ret env\<rparr>"
  let ?s = "acquire R_iova s"
  show ?thesis
  proof (cases "attached_domain (iommu s) = None \<or> alloc_iova_ret env = 0")
    case True
    with run reg show ?thesis
      by (auto simp: rknpu_gem_alloc_buf_with_cache_def same_object_def Let_def split: if_splits)
  next
    case False
    then obtain d where dom: "attached_domain (iommu s) = Some d" "alloc_iova_ret env \<noteq> 0" by auto
    define first where "first = (if \<not> obj_cache_with_sgt ?ob
        then Some (iommu_map env (alloc_iova_ret env) cs cn ?s)
        else rknpu_iommu_map_with_cache_sgt env ?ob cn ?s)"
    have "first \<bind> (\<lambda>(ret, s). if ret \<noteq> 0 then Some (ret, ?ob, release R_iova s)
            else if obj_size ob = 0 then Some (0, ?ob\<lparr>obj_dma_addr := alloc_iova_ret env\<rparr>, s)
            else Some (case cache_ddr env cn (?ob\<lparr>obj_dma_addr := alloc_iova_ret env\<rparr>) s of
                   (ret, ob, s) \<Rightarrow> if ret = 0 then (0, ob, s) else (ret, ob, release R_iova s)))
          = Some (ret, ob', s')"
      using run dom unfolding rknpu_gem_alloc_buf_with_cache_def reg Let_def first_def
      by (simp add: case_prod_beta cong: if_cong)
    then obtain ret1 s1 where first: "first = Some (ret1, s1)"
      and rest: "(if ret1 \<noteq> 0 then Some (ret1, ?ob, release R_iova s1)
           else if obj_size ob = 0 then Some (0, ?ob\<lparr>obj_dma_addr := alloc_iova_ret env\<rparr>, s1)
           else Some (case cache_ddr env cn (?ob\<lparr>obj_dma_addr := alloc_iova_ret env\<rparr>) s1 of
                  (ret, ob, s) \<Rightarrow> if ret = 0 then (0, ob, s) else (ret, ob, release R_iova s))) =
           Some (ret, ob', s')"
      by (auto simp: bind_eq_Some_conv)
    note f1 = cache_map_frame [OF neg first [unfolded first_def]]
    have fr: "mem_frame s s1" using f1 by (auto intro: mem_frame_trans [of s ?s])
    show ?thesis
    proof (cases "ret1 = 0 \<and> obj_size ob \<noteq> 0")
      case False
      with rest f1 fr dom none show ?thesis
        by (auto simp: gem_count_free_cache same_object_def mem_frame_fields fun_eq_iff split: if_splits)
    next
      case True
      obtain r o2 s2 where d: "cache_ddr env cn (?ob\<lparr>obj_dma_addr := alloc_iova_ret env\<rparr>) s1 = (r, o2, s2)"
        by (metis prod_cases3)
      note f2 = cache_ddr_result [OF neg d]
      have fr2: "mem_frame s s2" using fr f2 mem_frame_trans by blast
      have so: "same_object ob o2" using f2 by (simp add: same_object_def)
      have "iommu s2 = iommu s" using fr2 by (rule mem_frame_fields)
      with True rest d f1 f2 fr2 so dom show ?thesis
        by (auto simp: gem_count_free_cache fun_eq_iff split: if_splits)
    qed
  qed
qed

subsection \<open>Objects\<close>

text \<open>An object as \<open>rknpu_gem_object_create\<close> hands it to the allocation of its memory.\<close>

definition fresh_object :: "rknpu_gem_object \<Rightarrow> bool" where
  "fresh_object ob \<longleftrightarrow>
     obj_pages ob = None \<and> obj_sgt ob = None \<and> obj_dma_addr ob = 0 \<and> \<not> obj_import_attach ob \<and>
     obj_sram_size ob = 0 \<and> obj_nbuf_size ob = 0 \<and> obj_sram_obj ob = None"

text \<open>
  The outcome of setting up the memory of \<open>ob\<close>: either nothing is held, or the new object \<open>ob'\<close> stands for
  exactly what was taken. The exceptions are named: a bus address 0, and the fallback's change of flags.
\<close>

definition backing_outcome ::
    "rknpu_gem_object \<Rightarrow> rknpu_device \<Rightarrow> int \<Rightarrow> rknpu_gem_object \<Rightarrow> rknpu_device \<Rightarrow> bool" where
  "backing_outcome ob s ret ob' s' \<longleftrightarrow>
     mem_frame s s' \<and>
     (ret < 0 \<and> gem_count s' = gem_count s \<or>
      0 \<le> ret \<and> obj_refcount ob' = obj_refcount ob \<and> obj_iommu_domain_id ob' = obj_iommu_domain_id ob \<and>
      obj_size ob' = obj_size ob \<and> \<not> obj_import_attach ob' \<and>
      (obj_dma_addr ob' \<noteq> 0 \<longrightarrow> obj_flags ob' = obj_flags ob \<longrightarrow>
         gem_count (free_backing ob' s') = gem_count s))"

lemma backing_alloc_buf:
  assumes "errors_negative env" and "fresh_object ob" and "rknpu_gem_alloc_buf env ob s = (ret, ob', s')"
  shows "backing_outcome ob s ret ob' s'"
proof -
  have d: "obj_dma_addr ob = 0" using assms(2) by (simp add: fresh_object_def)
  have fb: "free_backing ob' s' = snd (rknpu_gem_free_buf ob' s')" if "same_object ob ob'"
    using that assms(2) by (simp add: free_backing_def same_object_def fresh_object_def)
  have "obj_flags ob \<noteq> obj_flags ob OR RKNPU_MEM_NON_CONTIGUOUS"
    if "\<not> has (obj_flags ob) RKNPU_MEM_NON_CONTIGUOUS"
    using has_or_self [of "RKNPU_MEM_NON_CONTIGUOUS" "obj_flags ob"] that by (metis zero_neq_one)
  with alloc_buf_result [OF assms(1) d, of s, unfolded assms(3) prod.case] fb assms(2) show ?thesis
    unfolding backing_outcome_def same_object_def fresh_object_def by auto
qed

lemma backing_cache_sram:
  assumes neg: "errors_negative env" and fresh: "fresh_object ob" and so: "obj_sram_obj ob1 = Some so"
    and ob1: "ob1 = ob\<lparr>obj_cache_with_sgt := False, obj_sram_obj := Some so, obj_sram_size := n\<rparr>"
    and n: "n > 0" and sram: "CONFIG_ROCKCHIP_RKNPU_SRAM (build s)"
    and run: "rknpu_gem_alloc_buf_with_cache env RKNPU_CACHE_SRAM ob1 (acquire R_sram s) = Some (ret, ob', s')"
  shows "backing_outcome ob s ret ob' (if ret < 0 then release R_sram s' else s')"
proof -
  have none: "obj_pages ob1 = None" "obj_sgt ob1 = None" using fresh ob1 by (simp_all add: fresh_object_def)
  note r = alloc_cache_result [OF neg none run]
  have fr: "mem_frame s s'" using r by (auto intro: mem_frame_trans [of s "acquire R_sram s"])
  show ?thesis
  proof (cases "ret < 0")
    case True
    with r fr show ?thesis by (simp add: backing_outcome_def)
  next
    case False
    with r have s: "same_object ob1 ob'"
      and cnt: "gem_count (rknpu_gem_free_buf_with_cache RKNPU_CACHE_SRAM ob' s') = gem_count (acquire R_sram s)"
      by auto
    have "gem_count (free_backing ob' s') = gem_count s"
    proof -
      have "free_backing ob' s' = rknpu_gem_free_buf_with_cache RKNPU_CACHE_SRAM ob' (release R_sram s')"
        using s ob1 fresh n sram mem_frame_fields(2) [OF fr]
        by (simp add: free_backing_def same_object_def fresh_object_def)
      moreover have "gem_count (rknpu_gem_free_buf_with_cache RKNPU_CACHE_SRAM ob' (release R_sram s')) =
          (\<lambda>r. gem_count (rknpu_gem_free_buf_with_cache RKNPU_CACHE_SRAM ob' s') r - (if r = R_sram then 1 else 0))"
        by (auto simp: gem_count_free_cache fun_eq_iff)
      ultimately show ?thesis by (auto simp: cnt fun_eq_iff)
    qed
    with False s fr ob1 fresh show ?thesis
      by (simp add: backing_outcome_def same_object_def fresh_object_def)
  qed
qed

lemma backing_cache_nbuf:
  assumes neg: "errors_negative env" and fresh: "fresh_object ob"
    and ob1: "ob1 = ob\<lparr>obj_cache_with_sgt := b, obj_core_mask := cm, obj_nbuf_size := n\<rparr>"
    and n: "n > 0" and gki: "CONFIG_NO_GKI (build s)"
    and run: "rknpu_gem_alloc_buf_with_cache env RKNPU_CACHE_NBUF ob1 s = Some (ret, ob', s')"
  shows "backing_outcome ob s ret ob' s'"
proof -
  have none: "obj_pages ob1 = None" "obj_sgt ob1 = None" using fresh ob1 by (simp_all add: fresh_object_def)
  note r = alloc_cache_result [OF neg none run]
  show ?thesis
  proof (cases "ret < 0")
    case False
    with r have s: "same_object ob1 ob'"
      and cnt: "gem_count (rknpu_gem_free_buf_with_cache RKNPU_CACHE_NBUF ob' s') = gem_count s"
      by auto
    moreover have "build s' = build s" using r mem_frame_fields(2) by blast
    ultimately have "free_backing ob' s' = rknpu_gem_free_buf_with_cache RKNPU_CACHE_NBUF ob' s'"
      using ob1 fresh n gki by (simp add: free_backing_def same_object_def fresh_object_def)
    with False s cnt r ob1 fresh show ?thesis
      by (simp add: backing_outcome_def same_object_def fresh_object_def)
  qed (use r in \<open>auto simp: backing_outcome_def\<close>)
qed

text \<open>The whole choice of backing memory.\<close>

lemma create_sram_result:
  assumes neg: "errors_negative env" and fresh: "fresh_object ob" and ddr: "ddr > 0"
    and req: "req = 0 \<or> page_round_up req \<noteq> 0"
    and sram: "CONFIG_ROCKCHIP_RKNPU_SRAM (build s)"
    and run: "create_sram env ddr req ob s = Some (ret, ddr', ob', s')"
  shows "ddr' = 0 \<and> ret = 0 \<and> backing_outcome ob s ret ob' s' \<or> ret < 0 \<and> backing_outcome ob s ret ob' s' \<or>
         ddr' = ddr \<and> ret = 0 \<and> s' = s \<and> ob' = ob\<lparr>obj_cache_with_sgt := False\<rparr>"
proof -
  from run obtain mm where mm: "sram_mm s = Some mm"
    by (auto simp: create_sram_def bind_eq_Some_conv)
  define rq where "rq = (if req \<noteq> 0 then page_round_up req else req)"
  define free where "free = (ucast (mm_free_chunks mm * mm_chunk_size mm) :: u64)"
  define n where "n = (let r = (if rq \<noteq> 0 \<and> ddr > rq then rq else ddr) in if r > free then free else r)"
  let ?ob = "ob\<lparr>obj_cache_with_sgt := False\<rparr>"
  let ?ob1 = "ob\<lparr>obj_cache_with_sgt := False, obj_sram_obj := Some (mm_alloc_obj env), obj_sram_size := n\<rparr>"
  have n: "n > 0" if "free > 0"
    using that ddr by (auto simp: n_def Let_def word_gt_0)
  show ?thesis
  proof (cases "free > 0 \<and> mm_alloc_ret env = 0")
    case False
    with run mm show ?thesis
      by (auto simp: create_sram_def Let_def free_def [symmetric] split: if_splits)
  next
    case True
    with run mm n have "rknpu_gem_alloc_buf_with_cache env RKNPU_CACHE_SRAM ?ob1 (acquire R_sram s) \<bind>
        (\<lambda>(ret, ob, s). if ret < 0 then Some (ret, ddr, ob, if obj_sram_obj ob \<noteq> None then release R_sram s else s)
           else Some (0, 0, ob, s)) = Some (ret, ddr', ob', s')"
      unfolding create_sram_def
      by (simp add: Let_def free_def [symmetric] rq_def [symmetric] n_def [unfolded Let_def, symmetric]
          cong: if_cong)
    then obtain r s1 where al: "rknpu_gem_alloc_buf_with_cache env RKNPU_CACHE_SRAM ?ob1 (acquire R_sram s) =
        Some (r, ob', s1)" and rest: "if r < 0 then ret = r \<and> s' = (if obj_sram_obj ob' \<noteq> None then release R_sram s1 else s1)
           else ret = 0 \<and> ddr' = 0 \<and> s' = s1"
      by (auto simp: bind_eq_Some_conv split: if_splits)
    have "obj_sram_obj ob' \<noteq> None"
      using alloc_cache_result [OF neg _ _ al] fresh by (simp add: same_object_def fresh_object_def)
    with backing_cache_sram [OF neg fresh _ refl _ sram al] n True rest show ?thesis
      by (auto simp: backing_outcome_def split: if_splits)
  qed
qed

lemma create_nbuf_result:
  assumes neg: "errors_negative env" and fresh: "fresh_object ob" and gki: "CONFIG_NO_GKI (build s)"
    and run: "create_nbuf env ddr cm ob s = Some (ret, ddr', ob', s')"
  shows "ret \<le> 0 \<and> (ret = 0 \<longrightarrow> ddr' = 0) \<and> backing_outcome ob s ret ob' s' \<or>
         ddr' = ddr \<and> ret = 0 \<and> s' = s \<and> fresh_object ob' \<and> same_object ob ob' \<and> obj_flags ob' = obj_flags ob"
proof -
  define b where "b = ((cm = RKNPU_CORE_AUTO_MASK \<or> cm = RKNPU_CORE0_MASK \<or> cm = RKNPU_CORE1_MASK) \<and>
                       cache_sgt s 0 \<noteq> None)"
  obtain n where run': "(if n > 0 then rknpu_gem_alloc_buf_with_cache env RKNPU_CACHE_NBUF
        (ob\<lparr>obj_cache_with_sgt := b, obj_core_mask := cm, obj_nbuf_size := n\<rparr>) s \<bind>
        (\<lambda>(ret, ob, s). if ret < 0 then Some (ret, ddr, ob, s) else Some (0, 0, ob, s))
      else Some (0, ddr, ob\<lparr>obj_cache_with_sgt := b, obj_core_mask := cm\<rparr>, s)) = Some (ret, ddr', ob', s')"
    using run unfolding create_nbuf_def Let_def b_def by auto
  show ?thesis
  proof (cases "n > 0")
    case True
    with run' obtain r where
      al: "rknpu_gem_alloc_buf_with_cache env RKNPU_CACHE_NBUF
        (ob\<lparr>obj_cache_with_sgt := b, obj_core_mask := cm, obj_nbuf_size := n\<rparr>) s = Some (r, ob', s')"
      and "if r < 0 then ret = r else ret = 0 \<and> ddr' = 0"
      by (auto simp: bind_eq_Some_conv split: if_splits)
    with backing_cache_nbuf [OF neg fresh refl True gki al] show ?thesis
      by (auto simp: backing_outcome_def split: if_splits)
  next
    case False
    with run' fresh show ?thesis by (auto simp: fresh_object_def same_object_def)
  qed
qed

lemma backing_outcome_nothing:
  "fresh_object ob' \<Longrightarrow> same_object ob ob' \<Longrightarrow> backing_outcome ob s 0 ob' s"
  by (simp add: backing_outcome_def fresh_object_def same_object_def)

lemma create_backing_result:
  assumes neg: "errors_negative env" and fresh: "fresh_object ob" and ddr: "ddr > 0"
    and req: "req = 0 \<or> page_round_up req \<noteq> 0"
    and run: "create_backing env flags ddr req cm ob s = Some (ret, ob', s')"
  shows "backing_outcome ob s ret ob' s'"
proof -
  let ?sram = "CONFIG_ROCKCHIP_RKNPU_SRAM (build s) \<and> has flags RKNPU_MEM_TRY_ALLOC_SRAM \<and> sram_size s > 0"
  let ?nbuf = "CONFIG_NO_GKI (build s) \<and> has flags RKNPU_MEM_TRY_ALLOC_NBUF \<and> nbuf_size s > 0"
  from run obtain r d o1 s1 where
    first: "(if ?sram then create_sram env ddr req ob s else if ?nbuf then create_nbuf env ddr cm ob s
             else Some (0, ddr, ob, s)) = Some (r, d, o1, s1)"
    and rest: "if r < 0 then ret = r \<and> ob' = o1 \<and> s' = s1
               else if d > 0 then rknpu_gem_alloc_buf env o1 s1 = (ret, ob', s')
               else ret = 0 \<and> ob' = o1 \<and> s' = s1"
    unfolding create_backing_def by (auto simp: bind_eq_Some_conv split: if_splits)
  from first consider (finished) "r < 0 \<or> r = 0 \<and> d = 0" "backing_outcome ob s r o1 s1"
    | (pages) "r = 0" "d = ddr" "s1 = s" "fresh_object o1" "same_object ob o1" "obj_flags o1 = obj_flags ob"
  proof (cases ?sram)
    case True
    with first have "create_sram env ddr req ob s = Some (r, d, o1, s1)" by simp
    from create_sram_result [OF neg fresh ddr req _ this] True fresh that show ?thesis
      by (auto simp: fresh_object_def same_object_def)
  next
    case s: False
    show ?thesis
    proof (cases ?nbuf)
      case True
      with s first have "create_nbuf env ddr cm ob s = Some (r, d, o1, s1)" by (simp only: if_False if_True simp_thms)
      from create_nbuf_result [OF neg fresh _ this] True that show ?thesis by fastforce
    next
      case False
      with s first fresh that show ?thesis by (simp only: if_False) (auto simp: same_object_def)
    qed
  qed
  then show ?thesis
  proof cases
    case finished
    with rest show ?thesis by (auto split: if_splits)
  next
    case pages
    with rest assms(3) have "rknpu_gem_alloc_buf env o1 s = (ret, ob', s')" by simp
    from backing_alloc_buf [OF neg pages(4) this] pages show ?thesis
      by (auto simp: backing_outcome_def same_object_def)
  qed
qed

text \<open>Getting and putting the domain touches the IOMMU state only; in the stock build it does nothing.\<close>

lemma dev_domain_get_frame:
  assumes "dev_domain_get env i s = (ret, t)"
  obtains io where "t = s\<lparr>iommu := io\<rparr>"
  using assms by (auto simp: dev_domain_get_def split: prod.splits)

lemma dev_domain_put_frame [simp]:
  "gem_count (dev_domain_put s) = gem_count s" "gem_objs (dev_domain_put s) = gem_objs s"
  "gem_handles (dev_domain_put s) = gem_handles s" "build (dev_domain_put s) = build s"
  "jobs (dev_domain_put s) = jobs s" "subcore_datas (dev_domain_put s) = subcore_datas s"
  "config (dev_domain_put s) = config s" "rst (dev_domain_put s) = rst s" "fences (dev_domain_put s) = fences s"
  "cleanup_works (dev_domain_put s) = cleanup_works s" "pwr (dev_domain_put s) = pwr s"
  by (simp_all add: dev_domain_put_def)

lemma dev_domain_stock:
  assumes "\<not> CONFIG_NO_GKI (build s)"
  shows "dev_domain_get env i s = (0, s)" "dev_domain_put s = s" "domain_retry (Suc n) env i s = (0, s)"
  using assms
  by (simp_all add: dev_domain_get_def dev_domain_put_def rknpu_iommu_domain_get_and_switch_def
      rknpu_iommu_domain_put_def)

lemma gem_init_cases:
  assumes "rknpu_gem_init env sz s = (r, t)"
  obtains (failed) e where "r = Inl e" "t = s"
  | (ok) addr ob where "r = Inr (addr, ob)" "t = acquire R_object s" "gem_kzalloc env = Some addr"
      "fresh_object ob" "obj_size ob = sz" "obj_refcount ob = 1"
  using assms
  by (auto simp: rknpu_gem_init_def Let_def fresh_object_def zero_gem_object_def split: option.splits if_splits)

text \<open>Creation, seen from its two outcomes.\<close>

lemma object_create_cases:
  assumes neg: "errors_negative env" and sz: "sz = 0 \<or> page_round_up sz \<noteq> 0"
    and req: "req = 0 \<or> page_round_up req \<noteq> 0"
    and run: "rknpu_gem_object_create env flags sz req did cm s = Some (r, t)"
  obtains (failed) e where "r = Inl e" "gem_count t = gem_count s" "gem_objs t = gem_objs s"
      "gem_handles t = gem_handles s" "\<not> CONFIG_NO_GKI (build s) \<Longrightarrow> mem_frame s t"
  | (ok) addr s1 ob0 ob ret s2 where "r = Inr addr" "gem_kzalloc env = Some addr"
      "gem_count s1 = gem_count (acquire R_object s)" "gem_objs s1 = gem_objs s"
      "\<not> CONFIG_NO_GKI (build s) \<Longrightarrow> s1 = acquire R_object s"
      "backing_outcome ob0 s1 ret ob s2" "0 \<le> ret"
      "obj_flags ob0 = (if \<not> iommu_en (iommu s1) \<and> has flags RKNPU_MEM_NON_CONTIGUOUS
                        then flags AND NOT RKNPU_MEM_NON_CONTIGUOUS else flags)"
      "obj_refcount ob0 = 1" "obj_size ob0 = page_round_up sz" "obj_iommu_domain_id ob0 = did"
      "t = dev_domain_put (s2\<lparr>gem_objs := (gem_objs s2)(addr \<mapsto> ob)\<rparr>)"
proof (cases "sz = 0")
  case True
  with run show ?thesis by (intro failed [of "- EINVAL"]) (auto simp: rknpu_gem_object_create_def)
next
  case False
  obtain i s0 where init: "rknpu_gem_init env (page_round_up sz) s = (i, s0)" by fastforce
  from init show ?thesis
  proof (cases rule: gem_init_cases)
    case (failed e)
    with init False run that(1) [of e] show ?thesis by (simp add: rknpu_gem_object_create_def Let_def)
  next
    case (ok addr ob)
    obtain ret0 s1 where get: "dev_domain_get (gem_iommu env) did s0 = (ret0, s1)" by fastforce
    obtain io where s1: "s1 = (acquire R_object s)\<lparr>iommu := io\<rparr>"
      using get ok(2) by (auto elim: dev_domain_get_frame)
    have stock: "s1 = acquire R_object s \<and> ret0 = 0" if "\<not> CONFIG_NO_GKI (build s)"
      using get that ok(2) by (simp add: dev_domain_stock)
    define fl where "fl = (if \<not> iommu_en (iommu s1) \<and> has flags RKNPU_MEM_NON_CONTIGUOUS
                           then flags AND NOT RKNPU_MEM_NON_CONTIGUOUS else flags)"
    let ?ob = "ob\<lparr>obj_iommu_domain_id := did, obj_flags := fl\<rparr>"
    have fresh: "fresh_object ?ob" using ok(4) by (simp add: fresh_object_def)
    show ?thesis
    proof (cases "ret0 = 0")
      case True
      with run False init ok(1) get have "create_backing env fl (page_round_up sz) req cm ?ob s1 \<bind>
          (\<lambda>(ret, ob, s). if ret < 0 then Some (Inl ret, dev_domain_put (rknpu_gem_release s))
             else Some (Inr addr, dev_domain_put (s\<lparr>gem_objs := (gem_objs s)(addr \<mapsto> ob)\<rparr>))) = Some (r, t)"
        by (simp add: rknpu_gem_object_create_def Let_def fl_def)
      then obtain ret ob' s2 where bk: "create_backing env fl (page_round_up sz) req cm ?ob s1 = Some (ret, ob', s2)"
        and rest: "if ret < 0 then r = Inl ret \<and> t = dev_domain_put (rknpu_gem_release s2)
                   else r = Inr addr \<and> t = dev_domain_put (s2\<lparr>gem_objs := (gem_objs s2)(addr \<mapsto> ob')\<rparr>)"
        by (auto simp: bind_eq_Some_conv split: if_splits)
      have "page_round_up sz > 0" using sz False by (simp add: word_gt_0)
      from create_backing_result [OF neg fresh this req bk]
      have out: "backing_outcome ?ob s1 ret ob' s2" .
      show ?thesis
      proof (cases "ret < 0")
        case True
        with out have "gem_count s2 = gem_count s1" and fr: "mem_frame s1 s2"
          by (auto simp: backing_outcome_def)
        with True rest s1 mem_frame_fields [OF fr] stock show ?thesis
          by (intro failed [of ret])
             (auto simp: rknpu_gem_release_def dev_domain_stock intro: mem_frame_trans [of s "acquire R_object s"])
      next
        case ge: False
        with rest out s1 stock ok show ?thesis
          by (intro that(2) [of addr s1 ?ob ret ob' s2]) (simp_all add: fl_def)
      qed
    next
      case ret0: False
      with run False init ok(1) get have "r = Inl (- EINVAL)" and "t = rknpu_gem_release s1"
        by (simp_all add: rknpu_gem_object_create_def Let_def)
      with s1 stock ret0 show ?thesis
        by (intro failed [of "- EINVAL"]) (auto simp: rknpu_gem_release_def)
    qed
  qed
qed

lemma round_up_nonzero: "0 < sz \<Longrightarrow> uint sz \<le> 2 ^ 64 - 4096 \<Longrightarrow> page_round_up sz \<noteq> 0"
  using page_round_up_bounds [of sz] by (auto simp: word_less_def)

text \<open>Destroying an object in the stock build.\<close>

lemma object_destroy_stock:
  assumes "\<not> CONFIG_NO_GKI (build s)" and "gem_objs s addr = Some ob"
  shows "rknpu_gem_object_destroy env addr s =
           Some (release R_object ((free_backing ob s)\<lparr>gem_objs := (gem_objs s)(addr := None)\<rparr>))"
proof -
  have "build (free_backing ob s) = build s"
    by (simp add: free_backing_def rknpu_gem_free_buf_with_cache_def rknpu_gem_free_buf_def
        rknpu_gem_put_pages_def iommu_unmap_def Let_def)
  with assms show ?thesis
    by (simp add: rknpu_gem_object_destroy_def numeral_3_eq_3 dev_domain_stock rknpu_gem_release_def
        del: domain_retry.simps)
qed

lemma free_gem_objs:
  "release r (s\<lparr>gem_objs := g\<rparr>) = (release r s)\<lparr>gem_objs := g\<rparr>"
  "iommu_unmap a n (s\<lparr>gem_objs := g\<rparr>) = (iommu_unmap a n s)\<lparr>gem_objs := g\<rparr>"
  by (simp_all add: release_def iommu_unmap_def)

lemma free_backing_gem_objs:
  "free_backing ob (s\<lparr>gem_objs := g\<rparr>) = (free_backing ob s)\<lparr>gem_objs := g\<rparr>"
proof -
  have "rknpu_gem_free_buf_with_cache ct ob (s\<lparr>gem_objs := g\<rparr>) =
        (rknpu_gem_free_buf_with_cache ct ob s)\<lparr>gem_objs := g\<rparr>" for ct s
    by (simp add: rknpu_gem_free_buf_with_cache_def Let_def free_gem_objs)
  moreover have "snd (rknpu_gem_free_buf ob (s\<lparr>gem_objs := g\<rparr>)) =
        (snd (rknpu_gem_free_buf ob s))\<lparr>gem_objs := g\<rparr>"
    by (simp add: rknpu_gem_free_buf_def rknpu_gem_put_pages_def Let_def free_gem_objs)
  ultimately show ?thesis by (simp add: free_backing_def free_gem_objs)
qed

lemma and_not_self: "\<not> has x m \<Longrightarrow> x AND NOT m = x"
proof (rule bit_eqI)
  fix n
  assume "\<not> has x m" and "possible_bit TYPE('a word) n"
  then have "\<not> bit (x AND m) n" by simp
  then show "bit (x AND NOT m) n \<longleftrightarrow> bit x n" using \<open>possible_bit TYPE('a word) n\<close>
    by (auto simp: bit_simps)
qed

text \<open>A kernel that grants everything.\<close>

definition gem_env_ok :: gem_env where
  "gem_env_ok =
    \<lparr>gem_iommu = env_example, gem_power = power_env_ok, power_depth = 2, gem_kzalloc = Some 0x1000,
     gem_object_init_ret = 0, get_pages_ret = Inr [7, 8],
     pages_to_sg_ret = Inr \<lparr>sgl = [\<lparr>sg_phys = 0x7000, sg_length = 8192\<rparr>], sg_nents = 1, sg_orig_nents = 1\<rparr>,
     map_sg_ret = 1, sg_dma_addr = 0xfff00000, vmap_ret = 0x9000, kv_contents = [], page_array_ok = True,
     dma_alloc_ret = (\<lambda>a. Some (0x9000, 0xffe00000)), kzalloc_sgt_ok = True, get_sgtable_ret = 0,
     get_sgtable = \<lparr>sgl = [\<lparr>sg_phys = 0x7000, sg_length = 8192\<rparr>], sg_nents = 1, sg_orig_nents = 1\<rparr>,
     sg_to_pages_ret = 0, sg_to_pages = [7, 8], iova_align = (\<lambda>n. n), alloc_iova_ret = 0xff000000,
     iommu_map_ret = (\<lambda>a. 0), mm_alloc_ret = 0, mm_alloc_obj = \<lparr>range_start = 0, range_end = 0\<rparr>,
     handle_create_ret = 0, new_handle = 1\<rparr>"

lemma gem_env_ok_errors: "errors_negative gem_env_ok"
  by (simp add: errors_negative_def gem_env_ok_def)

section \<open>Properties\<close>





text \<open>
  C26: the fallback of a contiguous request is freed the wrong way. When the contiguous allocation fails and
  the non-contiguous retry with \<open>dma_alloc_attrs\<close> succeeds, the object is marked non-contiguous, and
  \<open>rknpu_gem_free_buf\<close> then treats it as shmem pages: the DMA allocation and the page array are never
  freed, and pages and a DMA mapping that were never taken are released.
\<close>

theorem gem_fallback_frees_wrong_memory:
  assumes "obj_dma_addr ob = 0" and "iommu_en (iommu s)" and "\<not> has (obj_flags ob) RKNPU_MEM_NON_CONTIGUOUS"
    and "page_array_ok env" and "kzalloc_sgt_ok env" and "0 \<le> get_sgtable_ret env" and "0 \<le> sg_to_pages_ret env"
    and "dma_alloc_ret env (gem_dma_attrs (obj_flags ob)) = None"
    and "dma_alloc_ret env (gem_dma_attrs (obj_flags ob) AND NOT DMA_ATTR_FORCE_CONTIGUOUS) = Some (cookie, dma)"
    and "dma \<noteq> 0"
  shows "\<exists>ret ob' s'. rknpu_gem_alloc_buf env ob s = (ret, ob', s') \<and> 0 \<le> ret \<and>
           (let c = gem_count (snd (rknpu_gem_free_buf ob' s')) in
            c R_dma_alloc = gem_count s R_dma_alloc + 1 \<and> c R_page_array = gem_count s R_page_array + 1 \<and>
            c R_shmem_pages = gem_count s R_shmem_pages - 1 \<and> c R_dma_map = gem_count s R_dma_map - 1)"
proof -
  let ?ob = "ob\<lparr>obj_dma_attrs := gem_dma_attrs (obj_flags ob)\<rparr>"
  let ?ob1 = "?ob\<lparr>obj_dma_attrs := gem_dma_attrs (obj_flags ob) AND NOT DMA_ATTR_FORCE_CONTIGUOUS,
                  obj_flags := obj_flags ob OR RKNPU_MEM_NON_CONTIGUOUS\<rparr>"
  have al: "gem_dma_alloc env True ?ob = Some ((cookie, dma), ?ob1)"
    using assms by (simp add: gem_dma_alloc_def Let_def)
  obtain ob' where run: "rknpu_gem_alloc_buf env ob s =
      (sg_to_pages_ret env, ob', acquire R_sgt (acquire R_dma_alloc (acquire R_page_array s)))"
    and ob': "obj_flags ob' = obj_flags ob OR RKNPU_MEM_NON_CONTIGUOUS" "obj_dma_addr ob' = dma"
      "obj_sgt ob' = Some (get_sgtable env)"
    using assms al by (auto simp: rknpu_gem_alloc_buf_def Let_def not_less)
  have "has (obj_flags ob') RKNPU_MEM_NON_CONTIGUOUS" unfolding ob'(1) by (rule has_or_self) simp
  with ob' assms(2,10) have "rknpu_gem_free_buf ob' t = rknpu_gem_put_pages ob' t" if "iommu t = iommu s" for t
    using that by (simp add: rknpu_gem_free_buf_def)
  with run ob' assms(7) show ?thesis
    by (auto simp: rknpu_gem_put_pages_def Let_def)
qed

theorem gem_fallback_frees_wrong_memory_witness:
  "\<exists>ret ob' s'. rknpu_gem_alloc_buf
       (gem_env_ok\<lparr>dma_alloc_ret := (\<lambda>a. if has a DMA_ATTR_FORCE_CONTIGUOUS then None else Some (9, 7))\<rparr>)
       zero_gem_object sample_device = (ret, ob', s') \<and> 0 \<le> ret \<and>
     (let c = gem_count (snd (rknpu_gem_free_buf ob' s')) in
      c R_dma_alloc = gem_count sample_device R_dma_alloc + 1 \<and>
      c R_page_array = gem_count sample_device R_page_array + 1 \<and>
      c R_shmem_pages = gem_count sample_device R_shmem_pages - 1 \<and>
      c R_dma_map = gem_count sample_device R_dma_map - 1)"
  by (rule gem_fallback_frees_wrong_memory [where cookie = 9 and dma = 7])
     (simp_all add: zero_gem_object_def sample_device_def gem_env_ok_def gem_dma_attrs_def)

end
