(* ===== verification/Rknpu_Job.thy ===== *)
theory Rknpu_Job
  imports Rknpu_Reset Rknpu_Fence Rknpu_Gem
begin

text \<open>
  Jobs (\<open>rknpu_job.c\<close>): choosing cores, allocating and freeing jobs, committing a chunk of tasks to a
  core's program controller, the per-core queues, completion, the interrupt handler, waiting, abort,
  the clean-up of jobs that timed out, and submission.

  A job is a number looked up in the heap \<open>jobs\<close>. The list heads embedded in it are modelled by the
  per-core lists \<open>todo_list\<close> together with the state of each node; every list primitive writes to the
  neighbours of the node it moves, and faults when a neighbour was freed. For a blocking submission
  \<open>job->args\<close> is the caller's structure; the model keeps it in the job and returns it at the end.
\<close>

section \<open>Cores and masks\<close>

definition rknpu_wait_core_index :: "u32 \<Rightarrow> nat" where
  "rknpu_wait_core_index core_mask =
    (if core_mask = RKNPU_CORE0_MASK \<or> core_mask = RKNPU_CORE0_MASK OR RKNPU_CORE1_MASK \<or>
        core_mask = RKNPU_CORE0_MASK OR RKNPU_CORE1_MASK OR RKNPU_CORE2_MASK then 0
     else if core_mask = RKNPU_CORE1_MASK then 1
     else if core_mask = RKNPU_CORE2_MASK then 2
     else 0)"

definition rknpu_core_mask :: "nat \<Rightarrow> u32" where
  "rknpu_core_mask core_index =
    (if core_index = 0 then RKNPU_CORE0_MASK else if core_index = 1 then RKNPU_CORE1_MASK
     else if core_index = 2 then RKNPU_CORE2_MASK else RKNPU_CORE_AUTO_MASK)"

text \<open>The cores a mask selects, in the order the loops over \<open>num_irqs\<close> visit them.\<close>

definition mask_cores :: "nat \<Rightarrow> u32 \<Rightarrow> nat list" where
  "mask_cores n core_mask = filter (\<lambda>i. has core_mask (rknpu_core_mask i)) [0..<n]"

definition rknpu_get_task_number :: "rknpu_config \<Rightarrow> rknpu_job \<Rightarrow> nat \<Rightarrow> int" where
  "rknpu_get_task_number cfg J i =
    (if i \<ge> RKNPU_MAX_CORES then 0
     else s32 (uint (if cfg_num_irqs cfg > 1
            then if job_use_core_num J = 1 \<or> job_use_core_num J = 2
                 then st_task_number (sub_subcore_task (job_args J) i)
                 else if job_use_core_num J = 3
                 then st_task_number (sub_subcore_task (job_args J) (i + 2))
                 else sub_task_number (job_args J)
            else sub_task_number (job_args J))))"

text \<open>The choice of a core keeps the number of tasks, an \<open>int64_t\<close>, in an \<open>int\<close>.\<close>

definition rknpu_schedule_core_index :: "rknpu_device \<Rightarrow> nat" where
  "rknpu_schedule_core_index s =
    fst (fold (\<lambda>i (core_index, n).
                 if n > task_num (subcore_datas s i) then (i, s32 (task_num (subcore_datas s i)))
                 else (core_index, n))
              [1..<cfg_num_irqs (config s)] (0, s32 (task_num (subcore_datas s 0))))"

section \<open>List primitives\<close>

text \<open>\<open>list_add_tail\<close> writes to the node and to the last entry of the list.\<close>

definition list_add_tail :: "nat \<Rightarrow> job_ptr \<Rightarrow> rknpu_device \<Rightarrow> rknpu_device option" where
  "list_add_tail i j s =
    (let l = todo_list (subcore_datas s i) in
     if l \<noteq> [] \<and> jobs s (last l) = None then None
     else upd_job j (\<lambda>J. J\<lparr>job_head := (job_head J)(i := Node_Linked)\<rparr>)
            (upd_subcore i (\<lambda>d. d\<lparr>todo_list := l @ [j]\<rparr>) s))"

text \<open>
  Unlinking the linked node of \<open>j\<close> from the list of core \<open>i\<close> writes to both neighbours; \<open>list_del\<close> then
  poisons the node, \<open>list_del_init\<close> makes it point to itself.
\<close>

definition unlink_entry :: "list_node \<Rightarrow> nat \<Rightarrow> job_ptr \<Rightarrow> rknpu_device \<Rightarrow> rknpu_device option" where
  "unlink_entry node i j s =
    (let l = todo_list (subcore_datas s i);
         pre = takeWhile (\<lambda>x. x \<noteq> j) l;
         post = tl (dropWhile (\<lambda>x. x \<noteq> j) l) in
     if pre \<noteq> [] \<and> jobs s (last pre) = None \<or> post \<noteq> [] \<and> jobs s (hd post) = None then None
     else upd_job j (\<lambda>J. J\<lparr>job_head := (job_head J)(i := node)\<rparr>)
            (upd_subcore i (\<lambda>d. d\<lparr>todo_list := pre @ post\<rparr>) s))"

text \<open>
  \<open>if (!list_empty (&job->head[i])) list_del_init (&job->head[i])\<close>: a node that is still zero, or
  poisoned, is not empty, and unlinking it follows an invalid pointer.
\<close>

definition unlink_node :: "nat \<Rightarrow> job_ptr \<Rightarrow> rknpu_device \<Rightarrow> rknpu_device option" where
  "unlink_node i j s =
    do { J \<leftarrow> jobs s j;
         case job_head J i of
           Node_Self \<Rightarrow> Some s
         | Node_Linked \<Rightarrow> unlink_entry Node_Self i j s
         | Node_Zero \<Rightarrow> None
         | Node_Poison \<Rightarrow> None }"

text \<open>\<open>schedule_work (&job->cleanup_work)\<close>: the item must be initialised; a pending one is not queued again.\<close>

definition schedule_work :: "job_ptr \<Rightarrow> rknpu_device \<Rightarrow> rknpu_device option" where
  "schedule_work j s =
    do { J \<leftarrow> jobs s j;
         if \<not> job_cleanup_work J then None
         else if j \<in> set (cleanup_works s) then Some s
         else Some (s\<lparr>cleanup_works := cleanup_works s @ [j]\<rparr>) }"

section \<open>Environment\<close>

text \<open>
  What the kernel and the hardware answer: allocation, time (\<open>ktime_get\<close>, in ns), register reads by core
  and offset, the in-fence of a submission (whether it is of the device's own context, and the result
  of waiting for it), and, for the \<open>k\<close>-th wait for completion, what the other contexts did meanwhile, how
  many jiffies were left, and the time afterwards.
\<close>

record job_env =
  je_gem :: gem_env
  je_reset :: reset_env
  je_fence :: fence_env
  je_iommu :: iommu_env
  je_kzalloc :: "job_ptr option"
  je_now :: int
  je_read :: "nat \<Rightarrow> nat \<Rightarrow> u32"
  je_in_fence :: "(bool \<times> int) option"
  je_others :: "nat \<Rightarrow> rknpu_device \<Rightarrow> rknpu_device option"
  je_jiffies_left :: "nat \<Rightarrow> int"
  je_wait_now :: "nat \<Rightarrow> int"

text \<open>\<open>ktime_us_delta\<close>.\<close>

definition us_delta :: "int \<Rightarrow> int \<Rightarrow> int" where
  "us_delta later earlier = cdiv (later - earlier) 1000"

section \<open>Allocating and freeing\<close>

text \<open>
  A job holds a reference to its task buffer in the DRM build only. The DMA-heap build has no reference count
  there; its buffers (\<open>struct rknpu_mem_object\<close>) are seen by this file through their kernel mapping only,
  for which \<open>gem_objs\<close> stands in that build.
\<close>

text \<open>\<open>if (job->fence) dma_fence_put (job->fence)\<close>, and the same for \<open>dma_fence_signal\<close>.\<close>

definition put_fence :: "fence_ptr option \<Rightarrow> rknpu_device \<Rightarrow> rknpu_device option" where
  "put_fence fo s = (case fo of None \<Rightarrow> Some s | Some f \<Rightarrow> dma_fence_put f s)"

definition signal_fence :: "fence_ptr option \<Rightarrow> rknpu_device \<Rightarrow> rknpu_device option" where
  "signal_fence fo s = (case fo of None \<Rightarrow> Some s | Some f \<Rightarrow> dma_fence_signal f s)"

definition rknpu_job_free :: "job_env \<Rightarrow> job_ptr \<Rightarrow> rknpu_device \<Rightarrow> rknpu_device option" where
  "rknpu_job_free env j s =
    do { J \<leftarrow> jobs s j;
         s \<leftarrow> (if CONFIG_ROCKCHIP_RKNPU_DRM_GEM (build s) \<and> sub_task_obj_addr (job_args J) \<noteq> 0
               then rknpu_gem_object_put (je_gem env) (sub_task_obj_addr (job_args J)) s else Some s);
         s \<leftarrow> put_fence (job_fence J) s;
         Some (s\<lparr>jobs := (jobs s)(j := None)\<rparr>) }"

definition rknpu_job_cleanup :: "job_env \<Rightarrow> job_ptr \<Rightarrow> rknpu_device \<Rightarrow> rknpu_device option" where
  "rknpu_job_cleanup env j s = rknpu_job_free env j s"

text \<open>The work item runs once it left the queue.\<close>

definition rknpu_job_cleanup_work :: "job_env \<Rightarrow> job_ptr \<Rightarrow> rknpu_device \<Rightarrow> rknpu_device option" where
  "rknpu_job_cleanup_work env j s =
    rknpu_job_cleanup env j (s\<lparr>cleanup_works := remove1 j (cleanup_works s)\<rparr>)"

text \<open>What \<open>kzalloc\<close> leaves in a job.\<close>

definition mask_core_count :: "u32 \<Rightarrow> nat" where
  "mask_core_count m =
    unat ((m AND RKNPU_CORE0_MASK) + drop_bit 1 (m AND RKNPU_CORE1_MASK) + drop_bit 2 (m AND RKNPU_CORE2_MASK))"

definition new_job :: "int \<Rightarrow> rknpu_submit \<Rightarrow> rknpu_job" where
  "new_job now args =
    \<lparr>job_head = (\<lambda>i. Node_Zero), job_cleanup_work = has (sub_flags args) RKNPU_JOB_NONBLOCK,
     job_irq_entry = (\<lambda>i. False), job_flags = 0, job_ret = 0, job_args = args,
     job_args_owner = has (sub_flags args) RKNPU_JOB_NONBLOCK, job_first_task = None, job_last_task = None,
     job_int_mask = (\<lambda>i. 0), job_int_status = (\<lambda>i. 0), job_fence = None, job_timestamp = now,
     job_use_core_num = mask_core_count (sub_core_mask args),
     job_run_count = int (mask_core_count (sub_core_mask args)),
     job_interrupt_count = int (mask_core_count (sub_core_mask args)), job_hw_commit_time = 0,
     job_hw_recoder_time = 0, job_hw_elapse_time = 0, job_submit_count = (\<lambda>i. 0),
     job_iommu_domain_id = s32 (uint (sub_iommu_domain_id args))\<rparr>"

definition rknpu_job_alloc ::
    "job_env \<Rightarrow> rknpu_submit \<Rightarrow> rknpu_device \<Rightarrow> (job_ptr option \<times> rknpu_device) option" where
  "rknpu_job_alloc env args s =
    (case je_kzalloc env of
       None \<Rightarrow> Some (None, s)
     | Some j \<Rightarrow> do {
         let s = s\<lparr>jobs := (jobs s)(j \<mapsto> new_job (je_now env) args)\<rparr>;
         s \<leftarrow> (if CONFIG_ROCKCHIP_RKNPU_DRM_GEM (build s) \<and> sub_task_obj_addr args \<noteq> 0
               then rknpu_gem_object_get (sub_task_obj_addr args) s else Some s);
         Some (Some j, s) })"

section \<open>Committing tasks to a core\<close>

text \<open>A task through the kernel mapping of the task buffer.\<close>

definition task_at :: "u64 \<Rightarrow> int \<Rightarrow> rknpu_device \<Rightarrow> rknpu_task option" where
  "task_at addr k s =
    do { ob \<leftarrow> gem_objs s addr;
         if obj_kv_addr ob = 0 \<or> k < 0 \<or> length (obj_kv_tasks ob) \<le> nat k then None
         else Some (obj_kv_tasks ob ! nat k) }"

text \<open>First task and number of tasks of a core, before they are cut into chunks.\<close>

definition subcore_range :: "rknpu_config \<Rightarrow> rknpu_job \<Rightarrow> nat \<Rightarrow> int \<times> int" where
  "subcore_range cfg J i =
    (let args = job_args J;
         whole = (s32 (uint (sub_task_start args)), s32 (uint (sub_task_number args)));
         part = (\<lambda>k. (s32 (uint (st_task_start (sub_subcore_task args k))),
                      s32 (uint (st_task_number (sub_subcore_task args k))))) in
     if cfg_num_irqs cfg > 1
     then if job_use_core_num J = 1 \<or> job_use_core_num J = 2 then part i
          else if job_use_core_num J = 3 then part (i + 2) else whole
     else whole)"

definition max_submit :: "rknpu_config \<Rightarrow> int" where
  "max_submit cfg = s32 (uint (cfg_max_submit_number cfg))"

text \<open>The chunk with index \<open>k\<close>: at most \<open>m\<close> tasks.\<close>

definition chunk :: "int \<Rightarrow> int \<times> int \<Rightarrow> int \<Rightarrow> int \<times> int" where
  "chunk m r k =
    (let start = s32 (fst r + s32 (k * m));
         number = s32 (snd r - s32 (k * m))
     in (start, if number > m then m else number))"

definition rknpu_job_subcore_commit_pc ::
    "nat \<Rightarrow> job_ptr \<Rightarrow> rknpu_device \<Rightarrow> (int \<times> rknpu_device) option" where
  "rknpu_job_subcore_commit_pc i j s =
    do { J \<leftarrow> jobs s j;
         let args = job_args J;
         let addr = sub_task_obj_addr args;
         let cfg = config s;
         if addr = 0 then do {
           s \<leftarrow> upd_job j (\<lambda>J. J\<lparr>job_ret := - EINVAL\<rparr>) s;
           Some (- EINVAL, s) }
         else do {
           let s = (if cfg_num_irqs cfg > 1 \<and> i < cfg_num_irqs cfg
                    then reg_write (Core i) 0x3004 (0xe + 0x10000000 * of_nat i)
                           (reg_write (Core i) 0x1004 (0xe + 0x10000000 * of_nat i) s)
                    else s);
           let (task_start, task_number) = chunk (max_submit cfg) (subcore_range cfg J i) (job_submit_count J i);
           let task_end = s32 (task_start + task_number - 1);
           first_task \<leftarrow> task_at addr task_start s;
           last_task \<leftarrow> task_at addr task_end s;
           let pp = (if has (sub_flags args) RKNPU_JOB_PINGPONG then 1 else 0 :: u32);
           let scale = cfg_pc_data_amount_scale cfg;
           let s = reg_write (Core i) RKNPU_OFFSET_PC_DATA_ADDR (ucast (task_regcmd_addr first_task)) s;
           let s = reg_write (Core i) RKNPU_OFFSET_PC_DATA_AMOUNT
                     ((task_regcfg_amount first_task + RKNPU_PC_DATA_EXTRA_AMOUNT + scale - 1) div scale - 1) s;
           let s = reg_write (Core i) RKNPU_OFFSET_INT_MASK (task_int_mask last_task) s;
           let s = reg_write (Core i) RKNPU_OFFSET_INT_CLEAR (task_int_mask first_task) s;
           let s = reg_write (Core i) RKNPU_OFFSET_PC_TASK_CONTROL
                     (push_bit (cfg_pc_task_number_bits cfg) (0x6 OR pp) OR word_of_int task_number) s;
           let s = reg_write (Core i) RKNPU_OFFSET_PC_DMA_BASE_ADDR (ucast (sub_task_base_addr args)) s;
           s \<leftarrow> upd_job j (\<lambda>J. J\<lparr>job_first_task := Some (addr, nat task_start),
                                  job_last_task := Some (addr, nat task_end),
                                  job_int_mask := (job_int_mask J)(i := task_int_mask last_task)\<rparr>) s;
           Some (0, reg_write (Core i) RKNPU_OFFSET_PC_OP_EN 0
                      (reg_write (Core i) RKNPU_OFFSET_PC_OP_EN 1 s)) } }"

text \<open>The core is first switched to slave mode.\<close>

definition rknpu_job_subcore_commit ::
    "nat \<Rightarrow> job_ptr \<Rightarrow> rknpu_device \<Rightarrow> (int \<times> rknpu_device) option" where
  "rknpu_job_subcore_commit i j s =
    do { let s = reg_write (Core i) RKNPU_OFFSET_PC_DATA_ADDR 1 s;
         J \<leftarrow> jobs s j;
         if \<not> has (sub_flags (job_args J)) RKNPU_JOB_PC then do {
           s \<leftarrow> upd_job j (\<lambda>J. J\<lparr>job_ret := - EINVAL\<rparr>) s;
           Some (- EINVAL, s) }
         else rknpu_job_subcore_commit_pc i j s }"

text \<open>The cores \<open>rknpu_job_commit\<close> starts; masks 5 and 6 fall into its default branch.\<close>

definition commit_cores :: "u32 \<Rightarrow> nat list" where
  "commit_cores core_mask =
    (if core_mask = RKNPU_CORE0_MASK then [0]
     else if core_mask = RKNPU_CORE1_MASK then [1]
     else if core_mask = RKNPU_CORE2_MASK then [2]
     else if core_mask = RKNPU_CORE0_MASK OR RKNPU_CORE1_MASK then [0, 1]
     else if core_mask = RKNPU_CORE0_MASK OR RKNPU_CORE1_MASK OR RKNPU_CORE2_MASK then [0, 1, 2]
     else [])"

definition rknpu_job_commit :: "job_ptr \<Rightarrow> rknpu_device \<Rightarrow> rknpu_device option" where
  "rknpu_job_commit j s =
    do { J \<leftarrow> jobs s j;
         for_each (commit_cores (sub_core_mask (job_args J)))
           (\<lambda>i s. map_option snd (rknpu_job_subcore_commit i j s)) s }"

section \<open>The queues\<close>

text \<open>
  \<open>rknpu_job_next\<close>: the section under the lock that takes the first job of an idle core, then the
  countdown of the cores that still have to arrive. The last one commits the job on all of them.
\<close>

definition next_take :: "job_env \<Rightarrow> nat \<Rightarrow> job_ptr \<Rightarrow> rknpu_device \<Rightarrow> rknpu_device option" where
  "next_take env i j s =
    do { s \<leftarrow> unlink_entry Node_Self i j s;
         let s = upd_subcore i (\<lambda>d. d\<lparr>subcore_job := Some j\<rparr>) s;
         upd_job j (\<lambda>J. J\<lparr>job_hw_commit_time := je_now env, job_hw_recoder_time := je_now env\<rparr>) s }"

definition next_start :: "job_ptr \<Rightarrow> rknpu_device \<Rightarrow> rknpu_device option" where
  "next_start j s =
    do { J \<leftarrow> jobs s j;
         let n = s32 (job_run_count J - 1);
         s \<leftarrow> upd_job j (\<lambda>J. J\<lparr>job_run_count := n\<rparr>) s;
         if n = 0 then rknpu_job_commit j s else Some s }"

definition rknpu_job_next :: "job_env \<Rightarrow> nat \<Rightarrow> rknpu_device \<Rightarrow> rknpu_device option" where
  "rknpu_job_next env i s =
    (if soft_reseting (rst s) then Some s
     else case (subcore_job (subcore_datas s i), todo_list (subcore_datas s i)) of
            (Some _, _) \<Rightarrow> Some s
          | (None, []) \<Rightarrow> Some s
          | (None, j # _) \<Rightarrow> do { s \<leftarrow> next_take env i j s; next_start j s })"

text \<open>The end of a job, when its last core has finished.\<close>

definition job_finish :: "job_ptr \<Rightarrow> int \<Rightarrow> nat \<Rightarrow> rknpu_device \<Rightarrow> rknpu_device option" where
  "job_finish j ret i s =
    do { let s = dev_domain_put s;
         s \<leftarrow> upd_job j (\<lambda>J. J\<lparr>job_flags := job_flags J OR RKNPU_JOB_DONE, job_ret := ret\<rparr>) s;
         J \<leftarrow> jobs s j;
         s \<leftarrow> signal_fence (job_fence J) s;
         s \<leftarrow> (if has (job_flags J) RKNPU_JOB_ASYNC then schedule_work j s else Some s);
         Some (wake_up (if job_use_core_num J > 1 then 0 else i) s) }"

definition done_slot :: "job_env \<Rightarrow> job_ptr \<Rightarrow> nat \<Rightarrow> rknpu_device \<Rightarrow> rknpu_device option" where
  "done_slot env j i s =
    do { J \<leftarrow> jobs s j;
         let s = upd_subcore i (\<lambda>d. d\<lparr>subcore_job := None,
                   task_num := s64 (task_num d - rknpu_get_task_number (config s) J i),
                   busy_time := busy_time d + (je_now env - job_hw_recoder_time J)\<rparr>) s;
         upd_job j (\<lambda>J. J\<lparr>job_hw_elapse_time := je_now env - job_hw_commit_time J\<rparr>) s }"

definition done_count :: "job_ptr \<Rightarrow> int \<Rightarrow> nat \<Rightarrow> rknpu_device \<Rightarrow> rknpu_device option" where
  "done_count j ret i s =
    do { J \<leftarrow> jobs s j;
         let n = s32 (job_interrupt_count J - 1);
         s \<leftarrow> upd_job j (\<lambda>J. J\<lparr>job_interrupt_count := n\<rparr>) s;
         if n = 0 then job_finish j ret i s else Some s }"

text \<open>The number of chunks of a core, \<open>(task_number + max - 1) / max\<close> in C's arithmetic.\<close>

definition chunk_count :: "rknpu_config \<Rightarrow> rknpu_job \<Rightarrow> nat \<Rightarrow> int" where
  "chunk_count cfg J i = cdiv (s32 (rknpu_get_task_number cfg J i + max_submit cfg - 1)) (max_submit cfg)"

definition rknpu_job_done :: "job_env \<Rightarrow> job_ptr \<Rightarrow> int \<Rightarrow> nat \<Rightarrow> rknpu_device \<Rightarrow> rknpu_device option" where
  "rknpu_job_done env j ret i s =
    do { J \<leftarrow> jobs s j;
         let n = s32 (job_submit_count J i + 1);
         s \<leftarrow> upd_job j (\<lambda>J. J\<lparr>job_submit_count := (job_submit_count J)(i := n)\<rparr>) s;
         if n < chunk_count (config s) J i then map_option snd (rknpu_job_subcore_commit i j s)
         else do {
           s \<leftarrow> done_slot env j i s;
           s \<leftarrow> done_count j ret i s;
           rknpu_job_next env i s } }"

text \<open>
  \<open>rknpu_job_schedule\<close>: the automatic choice of a core, the section under the lock that queues the job
  on its cores, and the attempt to start it.
\<close>

definition schedule_auto :: "job_ptr \<Rightarrow> rknpu_device \<Rightarrow> rknpu_device option" where
  "schedule_auto j s =
    do { J \<leftarrow> jobs s j;
         if sub_core_mask (job_args J) = RKNPU_CORE_AUTO_MASK then
           upd_job j (\<lambda>J. J\<lparr>job_args := (job_args J)\<lparr>sub_core_mask := rknpu_core_mask (rknpu_schedule_core_index s)\<rparr>,
                             job_use_core_num := 1, job_run_count := 1, job_interrupt_count := 1\<rparr>) s
         else Some s }"

definition schedule_core :: "job_ptr \<Rightarrow> nat \<Rightarrow> rknpu_device \<Rightarrow> rknpu_device option" where
  "schedule_core j i s =
    do { s \<leftarrow> list_add_tail i j s;
         J \<leftarrow> jobs s j;
         Some (upd_subcore i (\<lambda>d. d\<lparr>task_num := s64 (task_num d + rknpu_get_task_number (config s) J i)\<rparr>) s) }"

definition schedule_enqueue :: "job_ptr \<Rightarrow> rknpu_device \<Rightarrow> rknpu_device option" where
  "schedule_enqueue j s =
    do { J \<leftarrow> jobs s j;
         for_each (mask_cores (cfg_num_irqs (config s)) (sub_core_mask (job_args J))) (schedule_core j) s }"

definition rknpu_job_schedule :: "job_env \<Rightarrow> job_ptr \<Rightarrow> rknpu_device \<Rightarrow> rknpu_device option" where
  "rknpu_job_schedule env j s =
    do { s \<leftarrow> schedule_auto j s;
         J \<leftarrow> jobs s j;
         let (ret, s) = dev_domain_get (je_iommu env) (job_iommu_domain_id J) s;
         if ret \<noteq> 0 then upd_job j (\<lambda>J. J\<lparr>job_ret := - EINVAL\<rparr>) s
         else do {
           s \<leftarrow> schedule_enqueue j s;
           for_each (mask_cores (cfg_num_irqs (config s)) (sub_core_mask (job_args J))) (rknpu_job_next env) s } }"

section \<open>Interrupts\<close>

definition fuzz_pair :: "u32 \<Rightarrow> u32 \<Rightarrow> u32" where
  "fuzz_pair m status = (if status AND m \<noteq> 0 then m else 0)"

definition rknpu_fuzz_status :: "u32 \<Rightarrow> u32" where
  "rknpu_fuzz_status status =
    fuzz_pair 0x3 status OR fuzz_pair 0xc status OR fuzz_pair 0x30 status OR fuzz_pair 0xc0 status OR
    fuzz_pair 0x300 status OR fuzz_pair 0xc00 status"

definition rknpu_irq_handler :: "job_env \<Rightarrow> nat \<Rightarrow> rknpu_device \<Rightarrow> rknpu_device option" where
  "rknpu_irq_handler env i s =
    (case subcore_job (subcore_datas s i) of
       None \<Rightarrow> rknpu_job_next env i (reg_write (Core i) RKNPU_OFFSET_INT_CLEAR RKNPU_INT_CLEAR s)
     | Some j \<Rightarrow> do {
         let status = je_read env i RKNPU_OFFSET_INT_STATUS;
         s \<leftarrow> upd_job j (\<lambda>J. J\<lparr>job_irq_entry := (job_irq_entry J)(i := True),
                                job_int_status := (job_int_status J)(i := status)\<rparr>) s;
         J \<leftarrow> jobs s j;
         let s = reg_write (Core i) RKNPU_OFFSET_INT_CLEAR RKNPU_INT_CLEAR s;
         if rknpu_fuzz_status status \<noteq> job_int_mask J i then Some s
         else rknpu_job_done env j 0 i s })"

text \<open>The three handlers registered for the cores' interrupt lines.\<close>

definition run_irq_handler :: "job_env \<Rightarrow> irq_handler_fn \<Rightarrow> rknpu_device \<Rightarrow> rknpu_device option" where
  "run_irq_handler env h s =
    (case h of
       rknpu_core0_irq_handler \<Rightarrow> rknpu_irq_handler env 0 s
     | rknpu_core1_irq_handler \<Rightarrow> rknpu_irq_handler env 1 s
     | rknpu_core2_irq_handler \<Rightarrow> rknpu_irq_handler env 2 s)"

section \<open>Waiting\<close>

text \<open>
  \<open>wait_event_timeout\<close> returns 0 when the condition is still false after the timeout, otherwise the
  jiffies that were left, at least 1.
\<close>

definition wait_result :: "job_env \<Rightarrow> nat \<Rightarrow> job_ptr \<Rightarrow> rknpu_device \<Rightarrow> int option" where
  "wait_result env k j s =
    do { J \<leftarrow> jobs s j;
         Some (if has (job_flags J) RKNPU_JOB_DONE \<or> soft_reseting (rst s)
               then max 1 (je_jiffies_left env k) else 0) }"

text \<open>
  The wait loop; \<open>k\<close> waits have been done. After the third one it ends, before that it continues while the
  wait timed out and the job was not committed or its time on the hardware is not over.
\<close>

function job_wait_loop :: "job_env \<Rightarrow> nat \<Rightarrow> job_ptr \<Rightarrow> rknpu_device \<Rightarrow> (int \<times> rknpu_device) option" where
  "job_wait_loop env k j s =
    do { s \<leftarrow> je_others env k s;
         ret \<leftarrow> wait_result env k j s;
         J \<leftarrow> jobs s j;
         let continue_wait =
               (job_hw_commit_time J = 0 \<or>
                us_delta (je_wait_now env k) (job_hw_commit_time J) < uint (sub_timeout (job_args J) * 1000));
         if k + 1 \<ge> 3 then Some (ret, s)
         else if ret = 0 \<and> continue_wait then job_wait_loop env (k + 1) j s
         else Some (ret, s) }"
  by pat_completeness auto
termination
  by (relation "measure (\<lambda>(env, k, j, s). 3 - k)") auto

text \<open>
  The clean-up of a job that was never committed: it is searched in the lists of the first
  \<open>use_core_num\<close> cores. The search reads every entry up to the job.
\<close>

definition wait_unlink :: "job_ptr \<Rightarrow> nat \<Rightarrow> rknpu_device \<Rightarrow> rknpu_device option" where
  "wait_unlink j i s =
    (let l = todo_list (subcore_datas s i) in
     if \<exists>x\<in>set (takeWhile (\<lambda>x. x \<noteq> j) l). jobs s x = None then None
     else if j \<in> set l then unlink_entry Node_Poison i j s
     else Some s)"

definition set_task_int_status :: "task_ptr \<Rightarrow> u32 \<Rightarrow> rknpu_device \<Rightarrow> rknpu_device option" where
  "set_task_int_status p st s =
    do { t \<leftarrow> task_at (fst p) (int (snd p)) s;
         upd_gem (fst p) (\<lambda>ob. ob\<lparr>obj_kv_tasks := (obj_kv_tasks ob)[snd p := t\<lparr>task_int_status := st\<rparr>]\<rparr>) s }"

definition rknpu_job_wait :: "job_env \<Rightarrow> job_ptr \<Rightarrow> rknpu_device \<Rightarrow> (int \<times> rknpu_device) option" where
  "rknpu_job_wait env j s =
    do { J \<leftarrow> jobs s j;
         let core_index = rknpu_wait_core_index (sub_core_mask (job_args J));
         (ret, s) \<leftarrow> job_wait_loop env 0 j s;
         J \<leftarrow> jobs s j;
         case job_last_task J of
           None \<Rightarrow> do {
             s \<leftarrow> for_each [0..<job_use_core_num J] (wait_unlink j) s;
             Some (if ret < 0 then ret else - EINVAL, s) }
         | Some last_task \<Rightarrow> do {
             s \<leftarrow> set_task_int_status last_task (job_int_status J core_index) s;
             let args = job_args J;
             if ret \<le> 0 then do {
               let counter = (if has (sub_flags args) RKNPU_JOB_PC
                              then je_read env core_index (cfg_pc_task_status_offset (config s)) AND
                                   cfg_pc_task_number_mask (config s) else 0);
               s \<leftarrow> upd_job j (\<lambda>J. J\<lparr>job_args := (job_args J)\<lparr>sub_task_counter := counter\<rparr>\<rparr>) s;
               Some (if ret < 0 then ret else - ETIMEDOUT, s) }
             else if \<not> has (job_flags J) RKNPU_JOB_DONE then Some (- EINVAL, s)
             else do {
               s \<leftarrow> upd_job j (\<lambda>J. J\<lparr>job_args := (job_args J)\<lparr>sub_task_counter := sub_task_number args,
                                       sub_hw_elapse_time := job_hw_elapse_time J\<rparr>\<rparr>) s;
               Some (0, s) } } }"

section \<open>Abort and clean-up after a timeout\<close>

definition abort_core :: "job_ptr \<Rightarrow> nat \<Rightarrow> rknpu_device \<Rightarrow> rknpu_device option" where
  "abort_core j i s =
    do { J \<leftarrow> jobs s j;
         if subcore_job (subcore_datas s i) = Some j \<and> \<not> job_irq_entry J i
         then Some (upd_subcore i (\<lambda>d. d\<lparr>subcore_job := None,
                task_num := s64 (task_num d - rknpu_get_task_number (config s) J i)\<rparr>) s)
         else Some s }"

definition rknpu_job_abort :: "job_env \<Rightarrow> job_ptr \<Rightarrow> rknpu_device \<Rightarrow> rknpu_device option" where
  "rknpu_job_abort env j s =
    do { let s = dev_domain_put s;
         J \<leftarrow> jobs s j;
         s \<leftarrow> for_each (mask_cores (cfg_num_irqs (config s)) (sub_core_mask (job_args J))) (abort_core j) s;
         s \<leftarrow> (if job_ret J = - ETIMEDOUT then map_option snd (rknpu_soft_reset (je_reset env) s) else Some s);
         rknpu_job_cleanup env j s }"

definition timeout_clear :: "job_ptr \<Rightarrow> nat \<Rightarrow> rknpu_device \<Rightarrow> rknpu_device option" where
  "timeout_clear j i s =
    do { let s = (if subcore_job (subcore_datas s i) = Some j
                  then upd_subcore i (\<lambda>d. d\<lparr>subcore_job := None\<rparr>) s else s);
         unlink_node i j s }"

text \<open>
  The loop that empties a queue; the fuel bounds its rounds by the length of the queue, of which every
  round removes one entry.
\<close>

fun timeout_drain :: "nat \<Rightarrow> nat \<Rightarrow> rknpu_device \<Rightarrow> rknpu_device option" where
  "timeout_drain n i s =
    (case todo_list (subcore_datas s i) of
       [] \<Rightarrow> Some s
     | j # _ \<Rightarrow>
         (case n of
            0 \<Rightarrow> None
          | Suc m \<Rightarrow> do {
              s \<leftarrow> for_each [0..<cfg_num_irqs (config s)] (\<lambda>c. unlink_node c j) s;
              s \<leftarrow> schedule_work j s;
              timeout_drain m i s }))"

definition timeout_core :: "job_env \<Rightarrow> nat \<Rightarrow> rknpu_device \<Rightarrow> rknpu_device option" where
  "timeout_core env i s =
    (case subcore_job (subcore_datas s i) of
       None \<Rightarrow> Some s
     | Some j \<Rightarrow> do {
         J \<leftarrow> jobs s j;
         if us_delta (je_now env) (job_timestamp J) < uint (sub_timeout (job_args J)) then Some s
         else do {
           (_, s) \<leftarrow> rknpu_soft_reset (je_reset env) s;
           s \<leftarrow> for_each [0..<cfg_num_irqs (config s)] (timeout_clear j) s;
           s \<leftarrow> schedule_work j s;
           timeout_drain (length (todo_list (subcore_datas s i))) i s } })"

definition rknpu_job_timeout_clean :: "job_env \<Rightarrow> u32 \<Rightarrow> rknpu_device \<Rightarrow> rknpu_device option" where
  "rknpu_job_timeout_clean env core_mask s =
    for_each (mask_cores (cfg_num_irqs (config s)) core_mask) (timeout_core env) s"

section \<open>Submission\<close>

text \<open>
  The handling of an in-fence: the result is 0, or the error after which the job is freed. The
  reference \<open>sync_file_get_fence\<close> takes is dropped again, whatever happened.
\<close>

definition fence_in :: "job_env \<Rightarrow> int" where
  "fence_in env =
    (case je_in_fence env of
       None \<Rightarrow> - EINVAL
     | Some (own, ret) \<Rightarrow> if own then 0 else if ret < 0 then ret else 0)"

definition submit_fences ::
    "job_env \<Rightarrow> job_ptr \<Rightarrow> rknpu_submit \<Rightarrow> rknpu_device \<Rightarrow> (int \<times> rknpu_submit \<times> rknpu_device) option" where
  "submit_fences env j args s =
    do { let e = (if has (sub_flags args) RKNPU_JOB_FENCE_IN then fence_in env else 0);
         if e \<noteq> 0 then Some (e, (if je_in_fence env = None then args else args\<lparr>sub_fence_fd := - 1\<rparr>), s)
         else do {
           let args = (if has (sub_flags args) RKNPU_JOB_FENCE_IN then args\<lparr>sub_fence_fd := - 1\<rparr> else args);
           if has (sub_flags args) RKNPU_JOB_FENCE_OUT then do {
             (ret, s) \<leftarrow> rknpu_fence_alloc (je_fence env) j s;
             if ret \<noteq> 0 then Some (ret, args, s)
             else do {
               (fd, s) \<leftarrow> rknpu_fence_get_fd (je_fence env) j s;
               s \<leftarrow> upd_job j (\<lambda>J. J\<lparr>job_args := (job_args J)\<lparr>sub_fence_fd := fd\<rparr>\<rparr>) s;
               Some (0, args\<lparr>sub_fence_fd := fd\<rparr>, s) } }
           else Some (0, args, s) } }"

definition submit_nonblock ::
    "job_env \<Rightarrow> job_ptr \<Rightarrow> rknpu_submit \<Rightarrow> rknpu_device \<Rightarrow> (int \<times> rknpu_submit \<times> rknpu_device) option" where
  "submit_nonblock env j args s =
    do { s \<leftarrow> upd_job j (\<lambda>J. J\<lparr>job_flags := job_flags J OR RKNPU_JOB_ASYNC\<rparr>) s;
         J \<leftarrow> jobs s j;
         s \<leftarrow> rknpu_job_timeout_clean env (sub_core_mask (job_args J)) s;
         s \<leftarrow> rknpu_job_schedule env j s;
         J \<leftarrow> jobs s j;
         if job_ret J \<noteq> 0 then do {
           s \<leftarrow> rknpu_job_abort env j s;
           Some (job_ret J, args, s) }
         else Some (0, args, s) }"

definition submit_block ::
    "job_env \<Rightarrow> job_ptr \<Rightarrow> rknpu_device \<Rightarrow> (int \<times> rknpu_submit \<times> rknpu_device) option" where
  "submit_block env j s =
    do { s \<leftarrow> rknpu_job_schedule env j s;
         J \<leftarrow> jobs s j;
         s \<leftarrow> (if has (sub_flags (job_args J)) RKNPU_JOB_PC then do {
                 (ret, s) \<leftarrow> rknpu_job_wait env j s;
                 upd_job j (\<lambda>J. J\<lparr>job_ret := ret\<rparr>) s }
               else Some s);
         J \<leftarrow> jobs s j;
         s \<leftarrow> (if job_ret J = 0 then rknpu_job_cleanup env j s else rknpu_job_abort env j s);
         Some (job_ret J, job_args J, s) }"

definition rknpu_submit_fn ::
    "job_env \<Rightarrow> rknpu_submit \<Rightarrow> rknpu_device \<Rightarrow> (int \<times> rknpu_submit \<times> rknpu_device) option" where
  "rknpu_submit_fn env args s =
    (if sub_task_number args = 0 then Some (- EINVAL, args, s)
     else if sub_core_mask args > cfg_core_mask (config s) then Some (- EINVAL, args, s)
     else do {
       (jo, s) \<leftarrow> rknpu_job_alloc env args s;
       case jo of
         None \<Rightarrow> Some (- ENOMEM, args, s)
       | Some j \<Rightarrow> do {
           (e, args, s) \<leftarrow> submit_fences env j args s;
           s \<leftarrow> (if has (sub_flags args) RKNPU_JOB_NONBLOCK then Some s
                 else upd_job j (\<lambda>J. J\<lparr>job_args := (job_args J)\<lparr>sub_fence_fd := sub_fence_fd args\<rparr>\<rparr>) s);
           if e \<noteq> 0 then do { s \<leftarrow> rknpu_job_free env j s; Some (e, args, s) }
           else if has (sub_flags args) RKNPU_JOB_NONBLOCK then submit_nonblock env j args s
           else submit_block env j s } })"

definition rknpu_submit_ioctl ::
    "job_env \<Rightarrow> rknpu_submit \<Rightarrow> rknpu_device \<Rightarrow> (int \<times> rknpu_submit \<times> rknpu_device) option" where
  "rknpu_submit_ioctl env args s = rknpu_submit_fn env args s"

end
