(* ===== verification/Rknpu_Dispatch.thy ===== *)
theory Rknpu_Dispatch
  imports Rknpu_Job
begin

text \<open>
  What \<open>rknpu_job.c\<close> computes for one core: masks and core numbers, the automatic choice of a core, the
  comparison of interrupt status words, and the division of a job's tasks into chunks that fit the
  task-number field of the program controller.
\<close>

section \<open>Masks\<close>

lemma mask_cases:
  assumes "(m :: u32) \<le> 7"
  obtains "m = 0" | "m = 1" | "m = 2" | "m = 3" | "m = 4" | "m = 5" | "m = 6" | "m = 7"
proof -
  have "unat m \<le> 7" using assms by (simp add: word_le_nat_alt)
  then have "unat m \<in> {0, 1, 2, 3, 4, 5, 6, 7}" by auto
  then have "m = 0 \<or> m = 1 \<or> m = 2 \<or> m = 3 \<or> m = 4 \<or> m = 5 \<or> m = 6 \<or> m = 7"
    by (auto simp: word_unat_eq_iff)
  then show thesis using that by blast
qed

lemma mask_cores_simps [simp]:
  "mask_cores 3 0 = []" "mask_cores 3 1 = [0]" "mask_cores 3 2 = [1]" "mask_cores 3 3 = [0, 1]"
  "mask_cores 3 4 = [2]" "mask_cores 3 5 = [0, 2]" "mask_cores 3 6 = [1, 2]" "mask_cores 3 7 = [0, 1, 2]"
  by (simp_all add: mask_cores_def rknpu_core_mask_def upt_rec)

lemma commit_starts_mask_count: "m \<le> 7 \<Longrightarrow> mask_core_count m = length (mask_cores 3 m)"
  by (cases rule: mask_cases) (auto simp: mask_core_count_def)

section \<open>Interrupt status words\<close>

lemma fuzz_pair_bit:
  assumes "n + 1 < 32"
  shows "bit (fuzz_pair (push_bit n 3) st) k \<longleftrightarrow> (k = n \<or> k = n + 1) \<and> (bit st n \<or> bit st (n + 1))"
proof -
  have three: "bit (3 :: u32) m \<longleftrightarrow> m = 0 \<or> m = 1" for m
    by (cases m) (auto simp: bit_numeral_rec bit_1_iff split: nat.splits)
  have p: "bit (push_bit n (3 :: u32)) m \<longleftrightarrow> m = n \<or> m = n + 1" for m
  proof -
    have "m - n = 0 \<or> m - n = 1 \<longleftrightarrow> m = n \<or> m = n + 1" if "n \<le> m" using that by auto
    then show ?thesis using assms unfolding bit_push_bit_iff three by auto
  qed
  have "st AND push_bit n 3 \<noteq> 0 \<longleftrightarrow> bit st n \<or> bit st (n + 1)"
    using bit_imp_le_length [of st] by (subst bit_eq_iff) (auto simp: bit_and_iff p)
  then show ?thesis by (auto simp: fuzz_pair_def p)
qed

lemma fuzz_status_bit:
  "bit (rknpu_fuzz_status st) k \<longleftrightarrow> k < 12 \<and> (bit st (2 * (k div 2)) \<or> bit st (2 * (k div 2) + 1))"
proof -
  have "rknpu_fuzz_status st =
      fuzz_pair (push_bit 0 3) st OR fuzz_pair (push_bit 2 3) st OR fuzz_pair (push_bit 4 3) st OR
      fuzz_pair (push_bit 6 3) st OR fuzz_pair (push_bit 8 3) st OR fuzz_pair (push_bit 10 3) st"
    by (simp add: rknpu_fuzz_status_def)
  then have st: "bit (rknpu_fuzz_status st) k \<longleftrightarrow>
      (\<exists>n\<in>{0, 2, 4, 6, 8, 10}. (k = n \<or> k = n + 1) \<and> (bit st n \<or> bit st (n + 1)))"
    by (simp only: bit_or_iff fuzz_pair_bit) simp
  show ?thesis
  proof (cases "k < 12")
    case True
    then have "k \<in> {0, 1, 2, 3, 4, 5, 6, 7, 8, 9, 10, 11}" by (simp, presburger)
    then show ?thesis unfolding st by (elim insertE emptyE) simp_all
  next
    case False
    then show ?thesis unfolding st by auto
  qed
qed

section \<open>Choosing the least loaded core\<close>

lemma fold_argmin:
  fixes f :: "nat \<Rightarrow> int"
  assumes "fold (\<lambda>i (c, m). if m > f i then (i, f i) else (c, m)) [1..<n] (0, f 0) = (c, m)"
  shows "m = f c \<and> c < max 1 n \<and> (\<forall>k<max 1 n. f c \<le> f k) \<and> (\<forall>k<c. f c < f k)"
  using assms
proof (induction n arbitrary: c m)
  case (Suc n)
  show ?case
  proof (cases "n = 0")
    case False
    obtain c' m' where IH: "fold (\<lambda>i (c, m). if m > f i then (i, f i) else (c, m)) [1..<n] (0, f 0) = (c', m')"
      by fastforce
    from False have "[1..<Suc n] = [1..<n] @ [n]" by simp
    with Suc.prems IH have "(if m' > f n then (n, f n) else (c', m')) = (c, m)" by simp
    with Suc.IH [OF IH] False show ?thesis
      by (fastforce simp: less_Suc_eq max_def split: if_splits)
  qed (use Suc in simp)
qed simp

lemma fold_argmin_less:
  "fst (fold (\<lambda>i (c, m). if m > f i then (i, g i) else (c, m :: int)) [1..<n] (0, m0)) < max 1 n"
proof (induction n)
  case (Suc n)
  then show ?case by (cases "n = 0") (auto simp: max_def split: prod.splits if_splits)
qed simp

lemma schedule_core_index_less:
  "1 \<le> cfg_num_irqs (config s) \<Longrightarrow> rknpu_schedule_core_index s < cfg_num_irqs (config s)"
  using fold_argmin_less [of "\<lambda>i. task_num (subcore_datas s i)" "\<lambda>i. s32 (task_num (subcore_datas s i))"
      "cfg_num_irqs (config s)"]
  by (simp add: rknpu_schedule_core_index_def max_def)

section \<open>Chunks\<close>

text \<open>A core's range of tasks the arithmetic of \<open>int\<close> can express.\<close>

definition range_ok :: "int \<Rightarrow> int \<times> int \<Rightarrow> bool" where
  "range_ok m r \<longleftrightarrow> 0 < m \<and> m < 2 ^ 16 \<and> 0 \<le> fst r \<and> 0 < snd r \<and> fst r + snd r < 2 ^ 31 - 2 ^ 16"

text \<open>The tasks of chunk \<open>k\<close>.\<close>

definition chunk_tasks :: "int \<Rightarrow> int \<times> int \<Rightarrow> int \<Rightarrow> int list" where
  "chunk_tasks m r k = (let (a, n) = chunk m r k in [a..a + n - 1])"

definition chunks_needed :: "int \<Rightarrow> int \<times> int \<Rightarrow> int" where
  "chunks_needed m r = (snd r + m - 1) div m"

lemma chunk_in_range:
  assumes "range_ok m r" and "0 \<le> k" and "k < chunks_needed m r"
  shows "chunk m r k = (fst r + k * m, min m (snd r - k * m))" and "0 < snd r - k * m"
proof -
  have km: "k * m < snd r"
    using assms ceil_div_less_iff [of m k "snd r"] by (simp add: range_ok_def chunks_needed_def)
  then show "0 < snd r - k * m" by simp
  have "0 \<le> k * m" using assms by (simp add: range_ok_def)
  with km assms(1) show "chunk m r k = (fst r + k * m, min m (snd r - k * m))"
    by (simp add: chunk_def range_ok_def cint_simps min_def Let_def)
qed

lemma chunk_tasks_prefix:
  assumes "range_ok m r" and "int n \<le> chunks_needed m r"
  shows "concat (map (\<lambda>k. chunk_tasks m r (int k)) [0..<n]) = [fst r..fst r + min (int n * m) (snd r) - 1]"
  using assms(2)
proof (induction n)
  case 0
  then show ?case using assms(1) by (simp add: range_ok_def)
next
  case (Suc n)
  let ?a = "fst r + int n * m"
  have n: "int n < chunks_needed m r" using Suc.prems by simp
  note c = chunk_in_range [OF assms(1) _ n]
  have lt: "int n * m < snd r" using c(2) by simp
  have m: "0 < m" "0 \<le> int n * m" using assms(1) by (simp_all add: range_ok_def)
  have "chunk_tasks m r (int n) = [?a..?a + min m (snd r - int n * m) - 1]"
    by (simp add: chunk_tasks_def c)
  moreover have "?a + min m (snd r - int n * m) - 1 = fst r + min (int (Suc n) * m) (snd r) - 1"
    by (simp add: min_def algebra_simps)
  moreover have "[fst r..?a - 1] @ [?a..fst r + min (int (Suc n) * m) (snd r) - 1] =
      [fst r..fst r + min (int (Suc n) * m) (snd r) - 1]"
    using upto_split1 [of "fst r" ?a "fst r + min (int (Suc n) * m) (snd r) - 1"] lt m
    by (simp add: min_def algebra_simps)
  ultimately show ?case using Suc lt by simp
qed

lemma chunks_needed_covers:
  assumes "range_ok m r"
  shows "snd r \<le> chunks_needed m r * m"
  using assms ceil_div_less_iff [of m "chunks_needed m r" "snd r"]
  by (simp add: range_ok_def chunks_needed_def not_less)

lemma task_number_range:
  "i < RKNPU_MAX_CORES \<Longrightarrow> rknpu_get_task_number cfg J i = snd (subcore_range cfg J i)"
  by (simp add: rknpu_get_task_number_def subcore_range_def Let_def)

lemma config_ok_max:
  "config_ok cfg \<Longrightarrow> 0 < max_submit cfg \<and> max_submit cfg < 2 ^ 16 \<and>
     max_submit cfg = mask (cfg_pc_task_number_bits cfg)"
  using config_ok_max_submit [of cfg]
  by (simp add: max_submit_def cint_simps) (simp add: config_ok_def uint_mask_eq)

lemma chunk_count_needed:
  assumes "config_ok cfg" and "i < RKNPU_MAX_CORES" and "range_ok (max_submit cfg) (subcore_range cfg J i)"
  shows "chunk_count cfg J i = chunks_needed (max_submit cfg) (subcore_range cfg J i)"
  using assms config_ok_max [OF assms(1)]
  by (simp add: chunk_count_def chunks_needed_def task_number_range range_ok_def cint_simps)

lemma task_control_fields:
  fixes n :: int and b :: nat and h :: u32
  assumes "0 \<le> n" and "n \<le> mask b" and "b \<le> 16" and "h \<le> 7"
  shows "(push_bit b h OR word_of_int n) AND mask b = (word_of_int n :: u32)"
    and "drop_bit b (push_bit b h OR word_of_int n :: u32) = h"
proof -
  have n: "\<not> bit n k" if "b \<le> k" for k
    using assms(1,2) that by (simp add: bit_iff_odd mask_eq_exp_minus_1)
      (metis div_pos_pos_trivial even_zero order.strict_trans2 power_increasing
        one_le_numeral)
  have "h = h AND mask 3" using assms(4) by (cases rule: mask_cases) (simp_all add: mask_eq_exp_minus_1)
  then have h: "\<not> bit h k" if "3 \<le> k" for k
    using that by (metis bit_and_iff bit_mask_iff not_le)
  show "(push_bit b h OR word_of_int n) AND mask b = (word_of_int n :: u32)"
    by (rule bit_eqI) (use n in \<open>auto simp: bit_simps linorder_not_less [symmetric]\<close>)
  show "drop_bit b (push_bit b h OR word_of_int n :: u32) = h"
    proof (rule bit_eqI)
    fix k assume "possible_bit TYPE(u32) k"
    moreover have "b + k < 32" if "bit h k" using h [of k] that assms(3) by (cases "3 \<le> k") simp_all
    ultimately show "bit (drop_bit b (push_bit b h OR word_of_int n :: u32)) k = bit h k"
      using n [of "b + k"] by (auto simp: bit_simps)
  qed
qed

text \<open>The register writes of a successful commit, and what it changes besides.\<close>

lemma commit_pc_result:
  assumes "rknpu_job_subcore_commit_pc i j s = Some (0, t)" and "jobs s j = Some J"
    and "chunk (max_submit (config s)) (subcore_range (config s) J i) (job_submit_count J i) = (a, n)"
  obtains pre f l where
    "mmio t = mmio s @ pre @ [(Core i, RKNPU_OFFSET_PC_TASK_CONTROL,
        push_bit (cfg_pc_task_number_bits (config s))
          (0x6 OR (if has (sub_flags (job_args J)) RKNPU_JOB_PINGPONG then 1 else 0)) OR word_of_int n),
      (Core i, RKNPU_OFFSET_PC_DMA_BASE_ADDR, ucast (sub_task_base_addr (job_args J))),
      (Core i, RKNPU_OFFSET_PC_OP_EN, 1), (Core i, RKNPU_OFFSET_PC_OP_EN, 0)]"
    "task_at (sub_task_obj_addr (job_args J)) a s = Some f"
    "task_at (sub_task_obj_addr (job_args J)) (s32 (a + n - 1)) s = Some l"
    "jobs t = (jobs s)(j \<mapsto> J\<lparr>job_first_task := Some (sub_task_obj_addr (job_args J), nat a),
        job_last_task := Some (sub_task_obj_addr (job_args J), nat (s32 (a + n - 1))),
        job_int_mask := (job_int_mask J)(i := task_int_mask l)\<rparr>)"
proof -
  have rw: "task_at x y (reg_write r off v u) = task_at x y u" for x y r off v u
    by (simp add: task_at_def)
  define pp :: u32 where "pp = (if has (sub_flags (job_args J)) RKNPU_JOB_PINGPONG then 1 else 0)"
  define u where "u = (if cfg_num_irqs (config s) > 1 \<and> i < cfg_num_irqs (config s)
                    then reg_write (Core i) 0x3004 (0xe + 0x10000000 * of_nat i)
                           (reg_write (Core i) 0x1004 (0xe + 0x10000000 * of_nat i) s)
                    else s)"
  have u: "jobs u = jobs s" "task_at x y u = task_at x y s" for x y
    by (simp_all add: u_def rw)
  have "\<exists>pre. mmio u = mmio s @ pre" by (simp add: u_def)
  then obtain pre where pre: "mmio u = mmio s @ pre" by blast
  from assms obtain f l where nz: "sub_task_obj_addr (job_args J) \<noteq> 0"
    and f: "task_at (sub_task_obj_addr (job_args J)) a s = Some f"
    and l: "task_at (sub_task_obj_addr (job_args J)) (s32 (a + n - 1)) s = Some l"
    unfolding rknpu_job_subcore_commit_pc_def Let_def u_def [symmetric] pp_def [symmetric]
    by (auto simp: bind_eq_Some_conv u split: if_splits)
  show thesis
  proof (rule that [OF _ f l])
    show "mmio t = mmio s @ (pre @
      [(Core i, RKNPU_OFFSET_PC_DATA_ADDR, ucast (task_regcmd_addr f)),
       (Core i, RKNPU_OFFSET_PC_DATA_AMOUNT, (task_regcfg_amount f + RKNPU_PC_DATA_EXTRA_AMOUNT +
          cfg_pc_data_amount_scale (config s) - 1) div cfg_pc_data_amount_scale (config s) - 1),
       (Core i, RKNPU_OFFSET_INT_MASK, task_int_mask l), (Core i, RKNPU_OFFSET_INT_CLEAR, task_int_mask f)]) @
      [(Core i, RKNPU_OFFSET_PC_TASK_CONTROL,
        push_bit (cfg_pc_task_number_bits (config s))
          (0x6 OR (if has (sub_flags (job_args J)) RKNPU_JOB_PINGPONG then 1 else 0)) OR word_of_int n),
      (Core i, RKNPU_OFFSET_PC_DMA_BASE_ADDR, ucast (sub_task_base_addr (job_args J))),
      (Core i, RKNPU_OFFSET_PC_OP_EN, 1), (Core i, RKNPU_OFFSET_PC_OP_EN, 0)]"
      using assms
      unfolding rknpu_job_subcore_commit_pc_def Let_def u_def [symmetric] pp_def [symmetric]
      by (auto simp: nz u f l upd_job_def pre pp_def)
    show "jobs t = (jobs s)(j \<mapsto> J\<lparr>job_first_task := Some (sub_task_obj_addr (job_args J), nat a),
        job_last_task := Some (sub_task_obj_addr (job_args J), nat (s32 (a + n - 1))),
        job_int_mask := (job_int_mask J)(i := task_int_mask l)\<rparr>)"
      using assms
      unfolding rknpu_job_subcore_commit_pc_def Let_def u_def [symmetric] pp_def [symmetric]
      by (auto simp: nz u f l upd_job_def)
  qed
qed

section \<open>Properties\<close>

text \<open>
  C12: the driver sends every task of a core to the hardware exactly once and in order. The chunks it
  commits one after the other, as many as \<open>rknpu_job_done\<close> counts, are non-empty, have at most
  \<open>max_submit_number\<close> tasks each, and concatenated they are the tasks of the core.
\<close>

theorem chunks_cover_tasks:
  assumes "config_ok cfg" and "i < RKNPU_MAX_CORES" and "range_ok (max_submit cfg) (subcore_range cfg J i)"
  shows "concat (map (\<lambda>k. chunk_tasks (max_submit cfg) (subcore_range cfg J i) (int k))
           [0..<nat (chunk_count cfg J i)]) =
         [fst (subcore_range cfg J i)..fst (subcore_range cfg J i) + rknpu_get_task_number cfg J i - 1] \<and>
         (\<forall>k. 0 \<le> k \<and> k < chunk_count cfg J i \<longrightarrow>
            0 < snd (chunk (max_submit cfg) (subcore_range cfg J i) k) \<and>
            snd (chunk (max_submit cfg) (subcore_range cfg J i) k) \<le> max_submit cfg)"
proof -
  let ?m = "max_submit cfg" and ?r = "subcore_range cfg J i"
  note cc = chunk_count_needed [OF assms]
  have "0 \<le> chunks_needed ?m ?r" using assms(3) by (simp add: chunks_needed_def range_ok_def pos_imp_zdiv_nonneg_iff)
  with chunk_tasks_prefix [OF assms(3), of "nat (chunks_needed ?m ?r)"] chunks_needed_covers [OF assms(3)]
  show ?thesis
    using chunk_in_range [OF assms(3)] assms(3)
    by (auto simp: cc task_number_range [OF assms(2)] min_def range_ok_def)
qed

definition big_job :: rknpu_job where
  "big_job = new_job 0 \<lparr>sub_flags = RKNPU_JOB_PC, sub_timeout = 6000, sub_task_start = 0, sub_task_number = 10000,
     sub_task_counter = 0, sub_priority = 0, sub_task_obj_addr = 0x1000, sub_iommu_domain_id = 0, sub_reserved = 0,
     sub_task_base_addr = 0, sub_hw_elapse_time = 0, sub_core_mask = 1, sub_fence_fd = - 1,
     sub_subcore_task = (\<lambda>i. \<lparr>st_task_start = 5, st_task_number = 10000\<rparr>)\<rparr>"

lemma big_job_range: "subcore_range rk3588_rknpu_config big_job 0 = (5, 10000)"
  by (simp add: big_job_def new_job_def subcore_range_def mask_core_count_def rk3588_rknpu_config_def s32_def)

theorem chunks_cover_tasks_witness:
  "chunk_count rk3588_rknpu_config big_job 0 = 3 \<and>
   concat (map (\<lambda>k. chunk_tasks 4095 (5, 10000) (int k)) [0..<3]) = [5..5 + 10000 - 1]"
proof -
  have m: "max_submit rk3588_rknpu_config = 4095"
    by (simp add: max_submit_def rk3588_rknpu_config_def s32_def)
  have r: "range_ok 4095 (5, 10000)" by (simp add: range_ok_def)
  have ok: "config_ok rk3588_rknpu_config" using soc_configs_ok by simp
  have n: "rknpu_get_task_number rk3588_rknpu_config big_job 0 = 10000"
    by (simp add: task_number_range big_job_range)
  have cc: "chunk_count rk3588_rknpu_config big_job 0 = 3"
    by (simp add: chunk_count_def n m s32_def cdiv_def)
  have "range_ok (max_submit rk3588_rknpu_config) (subcore_range rk3588_rknpu_config big_job 0)"
    unfolding m big_job_range by (rule r)
  from chunks_cover_tasks [OF ok zero_less_numeral this] cc show ?thesis
    unfolding m big_job_range n cc fst_conv nat_numeral by blast
qed


text \<open>
  A device with one task buffer at address \<open>0x1000\<close> whose tasks all raise interrupt mask \<open>0x300\<close>; the
  witnesses submit jobs over it.
\<close>

definition sample_task :: rknpu_task where
  "sample_task = \<lparr>task_flags = 0, task_op_idx = 0, task_enable_mask = 0, task_int_mask = 0x300,
     task_int_clear = 0x1ffff, task_int_status = 0, task_regcfg_amount = 10, task_regcfg_offset = 0,
     task_regcmd_addr = 0xf0000000\<rparr>"

definition task_device :: rknpu_device where
  "task_device = sample_device\<lparr>gem_objs := [0x1000 \<mapsto> zero_gem_object\<lparr>obj_refcount := 1, obj_kv_addr := 0x9000,
     obj_kv_tasks := replicate 16 sample_task\<rparr>]\<rparr>"

definition small_args :: "u32 \<Rightarrow> u32 \<Rightarrow> rknpu_submit" where
  "small_args flags core_mask =
    \<lparr>sub_flags = flags, sub_timeout = 6000, sub_task_start = 0, sub_task_number = 8,
     sub_task_counter = 0, sub_priority = 0, sub_task_obj_addr = 0x1000, sub_iommu_domain_id = 0, sub_reserved = 0,
     sub_task_base_addr = 0, sub_hw_elapse_time = 0, sub_core_mask = core_mask, sub_fence_fd = - 1,
     sub_subcore_task = (\<lambda>i. \<lparr>st_task_start = 2, st_task_number = 8\<rparr>)\<rparr>"


text \<open>
  C30: the masks accepted by a submission and the cores that are started. For every mask the entry check
  admits on a three-core device, the number of cores counted for the job is the number of queues it
  joins; a single-core mask leads back to its core; and the cores a commit starts are the cores of the
  mask, except for the masks 5 and 6, for which no core is started at all.
\<close>

theorem commit_starts_mask:
  assumes "m \<le> 7"
  shows "mask_core_count m = length (mask_cores 3 m) \<and>
         (commit_cores m = mask_cores 3 m \<longleftrightarrow> m \<noteq> 5 \<and> m \<noteq> 6) \<and>
         (m = 5 \<or> m = 6 \<longrightarrow> commit_cores m = []) \<and>
         (\<forall>i<3. m = rknpu_core_mask i \<longrightarrow> mask_cores 3 m = [i] \<and> rknpu_wait_core_index m = i)"
proof -
  have i: "i < 3 \<longleftrightarrow> i = 0 \<or> i = 1 \<or> i = 2" for i :: nat by auto
  from assms show ?thesis
    by (cases rule: mask_cases)
       (auto simp: i commit_cores_def mask_core_count_def rknpu_core_mask_def rknpu_wait_core_index_def)
qed

theorem commit_starts_mask_witness:
  "commit_cores 5 = [] \<and> mask_cores 3 5 = [0, 2] \<and> mask_core_count 5 = 2"
  using commit_starts_mask [of 5] by simp

text \<open>
  The automatic choice of a core. While the cores' numbers of tasks fit into an \<open>int\<close>, it returns the first
  of the device's cores with the smallest number of queued tasks.
\<close>

lemma schedule_core_least_loaded:
  assumes "1 \<le> cfg_num_irqs (config s)"
    and "\<And>k. k < cfg_num_irqs (config s) \<Longrightarrow> - (2 ^ 31) \<le> task_num (subcore_datas s k)"
    and "\<And>k. k < cfg_num_irqs (config s) \<Longrightarrow> task_num (subcore_datas s k) < 2 ^ 31"
  shows "rknpu_schedule_core_index s < cfg_num_irqs (config s) \<and>
         (\<forall>k<cfg_num_irqs (config s).
            task_num (subcore_datas s (rknpu_schedule_core_index s)) \<le> task_num (subcore_datas s k)) \<and>
         (\<forall>k<rknpu_schedule_core_index s.
            task_num (subcore_datas s (rknpu_schedule_core_index s)) < task_num (subcore_datas s k))"
proof -
  have s: "s32 (task_num (subcore_datas s k)) = task_num (subcore_datas s k)" if "k < cfg_num_irqs (config s)" for k
    using assms(2,3) [OF that] by (simp add: s32_id)
  have "fold (\<lambda>i (c, n). if n > task_num (subcore_datas s i) then (i, s32 (task_num (subcore_datas s i))) else (c, n))
          [1..<cfg_num_irqs (config s)] (0, s32 (task_num (subcore_datas s 0))) =
        fold (\<lambda>i (c, n). if n > task_num (subcore_datas s i) then (i, task_num (subcore_datas s i)) else (c, n))
          [1..<cfg_num_irqs (config s)] (0, task_num (subcore_datas s 0))"
    using assms(1) by (intro fold_cong) (auto simp: s)
  then show ?thesis
    using fold_argmin [where f = "\<lambda>i. task_num (subcore_datas s i)" and n = "cfg_num_irqs (config s)",
        OF surjective_pairing] assms(1)
    by (simp add: rknpu_schedule_core_index_def max_def)
qed

text \<open>
  The interrupt status is compared in pairs of bits. Bit \<open>k\<close> of the fuzzy status is set exactly when
  \<open>k\<close> is below 12 and one of the two bits of its pair is set in the status word; taking the fuzzy
  status twice changes nothing.
\<close>

lemma fuzz_status_pairs:
  "(bit (rknpu_fuzz_status st) k \<longleftrightarrow> k < 12 \<and> (bit st (2 * (k div 2)) \<or> bit st (2 * (k div 2) + 1))) \<and>
   rknpu_fuzz_status (rknpu_fuzz_status st) = rknpu_fuzz_status st"
proof (intro conjI bit_eqI)
  show pairs: "bit (rknpu_fuzz_status st) k \<longleftrightarrow>
      k < 12 \<and> (bit st (2 * (k div 2)) \<or> bit st (2 * (k div 2) + 1))" for st k
    by (rule fuzz_status_bit)
  fix n
  show "bit (rknpu_fuzz_status (rknpu_fuzz_status st)) n = bit (rknpu_fuzz_status st) n"
    using mult_div_mod_eq [of 2 n] by (auto simp: pairs) presburger+
qed

end
