(* ===== verification/Rknpu_Sched.thy ===== *)
theory Rknpu_Sched
  imports Rknpu_Dispatch "HOL-Library.Sublist"
begin

text \<open>
  The scheduler as a state machine. \<open>sched_view\<close> is what the scheduler's promises are about: the running
  job and the queue of each core, the task counts, and the counters of the jobs. Each operation of
  \<open>rknpu_job.c\<close> that touches the queues refines an operation on this view; the invariant, the order of
  execution and the absence of deadlock are proved on the view.

  The events are the atomic sections other contexts can interleave: queueing a job (under the lock),
  an attempt to start the next job of a core, an interrupt, and the deferred clean-up of a finished job.
\<close>

section \<open>The view\<close>

record job_view =
  jv_args :: rknpu_submit
  jv_cores :: nat
  jv_run :: int
  jv_int :: int
  jv_work :: bool
  jv_flags :: u32
  jv_fence :: "fence_ptr option"

record sched_view =
  sv_cfg :: rknpu_config
  sv_stalled :: bool
  sv_running :: "nat \<Rightarrow> job_ptr option"
  sv_todo :: "nat \<Rightarrow> job_ptr list"
  sv_tasks :: "nat \<Rightarrow> int"
  sv_jobs :: "job_ptr \<rightharpoonup> job_view"
  sv_works :: "job_ptr list"

definition view_job :: "rknpu_job \<Rightarrow> job_view" where
  "view_job J = \<lparr>jv_args = job_args J, jv_cores = job_use_core_num J, jv_run = job_run_count J,
     jv_int = job_interrupt_count J, jv_work = job_cleanup_work J, jv_flags = job_flags J,
     jv_fence = job_fence J\<rparr>"

definition view :: "rknpu_device \<Rightarrow> sched_view" where
  "view s = \<lparr>sv_cfg = config s, sv_stalled = soft_reseting (rst s),
     sv_running = (\<lambda>i. subcore_job (subcore_datas s i)), sv_todo = (\<lambda>i. todo_list (subcore_datas s i)),
     sv_tasks = (\<lambda>i. task_num (subcore_datas s i)), sv_jobs = (\<lambda>j. map_option view_job (jobs s j)),
     sv_works = cleanup_works s\<rparr>"

text \<open>\<open>rknpu_get_task_number\<close> on the view.\<close>

definition view_task_number :: "rknpu_config \<Rightarrow> job_view \<Rightarrow> nat \<Rightarrow> int" where
  "view_task_number cfg V i =
    (if i \<ge> RKNPU_MAX_CORES then 0
     else s32 (uint (if cfg_num_irqs cfg > 1
            then if jv_cores V = 1 \<or> jv_cores V = 2 then st_task_number (sub_subcore_task (jv_args V) i)
                 else if jv_cores V = 3 then st_task_number (sub_subcore_task (jv_args V) (i + 2))
                 else sub_task_number (jv_args V)
            else sub_task_number (jv_args V))))"

definition queue :: "sched_view \<Rightarrow> nat \<Rightarrow> job_ptr list" where
  "queue v i = (case sv_running v i of None \<Rightarrow> [] | Some j \<Rightarrow> [j]) @ sv_todo v i"

section \<open>Abstract operations\<close>

definition upd_view_job :: "job_ptr \<Rightarrow> (job_view \<Rightarrow> job_view) \<Rightarrow> sched_view \<Rightarrow> sched_view" where
  "upd_view_job j f v = v\<lparr>sv_jobs := (sv_jobs v)(j := map_option f (sv_jobs v j))\<rparr>"

definition a_next :: "nat \<Rightarrow> sched_view \<Rightarrow> sched_view" where
  "a_next i v =
    (if sv_stalled v then v
     else case (sv_running v i, sv_todo v i) of
            (None, j # js) \<Rightarrow>
              upd_view_job j (\<lambda>V. V\<lparr>jv_run := s32 (jv_run V - 1)\<rparr>)
                (v\<lparr>sv_running := (sv_running v)(i := Some j), sv_todo := (sv_todo v)(i := js)\<rparr>)
          | _ \<Rightarrow> v)"

definition a_finish :: "job_ptr \<Rightarrow> sched_view \<Rightarrow> sched_view" where
  "a_finish j v =
    (case sv_jobs v j of
       None \<Rightarrow> v
     | Some V \<Rightarrow>
         let v = upd_view_job j (\<lambda>V. V\<lparr>jv_flags := jv_flags V OR RKNPU_JOB_DONE\<rparr>) v
         in if has (jv_flags V OR RKNPU_JOB_DONE) RKNPU_JOB_ASYNC \<and> j \<notin> set (sv_works v)
            then v\<lparr>sv_works := sv_works v @ [j]\<rparr> else v)"

definition a_release :: "nat \<Rightarrow> job_ptr \<Rightarrow> sched_view \<Rightarrow> sched_view" where
  "a_release i j v =
    (case sv_jobs v j of
       None \<Rightarrow> v
     | Some V \<Rightarrow>
         v\<lparr>sv_running := (sv_running v)(i := None),
           sv_tasks := (sv_tasks v)(i := s64 (sv_tasks v i - view_task_number (sv_cfg v) V i))\<rparr>)"

definition a_count :: "job_ptr \<Rightarrow> sched_view \<Rightarrow> sched_view" where
  "a_count j v =
    (case sv_jobs v j of
       None \<Rightarrow> v
     | Some V \<Rightarrow>
         let v = upd_view_job j (\<lambda>V. V\<lparr>jv_int := s32 (jv_int V - 1)\<rparr>) v
         in if s32 (jv_int V - 1) = 0 then a_finish j v else v)"

definition a_complete :: "nat \<Rightarrow> job_ptr \<Rightarrow> sched_view \<Rightarrow> sched_view" where
  "a_complete i j v = a_next i (a_count j (a_release i j v))"

definition a_add :: "job_ptr \<Rightarrow> nat \<Rightarrow> sched_view \<Rightarrow> sched_view" where
  "a_add j i v =
    (case sv_jobs v j of
       None \<Rightarrow> v
     | Some V \<Rightarrow>
         v\<lparr>sv_todo := (sv_todo v)(i := sv_todo v i @ [j]),
           sv_tasks := (sv_tasks v)(i := s64 (sv_tasks v i + view_task_number (sv_cfg v) V i))\<rparr>)"

definition view_cores :: "sched_view \<Rightarrow> job_view \<Rightarrow> nat list" where
  "view_cores v V = mask_cores (cfg_num_irqs (sv_cfg v)) (sub_core_mask (jv_args V))"

definition a_enqueue :: "job_ptr \<Rightarrow> sched_view \<Rightarrow> sched_view" where
  "a_enqueue j v =
    (case sv_jobs v j of None \<Rightarrow> v | Some V \<Rightarrow> fold (a_add j) (view_cores v V) v)"

definition a_cleanup :: "job_ptr \<Rightarrow> sched_view \<Rightarrow> sched_view" where
  "a_cleanup j v = v\<lparr>sv_jobs := (sv_jobs v)(j := None), sv_works := remove1 j (sv_works v)\<rparr>"

section \<open>Refinement\<close>

lemma view_task_number_eq [simp]: "view_task_number cfg (view_job J) i = rknpu_get_task_number cfg J i"
  by (simp add: view_task_number_def view_job_def rknpu_get_task_number_def)

lemma view_sel [simp]:
  "sv_cfg (view s) = config s" "sv_stalled (view s) = soft_reseting (rst s)"
  "sv_running (view s) i = subcore_job (subcore_datas s i)" "sv_todo (view s) i = todo_list (subcore_datas s i)"
  "sv_tasks (view s) i = task_num (subcore_datas s i)" "sv_jobs (view s) j = map_option view_job (jobs s j)"
  "sv_works (view s) = cleanup_works s"
  by (simp_all add: view_def)

lemma view_job_sel [simp]:
  "jv_args (view_job J) = job_args J" "jv_cores (view_job J) = job_use_core_num J"
  "jv_run (view_job J) = job_run_count J" "jv_int (view_job J) = job_interrupt_count J"
  "jv_work (view_job J) = job_cleanup_work J" "jv_flags (view_job J) = job_flags J"
  "jv_fence (view_job J) = job_fence J"
  by (simp_all add: view_job_def)

lemma view_job_upd [simp]:
  "view_job (J\<lparr>job_head := a\<rparr>) = view_job J" "view_job (J\<lparr>job_irq_entry := b\<rparr>) = view_job J"
  "view_job (J\<lparr>job_ret := c\<rparr>) = view_job J" "view_job (J\<lparr>job_first_task := d\<rparr>) = view_job J"
  "view_job (J\<lparr>job_last_task := d\<rparr>) = view_job J" "view_job (J\<lparr>job_int_mask := e\<rparr>) = view_job J"
  "view_job (J\<lparr>job_int_status := e\<rparr>) = view_job J" "view_job (J\<lparr>job_hw_commit_time := c\<rparr>) = view_job J"
  "view_job (J\<lparr>job_hw_recoder_time := c\<rparr>) = view_job J" "view_job (J\<lparr>job_hw_elapse_time := c\<rparr>) = view_job J"
  "view_job (J\<lparr>job_submit_count := g\<rparr>) = view_job J"
  "view_job (J\<lparr>job_run_count := c\<rparr>) = (view_job J)\<lparr>jv_run := c\<rparr>"
  "view_job (J\<lparr>job_interrupt_count := c\<rparr>) = (view_job J)\<lparr>jv_int := c\<rparr>"
  "view_job (J\<lparr>job_flags := h\<rparr>) = (view_job J)\<lparr>jv_flags := h\<rparr>"
  by (simp_all add: view_job_def)

lemma view_eqI:
  assumes "config t = sv_cfg v" and "soft_reseting (rst t) = sv_stalled v"
    and "\<And>i. subcore_job (subcore_datas t i) = sv_running v i"
    and "\<And>i. todo_list (subcore_datas t i) = sv_todo v i"
    and "\<And>i. task_num (subcore_datas t i) = sv_tasks v i"
    and "\<And>j. map_option view_job (jobs t j) = sv_jobs v j" and "cleanup_works t = sv_works v"
  shows "view t = v"
  using assms by (cases v) (simp add: view_def fun_eq_iff)

lemma view_reg_write [simp]: "view (reg_write r off x s) = view s"
  by (simp add: view_def)

lemma view_dev_domain_put [simp]: "view (dev_domain_put s) = view s"
  by (simp add: view_def)

lemma view_wake_up [simp]: "view (wake_up i s) = view s"
  by (rule view_eqI) (simp_all add: wake_up_def)

lemma view_upd_job:
  assumes "upd_job j f s = Some t" and "\<And>J. view_job (f J) = g (view_job J)"
  shows "view t = upd_view_job j g (view s)"
  using assms
  by (intro view_eqI) (auto simp: upd_job_eq_Some upd_view_job_def)

lemma upd_view_job_id [simp]: "upd_view_job j (\<lambda>V. V) v = v"
  by (simp add: upd_view_job_def fun_upd_idem option.map_id0 id_def [symmetric])

lemma view_upd_job_id:
  assumes "upd_job j f s = Some t" and "\<And>J. view_job (f J) = view_job J"
  shows "view t = view s"
  using view_upd_job [OF assms(1), of "\<lambda>V. V"] assms(2) by simp

lemma view_jobs [simp]: "view (s\<lparr>jobs := m\<rparr>) = (view s)\<lparr>sv_jobs := (\<lambda>j. map_option view_job (m j))\<rparr>"
  by (simp add: view_def)

lemma view_jobs_same:
  assumes "jobs s j = Some J" and "view_job J' = view_job J"
  shows "(view s)\<lparr>sv_jobs := (\<lambda>x. map_option view_job (if x = j then Some J' else jobs s x))\<rparr> = view s"
  using assms by (simp add: view_def fun_eq_iff)

lemma view_commit_pc:
  assumes "rknpu_job_subcore_commit_pc i j s = Some (r, t)"
  shows "view t = view s"
proof -
  from assms obtain J where J: "jobs s j = Some J" by (auto simp: rknpu_job_subcore_commit_pc_def bind_eq_Some_conv)
  have w: "view (if b then reg_write r o1 v (reg_write r' o2 v' s) else s) = view s"
    "jobs (if b then reg_write r o1 v (reg_write r' o2 v' s) else s) = jobs s" for b r o1 v r' o2 v'
    by simp_all
  from assms J show ?thesis
    by (auto simp: rknpu_job_subcore_commit_pc_def Let_def bind_eq_Some_conv upd_job_eq_Some w
        view_jobs_same view_job_def split: if_splits prod.splits)
qed

lemma view_subcore_commit:
  assumes "rknpu_job_subcore_commit i j s = Some (r, t)"
  shows "view t = view s"
proof -
  from assms obtain J where J: "jobs s j = Some J"
    by (auto simp: rknpu_job_subcore_commit_def Let_def bind_eq_Some_conv)
  show ?thesis
  proof (cases "has (sub_flags (job_args J)) RKNPU_JOB_PC")
    case True
    with assms J view_commit_pc [of i j "reg_write (Core i) RKNPU_OFFSET_PC_DATA_ADDR 1 s" r t] show ?thesis
      by (simp add: rknpu_job_subcore_commit_def)
  next
    case False
    with assms J show ?thesis
      by (auto simp: rknpu_job_subcore_commit_def upd_job_def view_jobs_same view_job_def)
  qed
qed

lemma view_commit:
  assumes "rknpu_job_commit j s = Some t"
  shows "view t = view s"
proof -
  from assms obtain J where "jobs s j = Some J" and run: "for_each (commit_cores (sub_core_mask (job_args J)))
      (\<lambda>i s. map_option snd (rknpu_job_subcore_commit i j s)) s = Some t"
    by (auto simp: rknpu_job_commit_def bind_eq_Some_conv)
  from run show ?thesis
    by (rule for_each_inv [where P = "\<lambda>u. view u = view s"]) (auto dest: view_subcore_commit)
qed

lemma view_unlink_entry:
  assumes "unlink_entry node i j s = Some t" and "todo_list (subcore_datas s i) = j # js"
  shows "view t = (view s)\<lparr>sv_todo := (sv_todo (view s))(i := js)\<rparr>"
  using assms
  by (intro view_eqI)
     (auto simp: unlink_entry_def upd_job_eq_Some view_job_def split: if_splits)

lemma view_next_take:
  assumes "next_take env i j s = Some t" and "todo_list (subcore_datas s i) = j # js"
  shows "view t = (view s)\<lparr>sv_running := (sv_running (view s))(i := Some j), sv_todo := (sv_todo (view s))(i := js)\<rparr>"
proof -
  from assms(1) obtain u where u: "unlink_entry Node_Self i j s = Some u"
    and t: "upd_job j (\<lambda>J. J\<lparr>job_hw_commit_time := je_now env, job_hw_recoder_time := je_now env\<rparr>)
              (upd_subcore i (\<lambda>d. d\<lparr>subcore_job := Some j\<rparr>) u) = Some t"
    by (auto simp: next_take_def bind_eq_Some_conv)
  have "view t = view (upd_subcore i (\<lambda>d. d\<lparr>subcore_job := Some j\<rparr>) u)"
    by (rule view_upd_job_id [OF t]) (simp add: view_job_def)
  also have "\<dots> = (view u)\<lparr>sv_running := (sv_running (view u))(i := Some j)\<rparr>"
    by (rule view_eqI) simp_all
  finally show ?thesis using view_unlink_entry [OF u assms(2)] by simp
qed

lemma view_next_start:
  assumes "next_start j s = Some t"
  shows "view t = upd_view_job j (\<lambda>V. V\<lparr>jv_run := s32 (jv_run V - 1)\<rparr>) (view s)"
proof -
  from assms obtain J where J: "jobs s j = Some J" by (auto simp: next_start_def bind_eq_Some_conv)
  let ?u = "s\<lparr>jobs := (jobs s)(j \<mapsto> J\<lparr>job_run_count := s32 (job_run_count J - 1)\<rparr>)\<rparr>"
  have "view ?u = upd_view_job j (\<lambda>V. V\<lparr>jv_run := s32 (jv_run V - 1)\<rparr>) (view s)"
    by (rule view_eqI) (auto simp: upd_view_job_def J view_job_def)
  moreover have "t = ?u \<or> rknpu_job_commit j ?u = Some t"
    using assms J by (auto simp: next_start_def upd_job_def Let_def split: if_splits)
  ultimately show ?thesis by (auto dest: view_commit)
qed

text \<open>Starting the next job refines \<open>a_next\<close>.\<close>

lemma view_next:
  assumes "rknpu_job_next env i s = Some t"
  shows "view t = a_next i (view s)"
proof (cases "soft_reseting (rst s) \<or> subcore_job (subcore_datas s i) \<noteq> None \<or> todo_list (subcore_datas s i) = []")
  case True
  with assms show ?thesis
    by (auto simp: rknpu_job_next_def a_next_def split: option.splits list.splits)
next
  case False
  then obtain j js where f: "subcore_job (subcore_datas s i) = None" "todo_list (subcore_datas s i) = j # js"
    by (auto simp: neq_Nil_conv)
  with False assms obtain u where "next_take env i j s = Some u" and t: "next_start j u = Some t"
    by (auto simp: rknpu_job_next_def bind_eq_Some_conv)
  with view_next_take [OF this(1) f(2)] False f show ?thesis
    by (simp add: view_next_start [OF t] a_next_def)
qed

lemma view_done_slot:
  assumes "done_slot env j i s = Some t"
  shows "view t = a_release i j (view s)"
proof -
  from assms obtain J where J: "jobs s j = Some J" by (auto simp: done_slot_def bind_eq_Some_conv)
  with assms show ?thesis
    by (intro view_eqI) (auto simp: done_slot_def upd_job_def Let_def a_release_def)
qed

lemma view_upd_fence:
  assumes "upd_fence f g s = Some t"
  shows "view t = view s"
  using upd_fence_frame [OF assms] by (intro view_eqI) simp_all

lemma view_schedule_work:
  assumes "schedule_work j s = Some t"
  shows "view t = (view s)\<lparr>sv_works := (if j \<in> set (cleanup_works s) then cleanup_works s else cleanup_works s @ [j])\<rparr>"
  using assms by (intro view_eqI) (auto simp: schedule_work_def bind_eq_Some_conv split: if_splits)

lemma view_signal_fence: "signal_fence fo s = Some t \<Longrightarrow> view t = view s"
  by (auto simp: signal_fence_def dma_fence_signal_def split: option.splits dest: view_upd_fence)

lemma view_finish:
  assumes "job_finish j ret i s = Some t"
  shows "view t = a_finish j (view s)"
proof -
  from assms obtain J where J: "jobs s j = Some J"
    by (auto simp: job_finish_def Let_def bind_eq_Some_conv upd_job_def)
  define J1 where "J1 = J\<lparr>job_flags := job_flags J OR RKNPU_JOB_DONE, job_ret := ret\<rparr>"
  define s1 where "s1 = (dev_domain_put s)\<lparr>jobs := (jobs s)(j \<mapsto> J1)\<rparr>"
  have v1: "view s1 = upd_view_job j (\<lambda>V. V\<lparr>jv_flags := jv_flags V OR RKNPU_JOB_DONE\<rparr>) (view s)"
    by (rule view_eqI) (auto simp: s1_def J1_def upd_view_job_def J)
  from assms J obtain s2 s3 where s2: "signal_fence (job_fence J) s1 = Some s2"
    and s3: "(if has (job_flags J1) RKNPU_JOB_ASYNC then schedule_work j s2 else Some s2) = Some s3"
    and t: "t = wake_up (if job_use_core_num J > 1 then 0 else i) s3"
    by (auto simp: job_finish_def Let_def bind_eq_Some_conv upd_job_def s1_def J1_def)
  note v2 = view_signal_fence [OF s2]
  have w: "cleanup_works s2 = cleanup_works s"
    using arg_cong [OF v2, of sv_works] by (simp add: v1 upd_view_job_def)
  show ?thesis
  proof (cases "has (job_flags J1) RKNPU_JOB_ASYNC")
    case True
    with s3 have "view s3 = (view s1)\<lparr>sv_works :=
        (if j \<in> set (cleanup_works s) then cleanup_works s else cleanup_works s @ [j])\<rparr>"
      using view_schedule_work [of j s2 s3] by (simp add: v2 w)
    with True J show ?thesis
      by (simp add: t v1 a_finish_def J1_def upd_view_job_def)
  next
    case False
    with s3 have "view s3 = view s1" by (simp add: v2 [symmetric])
    with False J show ?thesis by (simp add: t v1 a_finish_def J1_def upd_view_job_def)
  qed
qed

lemma view_done_count:
  assumes "done_count j ret i s = Some t"
  shows "view t = a_count j (view s)"
proof -
  from assms obtain J where J: "jobs s j = Some J" by (auto simp: done_count_def bind_eq_Some_conv)
  define u where "u = s\<lparr>jobs := (jobs s)(j \<mapsto> J\<lparr>job_interrupt_count := s32 (job_interrupt_count J - 1)\<rparr>)\<rparr>"
  have v: "view u = upd_view_job j (\<lambda>V. V\<lparr>jv_int := s32 (jv_int V - 1)\<rparr>) (view s)"
    unfolding u_def by (rule view_eqI) (auto simp: upd_view_job_def J)
  have "if s32 (job_interrupt_count J - 1) = 0 then job_finish j ret i u = Some t else t = u"
    using assms J by (auto simp: u_def done_count_def upd_job_def Let_def split: if_splits)
  then show ?thesis
    using v J by (auto simp: a_count_def Let_def split: if_splits dest: view_finish)
qed

text \<open>Completion of a chunk either commits the next chunk or refines \<open>a_complete\<close>.\<close>

lemma view_done:
  assumes "rknpu_job_done env j ret i s = Some t" and "jobs s j = Some J"
  shows "view t = (if s32 (job_submit_count J i + 1) < chunk_count (config s) J i then view s
                   else a_complete i j (view s))"
proof -
  let ?u = "s\<lparr>jobs := (jobs s)(j \<mapsto> J\<lparr>job_submit_count := (job_submit_count J)(i := s32 (job_submit_count J i + 1))\<rparr>)\<rparr>"
  have u: "view ?u = view s" by (rule view_eqI) (auto simp: assms(2))
  show ?thesis
  proof (cases "s32 (job_submit_count J i + 1) < chunk_count (config s) J i")
    case True
    with assms obtain r where "rknpu_job_subcore_commit i j ?u = Some (r, t)"
      by (auto simp: rknpu_job_done_def upd_job_def Let_def)
    with True show ?thesis by (simp add: view_subcore_commit u del: view_jobs)
  next
    case False
    with assms obtain s1 s2 where "done_slot env j i ?u = Some s1" "done_count j ret i s1 = Some s2"
      "rknpu_job_next env i s2 = Some t"
      by (auto simp: rknpu_job_done_def upd_job_def Let_def bind_eq_Some_conv)
    with False show ?thesis
      by (simp add: view_next view_done_count view_done_slot u a_complete_def del: view_jobs)
  qed
qed

text \<open>An interrupt retries to start a job on an idle core; on a busy core it stutters or completes the job.\<close>

lemma view_irq:
  assumes "rknpu_irq_handler env i s = Some t"
  shows "view t = (case sv_running (view s) i of
           None \<Rightarrow> a_next i (view s)
         | Some j \<Rightarrow> if (\<exists>J. jobs s j = Some J \<and>
                            rknpu_fuzz_status (je_read env i RKNPU_OFFSET_INT_STATUS) = job_int_mask J i \<and>
                            chunk_count (config s) J i \<le> s32 (job_submit_count J i + 1))
                     then a_complete i j (view s) else view s)"
proof (cases "subcore_job (subcore_datas s i)")
  case None
  with assms show ?thesis by (auto simp: rknpu_irq_handler_def dest: view_next)
next
  case (Some j)
  with assms obtain J where J: "jobs s j = Some J"
    by (auto simp: rknpu_irq_handler_def Let_def upd_job_def bind_eq_Some_conv)
  define st where "st = je_read env i RKNPU_OFFSET_INT_STATUS"
  define J1 where "J1 = J\<lparr>job_irq_entry := (job_irq_entry J)(i := True), job_int_status := (job_int_status J)(i := st)\<rparr>"
  define u where "u = reg_write (Core i) RKNPU_OFFSET_INT_CLEAR RKNPU_INT_CLEAR (s\<lparr>jobs := (jobs s)(j \<mapsto> J1)\<rparr>)"
  have u: "view u = view s" unfolding u_def J1_def by (rule view_eqI) (auto simp: J)
  have uj: "jobs u j = Some J1" "config u = config s" by (simp_all add: u_def)
  have J1: "job_submit_count J1 = job_submit_count J" "job_int_mask J1 = job_int_mask J"
    "chunk_count c J1 i = chunk_count c J i" for c
    by (simp_all add: J1_def chunk_count_def rknpu_get_task_number_def)
  have "if rknpu_fuzz_status st \<noteq> job_int_mask J i then t = u else rknpu_job_done env j 0 i u = Some t"
    using assms Some J
    by (auto simp: rknpu_irq_handler_def Let_def upd_job_def st_def J1_def u_def split: if_splits)
  with view_done [OF _ uj(1), of env 0 i t] show ?thesis
    by (auto simp: Some J J1 uj(2) u st_def [symmetric] not_less split: if_splits)
qed

lemma view_schedule_core:
  assumes "schedule_core j i s = Some t"
  shows "view t = a_add j i (view s)"
proof -
  from assms obtain J where J: "jobs s j = Some J"
    by (auto simp: schedule_core_def list_add_tail_def upd_job_def Let_def bind_eq_Some_conv split: if_splits)
  define d where "d = rknpu_get_task_number (config s) J i"
  have [simp]: "rknpu_get_task_number c (J\<lparr>job_head := h\<rparr>) i = rknpu_get_task_number c J i" for c h
    by (simp add: rknpu_get_task_number_def)
  from assms J have "t = upd_subcore i (\<lambda>x. x\<lparr>task_num := s64 (task_num x + d)\<rparr>)
      ((upd_subcore i (\<lambda>x. x\<lparr>todo_list := todo_list (subcore_datas s i) @ [j]\<rparr>) s)
        \<lparr>jobs := (jobs s)(j \<mapsto> J\<lparr>job_head := (job_head J)(i := Node_Linked)\<rparr>)\<rparr>)"
    by (auto simp: schedule_core_def list_add_tail_def upd_job_def Let_def bind_eq_Some_conv d_def split: if_splits)
  then show ?thesis using J by (intro view_eqI) (auto simp: a_add_def d_def)
qed

text \<open>Queueing refines \<open>a_enqueue\<close>.\<close>

lemma view_enqueue:
  assumes "schedule_enqueue j s = Some t"
  shows "view t = a_enqueue j (view s)"
proof -
  have "for_each is (schedule_core j) s = Some t \<Longrightarrow> view t = fold (a_add j) is (view s)" for "is" s t
    by (induction "is" arbitrary: s) (auto simp: bind_eq_Some_conv view_schedule_core)
  with assms show ?thesis
    by (auto simp: schedule_enqueue_def bind_eq_Some_conv a_enqueue_def view_cores_def)
qed

subsection \<open>What freeing a buffer leaves alone\<close>

definition sched_frame :: "rknpu_device \<Rightarrow> rknpu_device \<Rightarrow> bool" where
  "sched_frame s t \<longleftrightarrow> jobs t = jobs s \<and> subcore_datas t = subcore_datas s \<and> config t = config s \<and>
     rst t = rst s \<and> cleanup_works t = cleanup_works s"

lemma sched_frame_trans: "sched_frame s t \<Longrightarrow> sched_frame t u \<Longrightarrow> sched_frame s u"
  by (simp add: sched_frame_def)

lemma sched_frame_view: "sched_frame s t \<Longrightarrow> view t = view s"
  by (intro view_eqI) (simp_all add: sched_frame_def)

lemma sched_frame_power_get: "sched_frame s (snd (rknpu_power_get env s))"
  by (simp add: rknpu_power_get_def rknpu_power_on_def set_refcount_def sched_frame_def Let_def
      split: prod.splits)

lemma sched_frame_drop_power: "sched_frame s (snd (drop_power env s))"
  by (auto simp: drop_power_def rknpu_power_off_def set_refcount_def sched_frame_def Let_def
      split: prod.splits)

lemma sched_frame_power_put:
  "rknpu_power_put n env s = Some (r, t) \<Longrightarrow> sched_frame s t"
  "rknpu_power_put_delay n env s = Some (r, t) \<Longrightarrow> sched_frame s t"
proof (induction n env s and n env s arbitrary: r t and r t
    rule: rknpu_power_put_rknpu_power_put_delay.induct)
  case (2 depth env s)
  then show ?case
    using sched_frame_drop_power [of s env]
    by (auto simp: bind_eq_Some_conv split: prod.splits if_splits intro: sched_frame_trans)
next
  case (4 depth env s)
  then show ?case
    by (auto simp: delay_section_def sched_frame_def set_off_work_def set_refcount_def split: if_splits)
qed simp_all

lemma sched_frame_domain_retry: "sched_frame s (snd (domain_retry n env d s))"
proof (induction n env d s rule: domain_retry.induct)
  case (2 n env d s)
  obtain ret u where u: "dev_domain_get env d s = (ret, u)" by fastforce
  then have "sched_frame s u" by (rule dev_domain_get_frame) (simp add: sched_frame_def)
  with 2 [OF u [symmetric]] u show ?case by (auto intro: sched_frame_trans)
qed (simp add: sched_frame_def)

lemma sched_frame_release:
  "sched_frame s s" "sched_frame s t \<Longrightarrow> sched_frame s (release r t)"
  "sched_frame s t \<Longrightarrow> sched_frame s (iommu_unmap a n t)"
  "sched_frame s t \<Longrightarrow> sched_frame s u \<Longrightarrow> sched_frame s (if b then t else u)"
  by (simp_all add: sched_frame_def release_def iommu_unmap_def)

lemma sched_frame_free_backing: "sched_frame s (free_backing ob s)"
proof -
  have A: "sched_frame s (snd (rknpu_gem_free_buf ob s))"
    by (auto simp: rknpu_gem_free_buf_def rknpu_gem_put_pages_def Let_def intro!: sched_frame_release)
  have B: "sched_frame s (rknpu_gem_free_buf_with_cache ct ob t)" if "sched_frame s t" for ct t
    unfolding rknpu_gem_free_buf_with_cache_def Let_def
    by (intro sched_frame_release that)
  show ?thesis
    unfolding free_backing_def by (intro sched_frame_release A B)
qed

lemma sched_frame_object_destroy:
  assumes "rknpu_gem_object_destroy env addr s = Some t"
  shows "sched_frame s t"
proof -
  from assms obtain ob where ob: "gem_objs s addr = Some ob" by (auto simp: rknpu_gem_object_destroy_def bind_eq_Some_conv)
  obtain ret u where u: "domain_retry 3 (gem_iommu env) (obj_iommu_domain_id ob) s = (ret, u)" by fastforce
  have "sched_frame s u" using sched_frame_domain_retry [of s 3 "gem_iommu env" "obj_iommu_domain_id ob"] u by simp
  moreover have "sched_frame u t"
    using assms ob u sched_frame_free_backing [of u ob]
    by (auto simp: rknpu_gem_object_destroy_def sched_frame_def rknpu_gem_release_def release_def
        split: if_splits simp del: domain_retry.simps)
  ultimately show ?thesis by (rule sched_frame_trans)
qed

lemma sched_frame_object_put:
  assumes "rknpu_gem_object_put env addr s = Some t"
  shows "sched_frame s t"
proof -
  from assms obtain ob where "gem_objs s addr = Some ob" by (auto simp: rknpu_gem_object_put_def bind_eq_Some_conv)
  then obtain u where u: "upd_gem addr (\<lambda>b. b\<lparr>obj_refcount := obj_refcount ob - 1\<rparr>) s = Some u" and "sched_frame s u"
    by (simp add: upd_gem_def sched_frame_def)
  with assms \<open>gem_objs s addr = Some ob\<close> have "t = u \<or> rknpu_gem_free_object env addr u = Some t"
    by (auto simp: rknpu_gem_object_put_def Let_def split: if_splits)
  with \<open>sched_frame s u\<close> show ?thesis
    using sched_frame_power_get [of u "gem_power env"]
    by (auto simp: rknpu_gem_free_object_def bind_eq_Some_conv split: prod.splits
        intro: sched_frame_trans dest!: sched_frame_object_destroy sched_frame_power_put)
qed

text \<open>The clean-up refines \<open>a_cleanup\<close>.\<close>

lemma view_cleanup:
  assumes "rknpu_job_cleanup_work env j s = Some t"
  shows "view t = a_cleanup j (view s)"
proof -
  define s0 where "s0 = s\<lparr>cleanup_works := remove1 j (cleanup_works s)\<rparr>"
  have put: "put_fence fo a = Some b \<Longrightarrow> sched_frame a b" for fo a b
    by (auto simp: put_fence_def sched_frame_def fence_put_frame split: option.splits)
  from assms obtain u where "sched_frame s0 u" and t: "t = u\<lparr>jobs := (jobs u)(j := None)\<rparr>"
    by (auto simp: rknpu_job_cleanup_work_def rknpu_job_cleanup_def rknpu_job_free_def bind_eq_Some_conv
        s0_def [symmetric] split: if_splits intro: sched_frame_trans dest!: put sched_frame_object_put)
  then show ?thesis
    by (intro view_eqI) (auto simp: a_cleanup_def s0_def sched_frame_def)
qed

section \<open>The invariant\<close>

abbreviation num_cores :: "sched_view \<Rightarrow> nat" where
  "num_cores v \<equiv> cfg_num_irqs (sv_cfg v)"

text \<open>On how many cores a job still waits for its turn, and on how many it is not finished.\<close>

definition waiting :: "sched_view \<Rightarrow> job_ptr \<Rightarrow> nat" where
  "waiting v j = card {i. i < num_cores v \<and> j \<in> set (sv_todo v i)}"

definition outstanding :: "sched_view \<Rightarrow> job_ptr \<Rightarrow> nat" where
  "outstanding v j = card {i. i < num_cores v \<and> j \<in> set (queue v i)}"

definition referenced :: "sched_view \<Rightarrow> job_ptr \<Rightarrow> bool" where
  "referenced v j \<longleftrightarrow> (\<exists>i<num_cores v. j \<in> set (queue v i))"

definition job_tasks :: "sched_view \<Rightarrow> nat \<Rightarrow> job_ptr \<Rightarrow> int" where
  "job_tasks v i j = (case sv_jobs v j of None \<Rightarrow> 0 | Some V \<Rightarrow> view_task_number (sv_cfg v) V i)"

text \<open>What the counters of a queued or running job say.\<close>

definition counters_ok :: "sched_view \<Rightarrow> job_ptr \<Rightarrow> bool" where
  "counters_ok v j \<longleftrightarrow>
    (\<exists>V. sv_jobs v j = Some V \<and> jv_run V = int (waiting v j) \<and> jv_int V = int (outstanding v j) \<and>
         (has (jv_flags V) RKNPU_JOB_ASYNC \<longrightarrow> jv_work V))"

definition queues_inv :: "sched_view \<Rightarrow> bool" where
  "queues_inv v \<longleftrightarrow>
    num_cores v \<le> RKNPU_MAX_CORES \<and>
    (\<forall>i<num_cores v. distinct (queue v i) \<and> sv_tasks v i = s64 (\<Sum>j\<leftarrow>queue v i. job_tasks v i j)) \<and>
    (\<forall>j. referenced v j \<longrightarrow> counters_ok v j)"

definition works_inv :: "sched_view \<Rightarrow> bool" where
  "works_inv v \<longleftrightarrow> distinct (sv_works v) \<and> (\<forall>j\<in>set (sv_works v). sv_jobs v j \<noteq> None \<and> \<not> referenced v j)"

text \<open>All queues agree on one order of the jobs.\<close>

definition order_inv :: "sched_view \<Rightarrow> bool" where
  "order_inv v \<longleftrightarrow> (\<exists>g. distinct g \<and> (\<forall>i<num_cores v. subseq (queue v i) g))"

definition view_inv :: "sched_view \<Rightarrow> bool" where
  "view_inv v \<longleftrightarrow> queues_inv v \<and> works_inv v \<and> order_inv v"

lemma s32_pred: "0 < n \<Longrightarrow> n \<le> 3 \<Longrightarrow> s32 (int n - 1) = int n - 1"
  by (simp add: cint_simps)

lemma waiting_le: "num_cores v \<le> RKNPU_MAX_CORES \<Longrightarrow> waiting v j \<le> 3"
  and outstanding_le: "num_cores v \<le> RKNPU_MAX_CORES \<Longrightarrow> outstanding v j \<le> 3"
proof -
  assume n: "num_cores v \<le> RKNPU_MAX_CORES"
  have "card {i. i < num_cores v \<and> P i} \<le> num_cores v" for P
    using card_mono [of "{..<num_cores v}" "{i. i < num_cores v \<and> P i}"] by auto
  with n show "waiting v j \<le> 3" "outstanding v j \<le> 3"
    unfolding waiting_def outstanding_def by (meson order.trans)+
qed

lemma outstanding_pos: "referenced v j \<longleftrightarrow> 0 < outstanding v j"
  by (auto simp: referenced_def outstanding_def card_gt_0_iff)

text \<open>The parts of the view the counters depend on.\<close>

lemma queue_cong: "sv_running v' i = sv_running v i \<Longrightarrow> sv_todo v' i = sv_todo v i \<Longrightarrow> queue v' i = queue v i"
  by (simp add: queue_def)

lemma upd_view_job_sel [simp]:
  "sv_cfg (upd_view_job j f v) = sv_cfg v" "sv_stalled (upd_view_job j f v) = sv_stalled v"
  "sv_running (upd_view_job j f v) = sv_running v" "sv_todo (upd_view_job j f v) = sv_todo v"
  "sv_tasks (upd_view_job j f v) = sv_tasks v" "sv_works (upd_view_job j f v) = sv_works v"
  "sv_jobs (upd_view_job j f v) = (sv_jobs v)(j := map_option f (sv_jobs v j))"
  "queue (upd_view_job j f v) i = queue v i" "waiting (upd_view_job j f v) k = waiting v k"
  "outstanding (upd_view_job j f v) k = outstanding v k" "referenced (upd_view_job j f v) k = referenced v k"
  by (simp_all add: upd_view_job_def queue_def waiting_def outstanding_def referenced_def)

lemma job_tasks_Some: "sv_jobs v j = Some V \<Longrightarrow> job_tasks v i j = view_task_number (sv_cfg v) V i"
  by (simp add: job_tasks_def)

lemma job_tasks_cong: "sv_cfg u = sv_cfg v \<Longrightarrow> sv_jobs u j = sv_jobs v j \<Longrightarrow> job_tasks u i j = job_tasks v i j"
  by (cases "sv_jobs v j") (simp_all add: job_tasks_def)

lemma job_tasks_upd_view_job:
  assumes "\<And>V. view_task_number (sv_cfg v) (f V) i = view_task_number (sv_cfg v) V i"
  shows "job_tasks (upd_view_job j f v) i = job_tasks v i"
  using assms by (auto simp: job_tasks_def fun_eq_iff split: option.splits)

subsection \<open>Starting a job\<close>

lemma a_next_cases:
  obtains (idle) "a_next i v = v"
  | (start) j js where "sv_running v i = None" "sv_todo v i = j # js"
      "a_next i v = upd_view_job j (\<lambda>V. V\<lparr>jv_run := s32 (jv_run V - 1)\<rparr>)
         (v\<lparr>sv_running := (sv_running v)(i := Some j), sv_todo := (sv_todo v)(i := js)\<rparr>)"
  by (cases "sv_stalled v"; cases "sv_running v i"; cases "sv_todo v i") (auto simp: a_next_def)

lemma a_next_queue [simp]: "queue (a_next i v) k = queue v k" "sv_cfg (a_next i v) = sv_cfg v"
  "sv_tasks (a_next i v) = sv_tasks v" "sv_works (a_next i v) = sv_works v"
  "outstanding (a_next i v) j = outstanding v j" "referenced (a_next i v) j = referenced v j"
proof -
  have q: "queue (a_next i v) k = queue v k \<and> sv_cfg (a_next i v) = sv_cfg v \<and>
      sv_tasks (a_next i v) = sv_tasks v \<and> sv_works (a_next i v) = sv_works v" for k
    by (cases rule: a_next_cases [of i v]) (auto simp: queue_def)
  then show "queue (a_next i v) k = queue v k" "sv_cfg (a_next i v) = sv_cfg v"
    "sv_tasks (a_next i v) = sv_tasks v" "sv_works (a_next i v) = sv_works v" by simp_all
  show "outstanding (a_next i v) j = outstanding v j" "referenced (a_next i v) j = referenced v j"
    using q by (simp_all add: outstanding_def referenced_def)
qed

lemma a_next_jobs:
  "job_tasks (a_next i v) k = job_tasks v k" "sv_jobs (a_next i v) j = None \<longleftrightarrow> sv_jobs v j = None"
  by (cases rule: a_next_cases [of i v];
      auto simp: job_tasks_def fun_eq_iff view_task_number_def split: option.splits)+

lemma a_next_counters:
  assumes "num_cores v \<le> RKNPU_MAX_CORES" and "distinct (queue v i)" and "i < num_cores v"
    and "counters_ok v j" and "sv_todo v i \<noteq> [] \<Longrightarrow> counters_ok v (hd (sv_todo v i))"
  shows "counters_ok (a_next i v) j"
proof (cases rule: a_next_cases [of i v])
  case idle
  with assms show ?thesis by simp
next
  case (start k ks)
  let ?u = "v\<lparr>sv_running := (sv_running v)(i := Some k), sv_todo := (sv_todo v)(i := ks)\<rparr>"
  have k: "k \<notin> set ks" using start assms(2) by (simp add: queue_def)
  have "{m. m < num_cores v \<and> k \<in> set (sv_todo ?u m)} = {m. m < num_cores v \<and> k \<in> set (sv_todo v m)} - {i}"
    using start k by auto
  then have wk: "waiting ?u k = waiting v k - 1" "0 < waiting v k"
    using assms(3) start by (auto simp: waiting_def card_gt_0_iff)
  have w: "waiting ?u m = waiting v m" if "m \<noteq> k" for m
    unfolding waiting_def by (rule arg_cong [where f = card]) (use start that in auto)
  have o: "outstanding ?u m = outstanding v m" for m
  proof -
    have "queue ?u x = queue v x" for x using start by (simp add: queue_def)
    then show ?thesis by (simp add: outstanding_def)
  qed
  show ?thesis
    using assms(4,5) wk w o waiting_le [OF assms(1), of k] s32_pred [of "waiting v k"]
    by (cases "j = k") (auto simp: start counters_ok_def of_nat_diff)
qed

lemma view_inv_next:
  assumes "view_inv v" and "i < num_cores v"
  shows "view_inv (a_next i v)"
proof -
  have "counters_ok (a_next i v) j" if "referenced v j" for j
  proof (rule a_next_counters)
    show "counters_ok v j" using that assms(1) by (simp add: view_inv_def queues_inv_def)
    assume "sv_todo v i \<noteq> []"
    then have "referenced v (hd (sv_todo v i))" using assms(2) by (auto simp: referenced_def queue_def)
    then show "counters_ok v (hd (sv_todo v i))" using assms(1) by (simp add: view_inv_def queues_inv_def)
  qed (use assms in \<open>auto simp: view_inv_def queues_inv_def\<close>)
  with assms(1) show ?thesis
    by (auto simp: view_inv_def queues_inv_def works_inv_def order_inv_def a_next_jobs)
qed

subsection \<open>Completing a job on a core\<close>

lemma a_count_result:
  assumes "sv_jobs v j = Some V"
  obtains V' where "sv_jobs (a_count j v) = (sv_jobs v)(j \<mapsto> V')"
    "jv_args V' = jv_args V" "jv_cores V' = jv_cores V" "jv_run V' = jv_run V" "jv_work V' = jv_work V"
    "jv_int V' = s32 (jv_int V - 1)" "has (jv_flags V') RKNPU_JOB_ASYNC \<longleftrightarrow> has (jv_flags V) RKNPU_JOB_ASYNC"
    "s32 (jv_int V - 1) = 0 \<longrightarrow> has (jv_flags V') RKNPU_JOB_DONE"
    "sv_works (a_count j v) = (if s32 (jv_int V - 1) = 0 \<and> has (jv_flags V) RKNPU_JOB_ASYNC \<and> j \<notin> set (sv_works v)
                               then sv_works v @ [j] else sv_works v)"
    "sv_cfg (a_count j v) = sv_cfg v" "sv_running (a_count j v) = sv_running v"
    "sv_todo (a_count j v) = sv_todo v" "sv_tasks (a_count j v) = sv_tasks v"
proof -
  have d: "(x OR 1) AND 2 = x AND (2 :: u32)" "(x OR 1) AND 1 \<noteq> (0 :: u32)" for x :: u32
    using has_or_self [of 1 x] by (auto intro: bit_eqI simp: bit_simps)
  show thesis
  proof (cases "s32 (jv_int V - 1) = 0")
    case True
    then show thesis
      by (intro that [of "V\<lparr>jv_int := s32 (jv_int V - 1), jv_flags := jv_flags V OR RKNPU_JOB_DONE\<rparr>"])
         (simp_all add: a_count_def a_finish_def assms Let_def d upd_view_job_def)
  next
    case False
    then show thesis
      by (intro that [of "V\<lparr>jv_int := s32 (jv_int V - 1)\<rparr>"]) (simp_all add: a_count_def assms upd_view_job_def)
  qed
qed

lemma view_inv_complete:
  assumes "view_inv v" and "i < num_cores v" and "sv_running v i = Some j"
  shows "view_inv (a_complete i j v)"
proof -
  have q: "queue v i = j # sv_todo v i" using assms(3) by (simp add: queue_def)
  have ref: "referenced v j" using assms(2) q by (auto simp: referenced_def)
  with assms(1) obtain V where V: "sv_jobs v j = Some V" "jv_run V = int (waiting v j)"
    "jv_int V = int (outstanding v j)" "has (jv_flags V) RKNPU_JOB_ASYNC \<longrightarrow> jv_work V"
    by (auto simp: view_inv_def queues_inv_def counters_ok_def)
  define u where "u = a_release i j v"
  have u: "sv_cfg u = sv_cfg v" "sv_todo u = sv_todo v" "sv_jobs u = sv_jobs v" "sv_works u = sv_works v"
    "sv_running u = (sv_running v)(i := None)"
    "sv_tasks u = (sv_tasks v)(i := s64 (sv_tasks v i - view_task_number (sv_cfg v) V i))"
    by (simp_all add: u_def a_release_def V)
  have uV: "sv_jobs u j = Some V" by (simp add: u V(1))
  obtain V' where W: "sv_jobs (a_count j u) = (sv_jobs u)(j \<mapsto> V')"
    "jv_args V' = jv_args V" "jv_cores V' = jv_cores V" "jv_run V' = jv_run V" "jv_work V' = jv_work V"
    "jv_int V' = s32 (jv_int V - 1)" "has (jv_flags V') RKNPU_JOB_ASYNC \<longleftrightarrow> has (jv_flags V) RKNPU_JOB_ASYNC"
    "sv_works (a_count j u) = (if s32 (jv_int V - 1) = 0 \<and> has (jv_flags V) RKNPU_JOB_ASYNC \<and> j \<notin> set (sv_works u)
                               then sv_works u @ [j] else sv_works u)"
    "sv_cfg (a_count j u) = sv_cfg u" "sv_running (a_count j u) = sv_running u"
    "sv_todo (a_count j u) = sv_todo u" "sv_tasks (a_count j u) = sv_tasks u"
    by (rule a_count_result [OF uV])
  define w where "w = a_count j u"
  note W = W [unfolded u(1-5), folded w_def]
  have dist: "distinct (queue v k)" if "k < num_cores v" for k
    using assms(1) that by (simp add: view_inv_def queues_inv_def)
  have jn: "j \<notin> set (sv_todo v i)" using dist [OF assms(2)] q by simp
  have qw: "queue w k = (if k = i then sv_todo v i else queue v k)" for k
    by (simp add: queue_def W)
  have wait: "waiting w k = waiting v k" for k by (simp add: waiting_def W)
  have "{k. k < num_cores v \<and> j \<in> set (queue w k)} = {k. k < num_cores v \<and> j \<in> set (queue v k)} - {i}"
    using jn by (auto simp: qw split: if_splits)
  then have outj: "outstanding w j = outstanding v j - 1"
    using assms(2) q by (simp add: outstanding_def W)
  have out: "outstanding w k = outstanding v k" if "k \<noteq> j" for k
    unfolding outstanding_def W by (rule arg_cong [where f = card]) (use that q qw in \<open>auto split: if_splits\<close>)
  have n3: "num_cores v \<le> RKNPU_MAX_CORES" using assms(1) by (simp add: view_inv_def queues_inv_def)
  have int': "jv_int V' = int (outstanding w j)"
    using ref W(6) V(3) outj s32_pred [of "outstanding v j"] outstanding_le [OF n3, of j]
    by (simp add: outstanding_pos of_nat_diff)
  have refw: "referenced w k \<Longrightarrow> referenced v k" for k
    using q by (auto simp: referenced_def qw W split: if_splits)
  have tasks: "job_tasks w m k = job_tasks v m k" for m k
    using W(1-3,9) V(1) by (cases "k = j") (simp_all add: job_tasks_def view_task_number_def cong: option.case_cong)
  have "counters_ok w k" if "referenced w k" for k
  proof (cases "k = j")
    case True
    with int' W V wait show ?thesis by (simp add: counters_ok_def)
  next
    case False
    with refw [OF that] assms(1) out wait W(1) show ?thesis
      by (auto simp: view_inv_def queues_inv_def counters_ok_def)
  qed
  moreover have "sv_tasks w k = s64 (\<Sum>m\<leftarrow>queue w k. job_tasks w k m)" if "k < num_cores v" for k
  proof -
    have *: "sv_tasks v k = s64 (\<Sum>m\<leftarrow>queue v k. job_tasks v k m)"
      using assms(1) that by (simp add: view_inv_def queues_inv_def)
    show ?thesis
    proof (cases "k = i")
      case True
      with * q have "sv_tasks v i = s64 (job_tasks v i j + (\<Sum>m\<leftarrow>sv_todo v i. job_tasks v i m))" by simp
      with True V(1) show ?thesis
        by (simp add: W(12) u(6) qw tasks s64_add job_tasks_Some)
    qed (use * in \<open>simp add: W(12) u(6) qw tasks\<close>)
  qed
  moreover have "distinct (queue w k)" if "k < num_cores v" for k
    using dist [OF that] dist [OF assms(2)] q by (simp add: qw)
  ultimately have "queues_inv w" using n3 by (simp add: queues_inv_def W(9))
  moreover have "works_inv w"
  proof -
    have jw: "j \<notin> set (sv_works v)" using ref assms(1) by (auto simp: view_inv_def works_inv_def)
    have "\<not> referenced w j" if "s32 (jv_int V - 1) = 0" using that int' W(6) by (simp add: outstanding_pos)
    with assms(1) jw refw show ?thesis
      by (auto simp: view_inv_def works_inv_def W)
  qed
  moreover have "order_inv w"
  proof -
    from assms(1) obtain g where "distinct g" "\<forall>k<num_cores v. subseq (queue v k) g"
      by (auto simp: view_inv_def order_inv_def)
    moreover from this assms(2) q have "subseq (sv_todo v i) g" by (metis subseq_Cons')
    ultimately show ?thesis by (auto simp: order_inv_def qw W intro!: exI [of _ g])
  qed
  ultimately have "view_inv w" by (simp add: view_inv_def)
  with view_inv_next [of w i] assms(2) show ?thesis by (simp add: a_complete_def w_def u_def W(9) [unfolded w_def u_def])
qed

lemma queue_complete:
  assumes "sv_running v i = Some j" and "sv_jobs v j = Some V"
  shows "queue (a_complete i j v) k = (if k = i then sv_todo v i else queue v k)"
    and "sv_cfg (a_complete i j v) = sv_cfg v"
proof -
  have "sv_jobs (a_release i j v) j = Some V" by (simp add: a_release_def assms)
  then obtain V' where "sv_cfg (a_count j (a_release i j v)) = sv_cfg v"
    "sv_running (a_count j (a_release i j v)) = (sv_running v)(i := None)"
    "sv_todo (a_count j (a_release i j v)) = sv_todo v"
    by (rule a_count_result) (simp add: a_release_def assms)
  then show "queue (a_complete i j v) k = (if k = i then sv_todo v i else queue v k)"
    "sv_cfg (a_complete i j v) = sv_cfg v"
    by (simp_all add: a_complete_def queue_def [of "a_count j (a_release i j v)"] queue_def [of v])
qed

subsection \<open>Queueing and cleaning up\<close>

text \<open>A job that is ready to be queued: what \<open>rknpu_job_alloc\<close> and the choice of a core establish.\<close>

definition ready :: "job_ptr \<Rightarrow> sched_view \<Rightarrow> bool" where
  "ready j v \<longleftrightarrow> \<not> referenced v j \<and> j \<notin> set (sv_works v) \<and>
    (case sv_jobs v j of
       None \<Rightarrow> False
     | Some V \<Rightarrow> jv_run V = int (length (view_cores v V)) \<and> jv_int V = int (length (view_cores v V)) \<and>
                (has (jv_flags V) RKNPU_JOB_ASYNC \<longrightarrow> jv_work V))"

lemma fold_a_add:
  assumes "sv_jobs v j = Some V" and "distinct is"
  shows "fold (a_add j) is v =
    v\<lparr>sv_todo := (\<lambda>i. if i \<in> set is then sv_todo v i @ [j] else sv_todo v i),
      sv_tasks := (\<lambda>i. if i \<in> set is then s64 (sv_tasks v i + view_task_number (sv_cfg v) V i)
                       else sv_tasks v i)\<rparr>"
  using assms
proof (induction "is" arbitrary: v)
  case (Cons i "is")
  then have "sv_jobs (a_add j i v) j = Some V" by (simp add: a_add_def)
  from Cons.IH [OF this] Cons.prems show ?case
    by (auto simp: a_add_def fun_eq_iff intro!: sched_view.equality)
qed simp

lemma queue_enqueue:
  assumes "sv_jobs v j = Some V"
  shows "queue (a_enqueue j v) i = (if i \<in> set (view_cores v V) then queue v i @ [j] else queue v i)"
    and "sv_cfg (a_enqueue j v) = sv_cfg v" and "sv_jobs (a_enqueue j v) = sv_jobs v"
proof -
  have "distinct (view_cores v V)" by (simp add: view_cores_def mask_cores_def)
  with assms show "queue (a_enqueue j v) i = (if i \<in> set (view_cores v V) then queue v i @ [j] else queue v i)"
    "sv_cfg (a_enqueue j v) = sv_cfg v" "sv_jobs (a_enqueue j v) = sv_jobs v"
    by (simp_all add: a_enqueue_def fold_a_add queue_def)
qed

lemma view_inv_enqueue:
  assumes "view_inv v" and "ready j v"
  shows "view_inv (a_enqueue j v)"
proof -
  from assms(2) obtain V where V: "sv_jobs v j = Some V" "jv_run V = int (length (view_cores v V))"
    "jv_int V = int (length (view_cores v V))" "has (jv_flags V) RKNPU_JOB_ASYNC \<longrightarrow> jv_work V"
    and nr: "\<not> referenced v j" and nw: "j \<notin> set (sv_works v)"
    by (auto simp: ready_def split: option.splits)
  let ?C = "set (view_cores v V)"
  have C: "distinct (view_cores v V)" "\<And>i. i \<in> ?C \<Longrightarrow> i < num_cores v"
    by (auto simp: view_cores_def mask_cores_def)
  define w where "w = a_enqueue j v"
  have W: "sv_cfg w = sv_cfg v" "sv_running w = sv_running v" "sv_jobs w = sv_jobs v" "sv_works w = sv_works v"
    "sv_todo w = (\<lambda>i. if i \<in> ?C then sv_todo v i @ [j] else sv_todo v i)"
    "sv_tasks w = (\<lambda>i. if i \<in> ?C then s64 (sv_tasks v i + job_tasks v i j) else sv_tasks v i)"
    by (simp_all add: w_def a_enqueue_def V(1) fold_a_add [OF V(1) C(1)] job_tasks_Some [OF V(1)] cong: if_cong)
  have qw: "queue w i = (if i \<in> ?C then queue v i @ [j] else queue v i)" for i
    by (simp add: queue_def W)
  have jq: "j \<notin> set (queue v i)" "j \<notin> set (sv_todo v i)" if "i < num_cores v" for i
    using nr that by (auto simp: referenced_def queue_def)
  have cnt: "waiting w j = length (view_cores v V)" "outstanding w j = length (view_cores v V)"
    "\<And>k. k \<noteq> j \<Longrightarrow> waiting w k = waiting v k" "\<And>k. k \<noteq> j \<Longrightarrow> outstanding w k = outstanding v k"
  proof -
    have "{i. i < num_cores v \<and> j \<in> set (sv_todo w i)} = ?C" "{i. i < num_cores v \<and> j \<in> set (queue w i)} = ?C"
      using jq C(2) by (auto simp: W qw split: if_splits)
    then show "waiting w j = length (view_cores v V)" "outstanding w j = length (view_cores v V)"
      using C(1) by (simp_all add: waiting_def outstanding_def W distinct_card)
    show "waiting w k = waiting v k" "outstanding w k = outstanding v k" if "k \<noteq> j" for k
      unfolding waiting_def outstanding_def
      by (rule arg_cong [where f = card]; use that in \<open>auto simp: W qw\<close>)+
  qed
  have "counters_ok w k" if "referenced w k" for k
  proof (cases "k = j")
    case True
    with V cnt W show ?thesis by (simp add: counters_ok_def)
  next
    case False
    with that have "referenced v k" by (auto simp: referenced_def qw W split: if_splits)
    with assms(1) cnt(3,4) [OF False] show ?thesis by (simp add: view_inv_def queues_inv_def counters_ok_def W)
  qed
  moreover have "distinct (queue w i) \<and> sv_tasks w i = s64 (\<Sum>k\<leftarrow>queue w i. job_tasks w i k)"
    if "i < num_cores v" for i
    using assms(1) jq [OF that] that
    by (auto simp: view_inv_def queues_inv_def qw W job_tasks_cong [OF W(1) fun_cong [OF W(3)]] s64_add)
  moreover have "order_inv w"
  proof -
    from assms(1) obtain g where g: "distinct g" "\<forall>i<num_cores v. subseq (queue v i) g"
      by (auto simp: view_inv_def order_inv_def)
    define g' where "g' = filter (referenced v) g @ [j]"
    have "subseq (queue v i) (filter (referenced v) g)" if "i < num_cores v" for i
    proof -
      have "filter (referenced v) (queue v i) = queue v i"
        using that by (auto simp: filter_id_conv referenced_def)
      then show ?thesis using g(2) that subseq_filter [of "queue v i" g "referenced v"] by simp
    qed
    then have "subseq (queue w i) g'" if "i < num_cores v" for i
      using that by (auto simp: qw g'_def intro: list_emb_append_mono subseq_append' subseq_rev_drop_many)
    moreover have "distinct g'" using g(1) nr by (simp add: g'_def)
    ultimately show ?thesis by (auto simp: order_inv_def W)
  qed
  moreover have "works_inv w"
    using assms(1) nw by (auto simp: view_inv_def works_inv_def referenced_def qw W split: if_splits)
  ultimately show ?thesis
    using assms(1) by (simp add: view_inv_def queues_inv_def W w_def [symmetric])
qed

lemma view_inv_cleanup:
  assumes "view_inv v" and "j \<in> set (sv_works v)"
  shows "view_inv (a_cleanup j v)"
proof -
  have nr: "\<not> referenced v j" using assms by (auto simp: view_inv_def works_inv_def)
  let ?w = "a_cleanup j v"
  have q: "queue ?w i = queue v i" "waiting ?w k = waiting v k" "outstanding ?w k = outstanding v k"
    "referenced ?w k = referenced v k" "sv_cfg ?w = sv_cfg v" "sv_tasks ?w = sv_tasks v" for i k
    by (simp_all add: a_cleanup_def queue_def waiting_def outstanding_def referenced_def)
  have "(\<Sum>k\<leftarrow>queue v i. job_tasks ?w i k) = (\<Sum>k\<leftarrow>queue v i. job_tasks v i k)" if "i < num_cores v" for i
    by (rule arg_cong [where f = sum_list])
       (use nr that in \<open>auto simp: referenced_def a_cleanup_def intro!: job_tasks_cong\<close>)
  moreover have "counters_ok ?w k" if "referenced v k" for k
    using assms(1) that nr by (auto simp: view_inv_def queues_inv_def counters_ok_def q) (auto simp: a_cleanup_def)
  ultimately have "queues_inv ?w" using assms(1) by (simp add: view_inv_def queues_inv_def q)
  moreover have "works_inv ?w"
    using assms by (auto simp: view_inv_def works_inv_def q) (auto simp: a_cleanup_def)
  ultimately show ?thesis using assms(1) by (simp add: view_inv_def order_inv_def q)
qed

end
