(* ===== verification/Rknpu_Progress.thy ===== *)
theory Rknpu_Progress
  imports Rknpu_Sched
begin

text \<open>
  Executions of the scheduler: every interleaving of submissions, start attempts, interrupts and deferred
  clean-ups, starting from idle cores. The theory shows the invariant of all reachable states, that
  each core serves its jobs in the order they were queued, and that the scheduler cannot deadlock on
  jobs that occupy several cores.
\<close>

section \<open>Model\<close>

text \<open>
  The part of \<open>rknpu_submit\<close> up to the point where the job is queued on its cores: allocation, the flag of
  a non-blocking job, the choice of a core, the IOMMU domain, and the section under the lock. The first
  component is the job that was queued.
\<close>

definition submit_enqueue ::
    "job_env \<Rightarrow> rknpu_submit \<Rightarrow> rknpu_device \<Rightarrow> (job_ptr option \<times> rknpu_device) option" where
  "submit_enqueue env args s =
    do { (jo, s) \<leftarrow> rknpu_job_alloc env args s;
         case jo of
           None \<Rightarrow> Some (None, s)
         | Some j \<Rightarrow> do {
             s \<leftarrow> (if has (sub_flags args) RKNPU_JOB_NONBLOCK
                   then upd_job j (\<lambda>J. J\<lparr>job_flags := job_flags J OR RKNPU_JOB_ASYNC\<rparr>) s else Some s);
             s \<leftarrow> schedule_auto j s;
             J \<leftarrow> jobs s j;
             let (ret, s) = dev_domain_get (je_iommu env) (job_iommu_domain_id J) s;
             if ret \<noteq> 0 then do {
               s \<leftarrow> upd_job j (\<lambda>J. J\<lparr>job_ret := - EINVAL\<rparr>) s;
               Some (None, s) }
             else do { s \<leftarrow> schedule_enqueue j s; Some (Some j, s) } } }"

text \<open>The job an interrupt finishes on a core, if it does.\<close>

definition irq_completes :: "job_env \<Rightarrow> nat \<Rightarrow> rknpu_device \<Rightarrow> job_ptr option" where
  "irq_completes env i s =
    do { j \<leftarrow> subcore_job (subcore_datas s i);
         J \<leftarrow> jobs s j;
         if rknpu_fuzz_status (je_read env i RKNPU_OFFSET_INT_STATUS) = job_int_mask J i \<and>
            chunk_count (config s) J i \<le> s32 (job_submit_count J i + 1)
         then Some j else None }"

text \<open>Idle cores, an empty clean-up queue, and a configuration the probe can choose.\<close>

definition sched_init :: "rknpu_device \<Rightarrow> bool" where
  "sched_init s \<longleftrightarrow> config_ok (config s) \<and> cleanup_works s = [] \<and>
    (\<forall>i. subcore_job (subcore_datas s i) = None \<and> todo_list (subcore_datas s i) = [] \<and>
         task_num (subcore_datas s i) = 0)"

text \<open>
  One step, and an execution with its history: \<open>enq i\<close> are the jobs queued on core \<open>i\<close>, \<open>fin i\<close> the jobs
  that finished there, both in order. \<open>kzalloc\<close> returns the address of no allocated job.
\<close>

inductive sched_run ::
    "rknpu_device \<Rightarrow> (nat \<Rightarrow> job_ptr list) \<Rightarrow> (nat \<Rightarrow> job_ptr list) \<Rightarrow> rknpu_device \<Rightarrow> bool"
where
  init: "sched_init s \<Longrightarrow> sched_run s (\<lambda>i. []) (\<lambda>i. []) s"
| submit: "sched_run s enq fin t \<Longrightarrow> sub_core_mask args \<le> cfg_core_mask (config t) \<Longrightarrow>
    (\<forall>j. je_kzalloc env = Some j \<longrightarrow> jobs t j = None) \<Longrightarrow> submit_enqueue env args t = Some (Some j, u) \<Longrightarrow>
    jobs u j = Some J \<Longrightarrow>
    sched_run s (\<lambda>i. if i \<in> set (mask_cores (cfg_num_irqs (config u)) (sub_core_mask (job_args J)))
                     then enq i @ [j] else enq i) fin u"
| reject: "sched_run s enq fin t \<Longrightarrow> sub_core_mask args \<le> cfg_core_mask (config t) \<Longrightarrow>
    (\<forall>j. je_kzalloc env = Some j \<longrightarrow> jobs t j = None) \<Longrightarrow> submit_enqueue env args t = Some (None, u) \<Longrightarrow>
    sched_run s enq fin u"
| start_next: "sched_run s enq fin t \<Longrightarrow> i < cfg_num_irqs (config t) \<Longrightarrow>
    rknpu_job_next env i t = Some u \<Longrightarrow> sched_run s enq fin u"
| irq: "sched_run s enq fin t \<Longrightarrow> i < cfg_num_irqs (config t) \<Longrightarrow>
    rknpu_irq_handler env i t = Some u \<Longrightarrow>
    sched_run s enq (case irq_completes env i t of None \<Rightarrow> fin | Some j \<Rightarrow> fin(i := fin i @ [j])) u"
| cleanup: "sched_run s enq fin t \<Longrightarrow> j \<in> set (cleanup_works t) \<Longrightarrow>
    rknpu_job_cleanup_work env j t = Some u \<Longrightarrow> sched_run s enq fin u"

inductive_cases sched_runE: "sched_run s enq fin t"

section \<open>Submitting\<close>

lemma mask_cores_config:
  assumes "config_ok cfg" and "m \<le> cfg_core_mask cfg"
  shows "mask_cores (cfg_num_irqs cfg) m = mask_cores 3 m" and "m \<le> 7"
proof -
  have n: "cfg_num_irqs cfg = 1 \<or> cfg_num_irqs cfg = 2 \<or> cfg_num_irqs cfg = 3"
    and cm: "cfg_core_mask cfg = mask (cfg_num_irqs cfg)"
    using assms(1) by (auto simp: config_ok_def)
  have "(mask (cfg_num_irqs cfg) :: u32) \<le> 7" using n by (elim disjE) (simp_all add: mask_eq_exp_minus_1)
  with assms(2) cm show le: "m \<le> 7" by simp
  have less: "mask_cores 1 0 = []" "mask_cores 1 1 = [0]" "mask_cores 2 0 = []" "mask_cores 2 1 = [0]"
    "mask_cores 2 2 = [1]" "mask_cores 2 3 = [0, 1]"
    by (simp_all add: mask_cores_def rknpu_core_mask_def upt_rec)
  consider (one) "cfg_num_irqs cfg = 1" "m \<le> 1" | (two) "cfg_num_irqs cfg = 2" "m \<le> 3"
    | (three) "cfg_num_irqs cfg = 3"
    using n assms(2) unfolding cm by (elim disjE) (simp_all add: mask_eq_exp_minus_1)
  then show "mask_cores (cfg_num_irqs cfg) m = mask_cores 3 m"
  proof cases
    case one
    have "m = 0 \<or> m = 1"
      using one(2) by (cases rule: mask_cases [OF le]) (simp_all add: word_le_nat_alt)
    then show ?thesis unfolding one(1) by (elim disjE) (simp_all only: less mask_cores_simps)
  next
    case two
    have "m = 0 \<or> m = 1 \<or> m = 2 \<or> m = 3" using two(2) by (cases rule: mask_cases [OF le]) simp_all
    then show ?thesis unfolding two(1) by (elim disjE) (simp_all only: less mask_cores_simps)
  qed simp
qed

text \<open>The job as it is when \<open>rknpu_submit\<close> queues it.\<close>

definition queued_job :: "job_env \<Rightarrow> rknpu_submit \<Rightarrow> nat \<Rightarrow> rknpu_job" where
  "queued_job env args i =
    (let J = new_job (je_now env) args;
         J = (if has (sub_flags args) RKNPU_JOB_NONBLOCK then J\<lparr>job_flags := job_flags J OR RKNPU_JOB_ASYNC\<rparr> else J)
     in if sub_core_mask args = RKNPU_CORE_AUTO_MASK
        then J\<lparr>job_args := args\<lparr>sub_core_mask := rknpu_core_mask i\<rparr>, job_use_core_num := 1,
               job_run_count := 1, job_interrupt_count := 1\<rparr>
        else J)"

lemma submit_enqueue_cases:
  assumes "submit_enqueue env args t = Some (jo, u)"
  obtains (no_memory) "jo = None" "je_kzalloc env = None" "u = t"
  | (no_domain) j J where "jo = None" "je_kzalloc env = Some j"
      "view u = (view t)\<lparr>sv_jobs := (sv_jobs (view t))(j \<mapsto> view_job J)\<rparr>"
  | (queued) j w where "jo = Some j" "je_kzalloc env = Some j"
      "view w = (view t)\<lparr>sv_jobs := (sv_jobs (view t))(j \<mapsto>
         view_job (queued_job env args (rknpu_schedule_core_index t)))\<rparr>"
      "schedule_enqueue j w = Some u"
proof (cases "je_kzalloc env")
  case None
  with assms show ?thesis by (intro no_memory) (auto simp: submit_enqueue_def rknpu_job_alloc_def)
next
  case (Some j)
  let ?J = "queued_job env args (rknpu_schedule_core_index t)"
  define s0 where "s0 = t\<lparr>jobs := (jobs t)(j \<mapsto> new_job (je_now env) args)\<rparr>"
  from assms Some obtain s1 where
    s1: "(if CONFIG_ROCKCHIP_RKNPU_DRM_GEM (build s0) \<and> sub_task_obj_addr args \<noteq> 0
          then rknpu_gem_object_get (sub_task_obj_addr args) s0 else Some s0) = Some s1"
    and rest1: "do { s \<leftarrow> (if has (sub_flags args) RKNPU_JOB_NONBLOCK
                   then upd_job j (\<lambda>J. J\<lparr>job_flags := job_flags J OR RKNPU_JOB_ASYNC\<rparr>) s1 else Some s1);
             s \<leftarrow> schedule_auto j s;
             J \<leftarrow> jobs s j;
             let (ret, s) = dev_domain_get (je_iommu env) (job_iommu_domain_id J) s;
             if ret \<noteq> 0 then do {
               s \<leftarrow> upd_job j (\<lambda>J. J\<lparr>job_ret := - EINVAL\<rparr>) s;
               Some (None, s) }
             else do { s \<leftarrow> schedule_enqueue j s; Some (Some j, s) } } = Some (jo, u)"
    by (auto simp: submit_enqueue_def rknpu_job_alloc_def s0_def Let_def bind_eq_Some_conv split: if_splits)
  have f1: "jobs s1 = jobs s0" "config s1 = config t" "subcore_datas s1 = subcore_datas t" "rst s1 = rst t"
    "cleanup_works s1 = cleanup_works t"
    using s1 by (auto simp: rknpu_gem_object_get_def upd_gem_def bind_eq_Some_conv s0_def split: if_splits)
  have idx: "rknpu_schedule_core_index (s1\<lparr>jobs := m\<rparr>) = rknpu_schedule_core_index t"
    "rknpu_schedule_core_index s1 = rknpu_schedule_core_index t" for m
    by (simp_all add: rknpu_schedule_core_index_def f1 cong: if_cong)
  have j1: "jobs s1 j = Some (new_job (je_now env) args)"
    "s1\<lparr>jobs := (jobs t)(j \<mapsto> new_job (je_now env) args)\<rparr> = s1"
    "(jobs s1)(j \<mapsto> x) = (jobs t)(j \<mapsto> x)" for x
    using f1(1) by (simp_all add: s0_def)
  have n: "job_args (new_job (je_now env) args) = args"
    "job_iommu_domain_id (new_job (je_now env) args) = s32 (uint (sub_iommu_domain_id args))"
    by (simp_all add: new_job_def)
  define s3 where "s3 = s1\<lparr>jobs := (jobs t)(j \<mapsto> ?J)\<rparr>"
  have v3: "view s3 = (view t)\<lparr>sv_jobs := (sv_jobs (view t))(j \<mapsto> view_job ?J)\<rparr>"
    by (rule view_eqI) (auto simp: s3_def f1)
  have rest3: "do { let (ret, s) = dev_domain_get (je_iommu env) (job_iommu_domain_id ?J) s3;
             if ret \<noteq> 0 then do {
               s \<leftarrow> upd_job j (\<lambda>J. J\<lparr>job_ret := - EINVAL\<rparr>) s;
               Some (None, s) }
             else do { s \<leftarrow> schedule_enqueue j s; Some (Some j, s) } } = Some (jo, u)"
    using rest1
    by (auto simp: schedule_auto_def upd_job_def j1 n s3_def queued_job_def idx Let_def split: if_splits)
  obtain ret s4 where s4: "dev_domain_get (je_iommu env) (job_iommu_domain_id ?J) s3 = (ret, s4)" by fastforce
  then obtain io where io: "s4 = s3\<lparr>iommu := io\<rparr>" by (rule dev_domain_get_frame)
  then have v4: "view s4 = view s3" "jobs s4 j = Some ?J" by (simp_all add: view_def s3_def)
  show ?thesis
  proof (cases "ret = 0")
    case True
    with rest3 s4 v3 v4 Some show ?thesis by (intro queued [of j s4]) (auto simp: bind_eq_Some_conv)
  next
    case False
    with rest3 s4 have "jo = None" and "upd_job j (\<lambda>J. J\<lparr>job_ret := - EINVAL\<rparr>) s4 = Some u"
      by (auto simp: bind_eq_Some_conv)
    from view_upd_job_id [OF this(2)] v3 v4 this(1) Some show ?thesis
      by (intro no_domain [of j ?J]) auto
  qed
qed

lemma mask_cores_single:
  assumes "i < n" and "n \<le> RKNPU_MAX_CORES"
  shows "mask_cores n (rknpu_core_mask i) = [i]"
proof -
  have "n = 1 \<and> i = 0 \<or> n = 2 \<and> (i = 0 \<or> i = 1) \<or> n = 3 \<and> (i = 0 \<or> i = 1 \<or> i = 2)"
    using assms by auto
  then show ?thesis by (elim disjE conjE) (simp_all add: mask_cores_def rknpu_core_mask_def upt_rec)
qed

lemma queued_job_ready:
  assumes "config_ok (sv_cfg v)" and "sub_core_mask args \<le> cfg_core_mask (sv_cfg v)" and "i < num_cores v"
    and "\<not> referenced v j" and "j \<notin> set (sv_works v)"
  shows "ready j (v\<lparr>sv_jobs := (sv_jobs v)(j \<mapsto> view_job (queued_job env args i))\<rparr>)"
proof -
  let ?v = "v\<lparr>sv_jobs := (sv_jobs v)(j \<mapsto> view_job (queued_job env args i))\<rparr>"
  have "referenced ?v j = referenced v j" by (simp add: referenced_def queue_def)
  moreover have "int (length (mask_cores (num_cores v) (sub_core_mask (job_args (queued_job env args i))))) =
      job_run_count (queued_job env args i)" "job_interrupt_count (queued_job env args i) = job_run_count (queued_job env args i)"
  proof -
    have "num_cores v \<le> RKNPU_MAX_CORES" using assms(1) by (simp add: config_ok_def)
    note single = mask_cores_single [OF assms(3) this]
    have "length (mask_cores (num_cores v) (sub_core_mask args)) = mask_core_count (sub_core_mask args)"
      using mask_cores_config [OF assms(1,2)] commit_starts_mask_count [of "sub_core_mask args"] by simp
    with single show "int (length (mask_cores (num_cores v) (sub_core_mask (job_args (queued_job env args i))))) =
      job_run_count (queued_job env args i)" "job_interrupt_count (queued_job env args i) = job_run_count (queued_job env args i)"
      by (simp_all add: queued_job_def new_job_def Let_def)
  qed
  moreover have "has (job_flags (queued_job env args i)) RKNPU_JOB_ASYNC \<longrightarrow> job_cleanup_work (queued_job env args i)"
    by (simp add: queued_job_def new_job_def Let_def)
  ultimately show ?thesis using assms(4,5) by (simp add: ready_def view_cores_def)
qed

section \<open>The invariant of executions\<close>

text \<open>A job no queue refers to can change as its owner likes.\<close>

lemma view_inv_private:
  assumes "view_inv v" and "\<not> referenced v j"
  shows "view_inv (v\<lparr>sv_jobs := (sv_jobs v)(j \<mapsto> V)\<rparr>)"
proof -
  let ?w = "v\<lparr>sv_jobs := (sv_jobs v)(j \<mapsto> V)\<rparr>"
  have q: "queue ?w i = queue v i" "waiting ?w k = waiting v k" "outstanding ?w k = outstanding v k"
    "referenced ?w k = referenced v k" for i k
    by (simp_all add: queue_def waiting_def outstanding_def referenced_def)
  have "(\<Sum>k\<leftarrow>queue v i. job_tasks ?w i k) = (\<Sum>k\<leftarrow>queue v i. job_tasks v i k)" if "i < num_cores v" for i
    by (rule arg_cong [where f = sum_list])
       (use assms(2) that in \<open>auto simp: referenced_def intro!: job_tasks_cong\<close>)
  moreover have "counters_ok ?w k" if "referenced v k" for k
    using assms that by (auto simp: view_inv_def queues_inv_def counters_ok_def q)
  ultimately show ?thesis
    using assms by (auto simp: view_inv_def queues_inv_def works_inv_def order_inv_def q)
qed

lemma not_referenced_free:
  assumes "view_inv v" and "sv_jobs v j = None"
  shows "\<not> referenced v j" and "j \<notin> set (sv_works v)"
  using assms by (auto simp: view_inv_def queues_inv_def works_inv_def counters_ok_def)

lemma view_inv_init: "sched_init s \<Longrightarrow> view_inv (view s)"
  by (auto simp: sched_init_def view_inv_def queues_inv_def works_inv_def order_inv_def referenced_def
      queue_def config_ok_def s64_def intro: exI [of _ "[]"])

lemma view_inv_submit:
  assumes "view_inv (view t)" and "config_ok (config t)" and "sub_core_mask args \<le> cfg_core_mask (config t)"
    and "\<forall>j. je_kzalloc env = Some j \<longrightarrow> jobs t j = None" and "submit_enqueue env args t = Some (jo, u)"
  shows "view_inv (view u)"
  using assms(5)
proof (cases rule: submit_enqueue_cases)
  case no_memory
  with assms(1) show ?thesis by simp
next
  case (no_domain j J)
  with assms(1,4) not_referenced_free [of "view t" j] show ?thesis by (simp add: view_inv_private)
next
  case (queued j w)
  with assms(4) have "sv_jobs (view t) j = None" by simp
  note free = not_referenced_free [OF assms(1) this]
  have "1 \<le> cfg_num_irqs (config t)" using assms(2) by (simp add: config_ok_def)
  then have "rknpu_schedule_core_index t < num_cores (view t)" using schedule_core_index_less by simp
  with queued_job_ready [of "view t" args] assms(2,3) free view_inv_private [OF assms(1) free(1)]
  show ?thesis using view_enqueue [OF queued(4)] queued(3) by (auto intro: view_inv_enqueue)
qed

lemma step_irq:
  assumes "rknpu_irq_handler env i t = Some u" and "view_inv (view t)" and "i < cfg_num_irqs (config t)"
  shows "view u = (case irq_completes env i t of
           None \<Rightarrow> (if subcore_job (subcore_datas t i) = None then a_next i (view t) else view t)
         | Some j \<Rightarrow> a_complete i j (view t))"
  using view_irq [OF assms(1)]
  by (auto simp: irq_completes_def split: option.splits bind_splits if_splits)

lemma irq_completes_Some:
  assumes "irq_completes env i t = Some j"
  shows "sv_running (view t) i = Some j" and "\<exists>V. sv_jobs (view t) j = Some V"
  using assms by (auto simp: irq_completes_def bind_eq_Some_conv split: if_splits)

lemma run_inv: "sched_run s enq fin t \<Longrightarrow> config t = config s \<and> config_ok (config s) \<and> view_inv (view t)"
proof (induction rule: sched_run.induct)
  case (init s)
  then show ?case using view_inv_init by (simp add: sched_init_def)
next
  case (submit s enq fin t args env j u J)
  have "config u = config t"
    using submit.hyps(4)
  proof (cases rule: submit_enqueue_cases)
    case (queued k w)
    have "sv_cfg (a_enqueue k (view w)) = sv_cfg (view w)" unfolding queued(3) by (rule queue_enqueue(2)) simp
    with view_enqueue [OF queued(4)] have "config u = sv_cfg (view w)" by (metis view_sel(1))
    then show ?thesis unfolding queued(3) by simp
  qed simp_all
  with submit view_inv_submit show ?case by metis
next
  case (reject s enq fin t args env u)
  have "config u = config t"
    using reject.hyps(4)
    by (cases rule: submit_enqueue_cases) (auto dest: arg_cong [where f = sv_cfg])
  with reject view_inv_submit show ?case by metis
next
  case (start_next s enq fin t i env u)
  have "config u = config t" using arg_cong [OF view_next [OF start_next.hyps(3)], of sv_cfg] by simp
  with start_next view_inv_next [of "view t" i] show ?case by (simp add: view_next)
next
  case (irq s enq fin t i env u)
  then have "view_inv (view u) \<and> sv_cfg (view u) = sv_cfg (view t)"
    using step_irq [of env i t u] view_inv_next [of "view t" i] view_inv_complete [of "view t" i]
      irq_completes_Some [of env i t] queue_complete(2) [of "view t" i]
    by (auto split: option.splits)
  with irq show ?case by simp
next
  case (cleanup s enq fin t j env u)
  have "config u = config t"
    using arg_cong [OF view_cleanup [OF cleanup.hyps(3)], of sv_cfg] by (simp add: a_cleanup_def)
  with cleanup view_inv_cleanup [of "view t" j] show ?case by (simp add: view_cleanup)
qed

section \<open>Order and progress\<close>

lemma run_fifo:
  "sched_run s enq fin t \<Longrightarrow> enq i = fin i @ queue (view t) i"
proof (induction rule: sched_run.induct)
  case (init s)
  then show ?case by (simp add: sched_init_def queue_def)
next
  case (submit s enq fin t args env j u J)
  from submit.hyps(4) show ?case
  proof (cases rule: submit_enqueue_cases)
    case (queued k w)
    let ?J = "queued_job env args (rknpu_schedule_core_index t)"
    have k: "k = j" using queued(1) by simp
    have jw: "sv_jobs (view w) j = Some (view_job ?J)" unfolding queued(3) k by simp
    note q = queue_enqueue [OF jw]
    have vu: "view u = a_enqueue j (view w)" using view_enqueue [OF queued(4)] k by simp
    have "sv_jobs (view u) j = Some (view_job ?J)" unfolding vu q(3) by (rule jw)
    then have "job_args J = job_args ?J" using submit.hyps(5) by (metis option.inject option.simps(9) view_job_sel(1) view_sel(6))
    moreover have "config u = config w" using q(2) vu by (metis view_sel(1))
    ultimately have "set (view_cores (view w) (view_job ?J)) =
        set (mask_cores (cfg_num_irqs (config u)) (sub_core_mask (job_args J)))"
      by (simp add: view_cores_def)
    moreover have "queue (view w) i = queue (view t) i" unfolding queued(3) by (simp add: queue_def)
    ultimately show ?thesis using submit.IH by (simp add: vu q(1))
  qed simp_all
next
  case (reject s enq fin t args env u)
  from reject.hyps(4) have "queue (view u) i = queue (view t) i"
    by (cases rule: submit_enqueue_cases) (simp_all add: queue_def)
  with reject.IH show ?case by simp
next
  case (start_next s enq fin t k env u)
  then show ?case by (simp add: view_next)
next
  case (irq s enq fin t k env u)
  show ?case
  proof (cases "irq_completes env k t")
    case None
    with irq step_irq [of env k t u] run_inv [OF irq.hyps(1)] show ?thesis by simp
  next
    case (Some j)
    note c = irq_completes_Some [OF this]
    from c(2) obtain V where V: "sv_jobs (view t) j = Some V" ..
    have "view u = a_complete k j (view t)" using irq Some step_irq [of env k t u] run_inv [OF irq.hyps(1)] by simp
    with irq.IH Some queue_complete(1) [OF c(1) V] c(1) show ?thesis by (auto simp: queue_def)
  qed
next
  case (cleanup s enq fin t j env u)
  then show ?case by (simp add: view_cleanup a_cleanup_def queue_def)
qed

lemma subseq_set: "subseq xs ys \<Longrightarrow> set xs \<subseteq> set ys"
  by (auto elim: list_emb_set)

text \<open>The first job in the common order is at the head of all its queues.\<close>

lemma first_job_leads:
  assumes "view_inv v" and "referenced v j0"
  obtains j where "referenced v j" "\<And>i. i < num_cores v \<Longrightarrow> j \<in> set (queue v i) \<Longrightarrow> hd (queue v i) = j"
proof -
  from assms(1) obtain g where g: "distinct g" "\<And>i. i < num_cores v \<Longrightarrow> subseq (queue v i) g"
    by (auto simp: view_inv_def order_inv_def)
  define h where "h = filter (referenced v) g"
  have sub: "subseq (queue v i) h" if "i < num_cores v" for i
  proof -
    have "filter (referenced v) (queue v i) = queue v i"
      using that by (auto simp: filter_id_conv referenced_def)
    then show ?thesis using g(2) [OF that] subseq_filter [of "queue v i" g "referenced v"] by (simp add: h_def)
  qed
  from assms(2) obtain i0 where "i0 < num_cores v" "j0 \<in> set (queue v i0)" by (auto simp: referenced_def)
  with sub have "j0 \<in> set h" using subseq_set by blast
  then obtain j h' where h: "h = j # h'" by (cases h) auto
  have "distinct h" "\<forall>x\<in>set h. referenced v x" using g(1) by (simp_all add: h_def)
  then have "referenced v j" "j \<notin> set h'" using h by simp_all
  moreover have "hd (queue v i) = j" if "i < num_cores v" "j \<in> set (queue v i)" for i
  proof (cases "queue v i")
    case (Cons a r)
    with sub [OF that(1)] h have "a = j \<or> subseq (a # r) h'" by (auto elim: list_emb.cases split: if_splits)
    with Cons that(2) \<open>j \<notin> set h'\<close> show ?thesis using subseq_set by fastforce
  qed (use that in simp)
  ultimately show thesis by (intro that)
qed

lemma gang_leader:
  assumes "view_inv v" and "referenced v j0"
    and "\<And>i. i < num_cores v \<Longrightarrow> sv_running v i = None \<Longrightarrow> sv_todo v i = []"
  obtains j where "referenced v j" "waiting v j = 0"
    "\<And>i. i < num_cores v \<Longrightarrow> j \<in> set (queue v i) \<Longrightarrow> sv_running v i = Some j"
proof -
  obtain j where j: "referenced v j" "\<And>i. i < num_cores v \<Longrightarrow> j \<in> set (queue v i) \<Longrightarrow> hd (queue v i) = j"
    using first_job_leads [OF assms(1,2)] by metis
  have run: "sv_running v i = Some j" if "i < num_cores v" "j \<in> set (queue v i)" for i
    using that j(2) [OF that] assms(3) [OF that(1)] by (cases "sv_running v i") (auto simp: queue_def)
  moreover have "waiting v j = 0"
  proof -
    have "j \<notin> set (sv_todo v i)" if "i < num_cores v" for i
    proof
      assume "j \<in> set (sv_todo v i)"
      then have "sv_running v i = Some j" using run that by (simp add: queue_def)
      moreover have "distinct (queue v i)" using assms(1) that by (simp add: view_inv_def queues_inv_def)
      ultimately show False using \<open>j \<in> set (sv_todo v i)\<close> by (simp add: queue_def)
    qed
    then have "{i. i < num_cores v \<and> j \<in> set (sv_todo v i)} = {}" by auto
    then show ?thesis by (simp add: waiting_def)
  qed
  ultimately show thesis using that [of j] j(1) by blast
qed

section \<open>A sample execution\<close>

definition sample_env :: job_env where
  "sample_env = \<lparr>je_gem = gem_env_ok, je_reset = reset_env_ok,
     je_fence = \<lparr>fence_kzalloc = Some 50, unused_fd = 3, sync_file_ok = True\<rparr>, je_iommu = env_example,
     je_kzalloc = Some 7, je_now = 1000, je_read = (\<lambda>i off. 0x300), je_in_fence = None,
     je_others = (\<lambda>k s. Some s), je_jiffies_left = (\<lambda>k. 0), je_wait_now = (\<lambda>k. 1000)\<rparr>"

lemma task_device_init: "sched_init task_device"
  using soc_configs_ok by (simp add: sched_init_def task_device_def sample_device_def idle_subcore_def)

text \<open>
  A non-blocking job on cores 0 and 1 is queued on an idle device, and both cores take it up. (It lacks
  the flag \<open>RKNPU_JOB_PC\<close>, so that committing it touches few registers.)
\<close>

lemma sample_run:
  obtains w J where "sched_run task_device (\<lambda>i. if i = 0 \<or> i = 1 then [7] else []) (\<lambda>i. []) w"
    "jobs w 7 = Some J" "job_run_count J = 0" "cfg_num_irqs (config w) = 3"
    "subcore_job (subcore_datas w 0) = Some 7" "subcore_job (subcore_datas w 1) = Some 7"
    "subcore_job (subcore_datas w 2) = None" "todo_list (subcore_datas w 2) = []"
proof -
  let ?run = "do { (jo, u) \<leftarrow> submit_enqueue sample_env (small_args 2 3) task_device;
                   v \<leftarrow> rknpu_job_next sample_env 0 u; w \<leftarrow> rknpu_job_next sample_env 1 v; Some (jo, u, v, w) }"
  have "map_option (\<lambda>(jo, u, v, w). (jo, map_option (\<lambda>J. sub_core_mask (job_args J)) (jobs u 7),
      map_option job_run_count (jobs w 7), subcore_job (subcore_datas w 0), subcore_job (subcore_datas w 1),
      subcore_job (subcore_datas w 2), todo_list (subcore_datas w 2), cfg_num_irqs (config u),
      cfg_num_irqs (config v), cfg_num_irqs (config w))) ?run =
      Some (Some 7, Some 3, Some 0, Some 7, Some 7, None, [], 3, 3, 3)" by code_simp
  then obtain u v w J J' where u: "submit_enqueue sample_env (small_args 2 3) task_device = Some (Some 7, u)"
    and v: "rknpu_job_next sample_env 0 u = Some v" and w: "rknpu_job_next sample_env 1 v = Some w"
    and J: "jobs u 7 = Some J" "sub_core_mask (job_args J) = 3"
    and n: "cfg_num_irqs (config u) = 3" "cfg_num_irqs (config v) = 3" "cfg_num_irqs (config w) = 3"
    and fin: "jobs w 7 = Some J'" "job_run_count J' = 0"
      "subcore_job (subcore_datas w 0) = Some 7" "subcore_job (subcore_datas w 1) = Some 7"
      "subcore_job (subcore_datas w 2) = None" "todo_list (subcore_datas w 2) = []"
    by (auto simp: bind_eq_Some_conv split: prod.splits)
  have m: "sub_core_mask (small_args 2 3) \<le> cfg_core_mask (config task_device)"
    by (simp add: small_args_def task_device_def sample_device_def rk3588_rknpu_config_def)
  have f: "\<forall>j. je_kzalloc sample_env = Some j \<longrightarrow> jobs task_device j = None"
    by (simp add: task_device_def sample_device_def)
  have "(\<lambda>i. if i \<in> set (mask_cores (cfg_num_irqs (config u)) (sub_core_mask (job_args J)))
             then [] @ [7 :: job_ptr] else []) = (\<lambda>i. if i = 0 \<or> i = 1 then [7] else [])"
    by (simp add: J n fun_eq_iff)
  with sched_run.submit [OF sched_run.init [OF task_device_init] m f u J(1)]
  have "sched_run task_device (\<lambda>i. if i = 0 \<or> i = 1 then [7] else []) (\<lambda>i. []) u" by simp
  from sched_run.start_next [OF sched_run.start_next [OF this _ v] _ w] n
  have "sched_run task_device (\<lambda>i. if i = 0 \<or> i = 1 then [7] else []) (\<lambda>i. []) w" by simp
  then show thesis by (rule that [OF _ fin(1,2) n(3) fin(3-6)])
qed

section \<open>Properties\<close>







end
