(* ===== verification/Rknpu_Faults.thy ===== *)
theory Rknpu_Faults
  imports Rknpu_Progress
begin

text \<open>
  The error paths of submission: what an early failure leaves behind, and where aborting, waiting and the
  clean-up of timed-out jobs go wrong.
\<close>

section \<open>Frames\<close>

lemma job_free_result:
  assumes "rknpu_job_free env j s = Some t"
  shows "jobs t j = None" and "subcore_datas t = subcore_datas s" and "config t = config s" and "rst t = rst s"
proof -
  have put: "put_fence fo a = Some b \<Longrightarrow> sched_frame a b" for fo a b
    by (auto simp: put_fence_def sched_frame_def fence_put_frame split: option.splits)
  from assms obtain u where "sched_frame s u" and "t = u\<lparr>jobs := (jobs u)(j := None)\<rparr>"
    by (auto simp: rknpu_job_free_def bind_eq_Some_conv split: if_splits
        intro: sched_frame_trans dest!: put sched_frame_object_put)
  then show "jobs t j = None" "subcore_datas t = subcore_datas s" "config t = config s" "rst t = rst s"
    by (auto simp: sched_frame_def)
qed

text \<open>Aborting never takes a job out of a queue, and gives up the slot only of a core without an interrupt.\<close>

lemma abort_result:
  assumes "rknpu_job_abort env j s = Some t" and "jobs s j = Some J"
  shows "jobs t j = None" and "todo_list (subcore_datas t i) = todo_list (subcore_datas s i)"
    and "job_irq_entry J i \<Longrightarrow> subcore_job (subcore_datas t i) = subcore_job (subcore_datas s i)"
proof -
  from assms obtain u v where
    u: "for_each (mask_cores (cfg_num_irqs (config s)) (sub_core_mask (job_args J))) (abort_core j) (dev_domain_put s) = Some u"
    and v: "(if job_ret J = - ETIMEDOUT then map_option snd (rknpu_soft_reset (je_reset env) u) else Some u) = Some v"
    and t: "rknpu_job_free env j v = Some t"
    by (auto simp: rknpu_job_abort_def rknpu_job_cleanup_def Let_def bind_eq_Some_conv)
  have "jobs u = jobs s \<and> todo_list (subcore_datas u i) = todo_list (subcore_datas s i) \<and>
      (job_irq_entry J i \<longrightarrow> subcore_job (subcore_datas u i) = subcore_job (subcore_datas s i))"
  proof (rule for_each_inv [OF u, where P = "\<lambda>w. jobs w = jobs s \<and>
      todo_list (subcore_datas w i) = todo_list (subcore_datas s i) \<and>
      (job_irq_entry J i \<longrightarrow> subcore_job (subcore_datas w i) = subcore_job (subcore_datas s i))"])
    fix k w w' assume "jobs w = jobs s \<and> todo_list (subcore_datas w i) = todo_list (subcore_datas s i) \<and>
      (job_irq_entry J i \<longrightarrow> subcore_job (subcore_datas w i) = subcore_job (subcore_datas s i))"
      and "abort_core j k w = Some w'"
    with assms(2) show "jobs w' = jobs s \<and> todo_list (subcore_datas w' i) = todo_list (subcore_datas s i) \<and>
      (job_irq_entry J i \<longrightarrow> subcore_job (subcore_datas w' i) = subcore_job (subcore_datas s i))"
      by (auto simp: abort_core_def split: if_splits)
  qed simp
  moreover have "todo_list (subcore_datas v i) = todo_list (subcore_datas u i) \<and>
      subcore_job (subcore_datas v i) = subcore_job (subcore_datas u i)"
  proof (cases "job_ret J = - ETIMEDOUT")
    case True
    with v obtain r where "rknpu_soft_reset (je_reset env) u = Some (r, v)" by auto
    from soft_reset_frame(7) [OF this, of i] show ?thesis
      unfolding same_subcore_def by (metis rknpu_subcore_data.ext_inject rknpu_subcore_data.surjective
          rknpu_subcore_data.update_convs(2))
  qed (use v in simp)
  ultimately show "jobs t j = None" "todo_list (subcore_datas t i) = todo_list (subcore_datas s i)"
    "job_irq_entry J i \<Longrightarrow> subcore_job (subcore_datas t i) = subcore_job (subcore_datas s i)"
    using job_free_result [OF t] by simp_all
qed

section \<open>Early failures\<close>

lemma submit_fences_failure:
  assumes "has (sub_flags args) RKNPU_JOB_FENCE_IN \<and> fence_in env \<noteq> 0 \<or>
         has (sub_flags args) RKNPU_JOB_FENCE_OUT \<and> fence_kzalloc (je_fence env) = None"
  obtains e fd where "submit_fences env j args s = Some (e, args\<lparr>sub_fence_fd := fd\<rparr>, s)" and "e \<noteq> 0"
proof (cases "has (sub_flags args) RKNPU_JOB_FENCE_IN \<and> fence_in env \<noteq> 0")
  case True
  then show thesis
    by (intro that [of "fence_in env" "if je_in_fence env = None then sub_fence_fd args else - 1"])
       (simp_all add: submit_fences_def)
next
  case False
  with assms show thesis
    by (intro that [of "- ENOMEM" "if has (sub_flags args) RKNPU_JOB_FENCE_IN then - 1 else sub_fence_fd args"])
       (auto simp: submit_fences_def rknpu_fence_alloc_def Let_def)
qed

text \<open>Freeing a job that was only allocated undoes the allocation.\<close>

lemma alloc_free:
  assumes "je_kzalloc env = Some j" and "jobs s j = None"
    and "sub_task_obj_addr args = 0 \<or> (\<exists>ob. gem_objs s (sub_task_obj_addr args) = Some ob \<and> 1 \<le> obj_refcount ob)"
  obtains s1 where "rknpu_job_alloc env args s = Some (Some j, s1)" "jobs s1 j = Some (new_job (je_now env) args)"
    "\<forall>J. sub_task_obj_addr (job_args J) = sub_task_obj_addr args \<and> job_fence J = None \<longrightarrow>
         rknpu_job_free env j (s1\<lparr>jobs := (jobs s1)(j \<mapsto> J)\<rparr>) = Some s"
proof (cases "CONFIG_ROCKCHIP_RKNPU_DRM_GEM (build s) \<longrightarrow> sub_task_obj_addr args = 0")
  case True
  have "(jobs s)(j := None) = jobs s" using assms(2) by (simp add: fun_upd_idem)
  with True assms(1) show thesis
    by (intro that [of "s\<lparr>jobs := (jobs s)(j \<mapsto> new_job (je_now env) args)\<rparr>"])
       (auto simp: rknpu_job_alloc_def rknpu_job_free_def put_fence_def)
next
  case False
  with assms(3) obtain ob where ob: "gem_objs s (sub_task_obj_addr args) = Some ob" "1 \<le> obj_refcount ob" by auto
  have id: "(jobs s)(j := None) = jobs s" using assms(2) by (simp add: fun_upd_idem)
  have ob': "ob\<lparr>obj_refcount := obj_refcount ob\<rparr> = ob" by simp
  have idg: "(gem_objs s)(sub_task_obj_addr args \<mapsto> ob) = gem_objs s" using ob(1) by (simp add: fun_upd_idem)
  from False ob assms(1) show thesis
    by (intro that [of "s\<lparr>jobs := (jobs s)(j \<mapsto> new_job (je_now env) args),
           gem_objs := (gem_objs s)(sub_task_obj_addr args \<mapsto> ob\<lparr>obj_refcount := obj_refcount ob + 1\<rparr>)\<rparr>"])
       (simp_all add: rknpu_job_alloc_def rknpu_job_free_def put_fence_def rknpu_gem_object_get_def
         rknpu_gem_object_put_def upd_gem_def id ob' idg)
qed

section \<open>Waiting without progress\<close>

lemma wait_loop_idle:
  assumes "\<forall>k s. je_others env k s = Some s" and "job_wait_loop env k j s = Some (r, u)"
  shows "u = s \<and> 0 \<le> r"
  using assms
proof (induction env k j s rule: job_wait_loop.induct)
  case (1 env k j s)
  from 1(3) obtain r' J where r': "wait_result env k j s = Some r'" and J: "jobs s j = Some J"
    by (subst (asm) job_wait_loop.simps) (auto simp: 1(2) bind_eq_Some_conv)
  have "0 \<le> r'" using r' J by (auto simp: wait_result_def)
  moreover have "u = s \<and> r = r' \<or> job_wait_loop env (k + 1) j s = Some (r, u) \<and> k + 1 < 3"
    using 1(3) by (subst (asm) job_wait_loop.simps) (auto simp: 1(2) r' J Let_def split: if_splits)
  ultimately show ?case
    using 1(1) [OF _ r' J refl] 1(2,3) by (subst (asm) job_wait_loop.simps) (auto simp: r' J Let_def split: if_splits)
qed

lemma wait_unlink_other:
  assumes "wait_unlink j k s = Some t" and "i \<noteq> k"
  shows "subcore_datas t i = subcore_datas s i"
  using assms
  by (auto simp: wait_unlink_def unlink_entry_def upd_job_eq_Some Let_def split: if_splits)

lemma wait_unlink_job:
  assumes "wait_unlink j k s = Some t" and "jobs s j = Some J"
  shows "\<exists>J'. jobs t j = Some J' \<and> job_args J' = job_args J"
  using assms
  by (auto simp: wait_unlink_def unlink_entry_def upd_job_eq_Some Let_def split: if_splits)

section \<open>Properties\<close>



text \<open>
  C31: a job that is aborted after an interrupt leaves a dangling pointer. When the job being aborted occupies
  a core that has already delivered an interrupt for it (a chunk of a longer job, or an interrupt with
  an unexpected status), the core keeps pointing to the job, which is freed, and the core's next
  interrupt accesses freed memory.
\<close>

theorem abort_after_irq_dangles:
  assumes "jobs s j = Some J" and "job_irq_entry J i" and "subcore_job (subcore_datas s i) = Some j"
    and "rknpu_job_abort env j s = Some t"
  shows "subcore_job (subcore_datas t i) = Some j \<and> jobs t j = None \<and> rknpu_irq_handler env' i t = None"
  using abort_result [OF assms(4,1)] assms(2,3)
  by (simp add: rknpu_irq_handler_def upd_job_def)

definition irq_job_device :: rknpu_device where
  "irq_job_device = task_device\<lparr>jobs := [7 \<mapsto> (new_job 0 (small_args RKNPU_JOB_PC 1))\<lparr>job_irq_entry := (\<lambda>i. True)\<rparr>],
     subcore_datas := (subcore_datas task_device)(0 := idle_subcore\<lparr>subcore_job := Some 7, task_num := 8\<rparr>)\<rparr>"

theorem abort_after_irq_dangles_witness:
  "\<exists>t. rknpu_job_abort sample_env 7 irq_job_device = Some t \<and> rknpu_irq_handler sample_env 0 t = None"
proof -
  have "map_option (\<lambda>t. ()) (rknpu_job_abort sample_env 7 irq_job_device) = Some ()" by code_simp
  then obtain t where t: "rknpu_job_abort sample_env 7 irq_job_device = Some t" by auto
  with abort_after_irq_dangles [OF _ _ _ t, of _ 0 sample_env] show ?thesis
    by (simp add: irq_job_device_def)
qed

text \<open>
  C32: a job that waited in vain for core 1 or 2 is freed while still queued. When the wait ends without the
  job having been committed, \<open>rknpu_job_wait\<close> searches the queues of the first \<open>use_core_num\<close> cores, not
  those of the job's mask; the abort then frees the job, and when the core gets to it, it accesses
  freed memory.
\<close>

theorem wait_forgets_core:
  assumes "jobs s j = Some J" and "sub_core_mask (job_args J) = rknpu_core_mask i" and "i = 1 \<or> i = 2"
    and "job_use_core_num J = 1" and "job_last_task J = None" and "todo_list (subcore_datas s i) = js"
    and "\<forall>k s. je_others env k s = Some s"
    and "rknpu_job_wait env j s = Some (ret, u)" and "rknpu_job_abort env j u = Some t"
  shows "ret = - EINVAL \<and> todo_list (subcore_datas t i) = js \<and> jobs t j = None \<and>
         (hd js = j \<and> js \<noteq> [] \<and> subcore_job (subcore_datas t i) = None \<and> \<not> soft_reseting (rst t)
            \<longrightarrow> rknpu_job_next env' i t = None)"
proof -
  from assms(1,8) obtain r v where v: "job_wait_loop env 0 j s = Some (r, v)"
    by (auto simp: rknpu_job_wait_def bind_eq_Some_conv Let_def)
  note idle = wait_loop_idle [OF assms(7) v]
  with assms v have u: "ret = - EINVAL" "wait_unlink j 0 s = Some u"
    by (auto simp: rknpu_job_wait_def Let_def bind_eq_Some_conv)
  have td: "subcore_datas u i = subcore_datas s i" using wait_unlink_other [OF u(2)] assms(3) by auto
  obtain J' where "jobs u j = Some J'" using wait_unlink_job [OF u(2) assms(1)] by auto
  note ab = abort_result [OF assms(9) this]
  have "rknpu_job_next env' i t = None"
    if "hd js = j" "js \<noteq> []" "subcore_job (subcore_datas t i) = None" "\<not> soft_reseting (rst t)"
  proof -
    note h = that
    then obtain ks where "todo_list (subcore_datas t i) = j # ks" using ab(2) td assms(6) by (cases js) auto
    with h(3,4) ab(1) show ?thesis
      by (simp add: rknpu_job_next_def next_take_def unlink_entry_def upd_job_def)
  qed
  with u(1) ab td assms(6) show ?thesis by simp
qed

text \<open>
  C33: the clean-up of timed-out jobs crashes on devices with several cores. A job that runs on one core was
  never linked into the queue of the others, so its list heads there are still zero;
  \<open>rknpu_job_timeout_clean\<close> takes them for linked entries and unlinks them, following a null pointer.
\<close>

theorem timeout_clean_faults:
  assumes "i < cfg_num_irqs (config s)" and "cfg_num_irqs (config s) \<le> RKNPU_MAX_CORES"
    and "subcore_job (subcore_datas s i) = Some j" and "jobs s j = Some J"
    and "uint (sub_timeout (job_args J)) \<le> us_delta (je_now env) (job_timestamp J)"
    and "k < cfg_num_irqs (config s)" and "job_head J k = Node_Zero"
  shows "rknpu_job_timeout_clean env (rknpu_core_mask i) s = None"
proof -
  let ?P = "\<lambda>t. (\<exists>J'. jobs t j = Some J' \<and> job_head J' k = Node_Zero) \<and> cfg_num_irqs (config t) = cfg_num_irqs (config s)"
  have step: "?P t'" if "x \<noteq> k" "?P t" "timeout_clear j x t = Some t'" for x t t'
    using that by (auto simp: timeout_clear_def unlink_node_def unlink_entry_def upd_job_eq_Some
        bind_eq_Some_conv Let_def split: if_splits list_node.splits)
  have here: "timeout_clear j k t = None" if "?P t" for t
    using that by (auto simp: timeout_clear_def unlink_node_def Let_def)
  have loop: "for_each [0..<cfg_num_irqs (config t)] (timeout_clear j) t = None" if "?P t" for t
  proof (rule for_each_fault [where k = k and P = ?P])
    show "k \<in> set [0..<cfg_num_irqs (config t)]" using that assms(6) by simp
    show "?P t" by (rule that)
    show "timeout_clear j k u = None" if "?P u" for u using that by (rule here)
    show "?P v" if "x \<noteq> k" "?P u" "timeout_clear j x u = Some v" for x u v using that by (rule step)
  qed
  have "timeout_core env i s = None"
  proof (cases "rknpu_soft_reset (je_reset env) s")
    case None
    then show ?thesis using assms(3,4,5) by (simp add: timeout_core_def)
  next
    case (Some rt)
    obtain r t where rt: "rt = (r, t)" by fastforce
    with Some have "?P t" using soft_reset_frame assms(4,7) by fastforce
    from loop [OF this] show ?thesis using Some rt assms(3,4,5)
      by (simp add: timeout_core_def del: timeout_drain.simps)
  qed
  then show ?thesis
    using mask_cores_single [OF assms(1,2)] by (simp add: rknpu_job_timeout_clean_def)
qed

theorem timeout_clean_faults_witness:
  "rknpu_job_timeout_clean (sample_env\<lparr>je_now := 10000000\<rparr>) 1 irq_job_device = None"
proof -
  have "rknpu_job_timeout_clean (sample_env\<lparr>je_now := 10000000\<rparr>) (rknpu_core_mask 0) irq_job_device = None"
    by (rule timeout_clean_faults [where j = 7 and k = 1 and
            J = "(new_job 0 (small_args RKNPU_JOB_PC 1))\<lparr>job_irq_entry := (\<lambda>i. True)\<rparr>"])
       (simp_all add: irq_job_device_def task_device_def sample_device_def rk3588_rknpu_config_def
         new_job_def small_args_def us_delta_def cdiv_def sample_env_def)
  then show ?thesis by (simp add: rknpu_core_mask_def)
qed

definition queued_device :: rknpu_device where
  "queued_device = task_device\<lparr>
     jobs := [5 \<mapsto> new_job 0 (small_args RKNPU_JOB_PC 2), 7 \<mapsto> new_job 0 (small_args RKNPU_JOB_PC 2)],
     gem_objs := [0x1000 \<mapsto> zero_gem_object\<lparr>obj_refcount := 3\<rparr>],
     subcore_datas := (subcore_datas task_device)(1 := idle_subcore\<lparr>todo_list := [7], subcore_job := Some 5\<rparr>)\<rparr>"

theorem wait_forgets_core_witness:
  "\<exists>ret u t. rknpu_job_wait sample_env 7 queued_device = Some (ret, u) \<and>
     rknpu_job_abort sample_env 7 u = Some t \<and> todo_list (subcore_datas t 1) = [7] \<and> jobs t 7 = None"
proof -
  let ?run = "do { (ret, u) \<leftarrow> rknpu_job_wait sample_env 7 queued_device;
                   t \<leftarrow> rknpu_job_abort sample_env 7 u; Some (ret, u, t) }"
  have "map_option (\<lambda>r. ()) ?run = Some ()" by code_simp
  then obtain ret u t where r: "rknpu_job_wait sample_env 7 queued_device = Some (ret, u)"
    "rknpu_job_abort sample_env 7 u = Some t"
    by (auto simp: bind_eq_Some_conv split: prod.splits)
  with wait_forgets_core [OF _ _ _ _ _ refl _ r, of "new_job 0 (small_args RKNPU_JOB_PC 2)" 1] show ?thesis
    by (simp add: queued_device_def new_job_def small_args_def rknpu_core_mask_def mask_core_count_def
        sample_env_def)
qed

end
