(* ===== verification/Rknpu_Gem_Map.thy ===== *)
theory Rknpu_Gem_Map
  imports Rknpu_Gem
begin

text \<open>
  What user space does with a buffer object (\<open>rknpu_gem.c\<close>): cache maintenance (the sync ioctl), mapping
  the buffer into an address space, page faults, and the prime hooks.

  The cache operations issued by a sync are returned as a list, in program order; a virtual memory area
  carries the list of the mappings made in it. The theory shows that a sync touches exactly the bytes
  that were asked for, that mapping a page-backed buffer stays inside its page array, and where the
  paths for on-chip memory leave the area.
\<close>

section \<open>Model\<close>

subsection \<open>Cache maintenance\<close>

text \<open>
  \<open>dma_sync_single_range_for_device\<close> and \<open>\<dots>_for_cpu\<close> (bus address, offset, size), and the data-cache
  operations on a range of virtual addresses (start, end), in the variant for kernels from 6.1 on.
\<close>

datatype sync_op =
    Sync_For_Device u64 u64 u64
  | Sync_For_Cpu u64 u64 u64
  | Dcache_Clean u64 u64
  | Dcache_Inval u64 u64

definition cache_ops :: "u32 \<Rightarrow> u64 \<Rightarrow> u64 \<Rightarrow> sync_op list" where
  "cache_ops dir cache_start cache_length =
    (if has dir RKNPU_MEM_SYNC_TO_DEVICE then [Dcache_Clean cache_start (cache_start + cache_length)] else []) @
    (if has dir RKNPU_MEM_SYNC_FROM_DEVICE then [Dcache_Inval cache_start (cache_start + cache_length)] else [])"

definition dma_ops :: "u32 \<Rightarrow> u64 \<Rightarrow> u64 \<Rightarrow> u64 \<Rightarrow> sync_op list" where
  "dma_ops dir addr off sz =
    (if has dir RKNPU_MEM_SYNC_TO_DEVICE then [Sync_For_Device addr off sz] else []) @
    (if has dir RKNPU_MEM_SYNC_FROM_DEVICE then [Sync_For_Cpu addr off sz] else [])"

text \<open>The loop over the segments of the on-chip buffer; the results are the operations and the two in-out arguments.\<close>

fun sync_cache_segs ::
    "u32 \<Rightarrow> u64 \<Rightarrow> u64 \<Rightarrow> u64 \<Rightarrow> cache_segment list \<Rightarrow> sync_op list \<times> u64 \<times> u64" where
  "sync_cache_segs dir base len off [] = ([], len, off)"
| "sync_cache_segs dir base len off (seg # segs) =
    (let fits = off + len \<le> seg_length seg;
         cache_length = (if fits then len else seg_length seg - off);
         ops = cache_ops dir (base + seg_offset seg) cache_length;
         len = (if fits then 0 else len - cache_length) in
     if len = 0 then (ops, 0, 0)
     else let (ops', len, off) = sync_cache_segs dir base len 0 segs in (ops @ ops', len, off))"

definition rknpu_cache_sync_with_sg ::
    "u32 \<Rightarrow> rknpu_gem_object \<Rightarrow> u64 \<Rightarrow> u64 \<Rightarrow> rknpu_device \<Rightarrow> (sync_op list \<times> u64 \<times> u64) option" where
  "rknpu_cache_sync_with_sg dir ob len off s =
    do { segs \<leftarrow> cache_sgt s (cache_sgt_index (obj_core_mask ob));
         Some (sync_cache_segs dir (nbuf_base_io s) len off segs) }"

definition rknpu_cache_sync ::
    "rknpu_cache_type \<Rightarrow> u32 \<Rightarrow> rknpu_gem_object \<Rightarrow> u64 \<Rightarrow> u64 \<Rightarrow> rknpu_device
      \<Rightarrow> (sync_op list \<times> u64 \<times> u64) option" where
  "rknpu_cache_sync cache_type dir ob len off s =
    do { (cache_start, cache_size) \<leftarrow>
           (case cache_type of
              RKNPU_CACHE_SRAM \<Rightarrow>
                do { so \<leftarrow> obj_sram_obj ob; mm \<leftarrow> sram_mm s;
                     Some (sram_base_io s + ucast (range_start so * mm_chunk_size mm), obj_sram_size ob) }
            | RKNPU_CACHE_NBUF \<Rightarrow> Some (nbuf_base_io s, obj_nbuf_size ob));
         if off \<ge> cache_size then Some ([], len, off - cache_size)
         else if \<not> obj_cache_with_sgt ob then
           (let fits = off + len \<le> cache_size;
                cache_length = (if fits then len else cache_size - off)
            in Some (cache_ops dir cache_start cache_length, if fits then 0 else len - cache_length, 0))
         else rknpu_cache_sync_with_sg dir ob len off s }"

text \<open>The loop of the sync ioctl over the physical segments; \<open>acc\<close> is the local \<open>len\<close>.\<close>

fun sync_sgl :: "u32 \<Rightarrow> u64 \<Rightarrow> u64 \<Rightarrow> u64 \<Rightarrow> scatterlist list \<Rightarrow> sync_op list" where
  "sync_sgl dir acc off len [] = []"
| "sync_sgl dir acc off len (sg # sgs) =
    (if len = 0 then []
     else
       let acc = acc + sg_length sg in
       if acc \<le> off then sync_sgl dir acc off len sgs
       else
         let sg_left = acc - off;
             sg_offset = sg_length sg - sg_left;
             sz = (if len < sg_left then len else sg_left)
         in dma_ops dir (sg_phys sg) sg_offset sz @ sync_sgl dir acc (off + sz) (len - sz) sgs)"

definition sync_on_chip ::
    "rknpu_mem_sync \<Rightarrow> rknpu_gem_object \<Rightarrow> rknpu_device \<Rightarrow> (sync_op list \<times> u64 \<times> u64) option" where
  "sync_on_chip args ob s =
    (if CONFIG_NO_GKI (build s) \<and> CONFIG_ROCKCHIP_RKNPU_SRAM (build s) \<and> obj_sram_size ob > 0
     then rknpu_cache_sync RKNPU_CACHE_SRAM (ms_flags args) ob (ms_size args) (ms_offset args) s
     else if CONFIG_NO_GKI (build s) \<and> obj_nbuf_size ob > 0
     then rknpu_cache_sync RKNPU_CACHE_NBUF (ms_flags args) ob (ms_size args) (ms_offset args) s
     else Some ([], ms_size args, ms_offset args))"

definition rknpu_gem_sync_ioctl ::
    "iommu_env \<Rightarrow> rknpu_mem_sync \<Rightarrow> rknpu_device \<Rightarrow> (int \<times> sync_op list \<times> rknpu_device) option" where
  "rknpu_gem_sync_ioctl env args s =
    (if ms_obj_addr args = 0 then Some (- EINVAL, [], s)
     else do {
       ob \<leftarrow> gem_objs s (ms_obj_addr args);
       if \<not> has (obj_flags ob) RKNPU_MEM_CACHEABLE then Some (- EINVAL, [], s)
       else do {
         let (ret, s) = dev_domain_get env (obj_iommu_domain_id ob) s;
         if ret \<noteq> 0 then Some (- EINVAL, [], s)
         else do {
           ops \<leftarrow> (if \<not> has (obj_flags ob) RKNPU_MEM_NON_CONTIGUOUS
                   then Some (dma_ops (ms_flags args) (obj_dma_addr ob) (ms_offset args) (ms_size args))
                   else do {
                     (ops, len, off) \<leftarrow> sync_on_chip args ob s;
                     sgt \<leftarrow> obj_sgt ob;
                     Some (ops @ sync_sgl (ms_flags args) 0 off len (take (sg_nents sgt) (sgl sgt))) });
           Some (0, ops, dev_domain_put s) } } })"

subsection \<open>Mapping into user space\<close>

text \<open>
  The kernel's answers by user address, and a virtual memory area with the mappings made in it so far: a
  page inserted with \<open>vm_insert_page\<close>, a range of frames mapped with \<open>remap_pfn_range\<close>, a DMA buffer mapped
  as a whole, or the mapping of an imported buffer by its exporter. A successful \<open>remap_pfn_range\<close> marks
  the area as a raw frame mapping.
\<close>

record mmap_env =
  insert_page_ret :: "u64 \<Rightarrow> int"
  remap_pfn_ret :: "u64 \<Rightarrow> int"
  dma_mmap_ret :: int
  drm_mmap_ret :: int
  dma_buf_mmap_ret :: int

datatype page_prot = Prot_Normal | Prot_Writecombine | Prot_Noncached

datatype vm_mapping =
    Map_Page u64 u64 \<comment> \<open>user address, frame\<close>
  | Map_Frames u64 u64 u64 \<comment> \<open>user address, first frame, size\<close>
  | Map_Dma u64 u64 u64 \<comment> \<open>user address, bus address, size\<close>
  | Map_Dmabuf u64

record vm_area =
  vm_start :: u64
  vm_end :: u64
  vm_pgoff :: u64
  vm_flags :: u64
  vm_page_prot :: page_prot
  vm_mapped :: "vm_mapping list"

abbreviation (input) VM_PFNMAP :: u64 where "VM_PFNMAP \<equiv> 0x400"
abbreviation (input) VM_IO :: u64 where "VM_IO \<equiv> 0x4000"
abbreviation (input) VM_DONTCOPY :: u64 where "VM_DONTCOPY \<equiv> 0x20000"
abbreviation (input) VM_DONTEXPAND :: u64 where "VM_DONTEXPAND \<equiv> 0x40000"
abbreviation (input) VM_DONTDUMP :: u64 where "VM_DONTDUMP \<equiv> 0x4000000"
abbreviation (input) VM_MIXEDMAP :: u64 where "VM_MIXEDMAP \<equiv> 0x10000000"

abbreviation vm_size :: "vm_area \<Rightarrow> u64" where
  "vm_size v \<equiv> vm_end v - vm_start v"

definition vm_insert_page :: "mmap_env \<Rightarrow> u64 \<Rightarrow> u64 \<Rightarrow> vm_area \<Rightarrow> int \<times> vm_area" where
  "vm_insert_page env uaddr pfn v =
    (insert_page_ret env uaddr,
     if insert_page_ret env uaddr < 0 then v else v\<lparr>vm_mapped := vm_mapped v @ [Map_Page uaddr pfn]\<rparr>)"

definition remap_pfn_range :: "mmap_env \<Rightarrow> u64 \<Rightarrow> u64 \<Rightarrow> u64 \<Rightarrow> vm_area \<Rightarrow> int \<times> vm_area" where
  "remap_pfn_range env uaddr pfn sz v =
    (remap_pfn_ret env uaddr,
     if remap_pfn_ret env uaddr \<noteq> 0 then v
     else v\<lparr>vm_flags := vm_flags v OR VM_PFNMAP OR VM_IO OR VM_DONTEXPAND OR VM_DONTDUMP,
            vm_mapped := vm_mapped v @ [Map_Frames uaddr pfn sz]\<rparr>)"

definition page_at :: "u64 list option \<Rightarrow> nat \<Rightarrow> u64 option" where
  "page_at pages k = do { ps \<leftarrow> pages; if k < length ps then Some (ps ! k) else None }"

text \<open>The loop of \<open>__vm_map_pages\<close>: \<open>n\<close> pages are left, the next one is \<open>pages[k]\<close>.\<close>

fun insert_pages :: "mmap_env \<Rightarrow> u64 list option \<Rightarrow> nat \<Rightarrow> nat \<Rightarrow> u64 \<Rightarrow> vm_area \<Rightarrow> (int \<times> vm_area) option" where
  "insert_pages env pages k 0 uaddr v = Some (0, v)"
| "insert_pages env pages k (Suc n) uaddr v =
    do { pfn \<leftarrow> page_at pages k;
         let (ret, v) = vm_insert_page env uaddr pfn v;
         if ret < 0 then Some (ret, v) else insert_pages env pages (Suc k) n (uaddr + PAGE_SIZE) v }"

definition vm_map_pages ::
    "mmap_env \<Rightarrow> u64 list option \<Rightarrow> u64 \<Rightarrow> u64 \<Rightarrow> vm_area \<Rightarrow> (int \<times> vm_area) option" where
  "vm_map_pages env pages num off v =
    (let count = drop_bit PAGE_SHIFT (vm_size v) in
     if off \<ge> num then Some (- ENXIO, v)
     else if count > num - off then Some (- ENXIO, v)
     else insert_pages env pages (unat off) (unat count) (vm_start v) v)"

definition rknpu_gem_mmap_pages ::
    "mmap_env \<Rightarrow> rknpu_gem_object \<Rightarrow> vm_area \<Rightarrow> (int \<times> vm_area) option" where
  "rknpu_gem_mmap_pages env ob v =
    vm_map_pages env (obj_pages ob) (obj_num_pages ob) (vm_pgoff v) (v\<lparr>vm_flags := vm_flags v OR VM_MIXEDMAP\<rparr>)"

fun remap_cache_segs ::
    "mmap_env \<Rightarrow> u64 \<Rightarrow> u64 \<Rightarrow> u64 \<Rightarrow> cache_segment list \<Rightarrow> vm_area \<Rightarrow> int \<times> vm_area" where
  "remap_cache_segs env nbuf len uaddr [] v = (0, v)"
| "remap_cache_segs env nbuf len uaddr (seg # segs) v =
    (let sz = (if len < seg_length seg then len else seg_length seg);
         v = v\<lparr>vm_pgoff := drop_bit PAGE_SHIFT (nbuf + seg_offset seg)\<rparr>;
         (ret, v) = remap_pfn_range env uaddr (vm_pgoff v) sz v in
     if ret \<noteq> 0 then (ret, v)
     else if len - sz = 0 then (0, v)
     else remap_cache_segs env nbuf (len - sz) (uaddr + sz) segs v)"

definition rknpu_remap_pfn_with_cache_sgt ::
    "mmap_env \<Rightarrow> rknpu_gem_object \<Rightarrow> vm_area \<Rightarrow> u64 \<Rightarrow> rknpu_device \<Rightarrow> (int \<times> vm_area) option" where
  "rknpu_remap_pfn_with_cache_sgt env ob v cache_size s =
    do { segs \<leftarrow> cache_sgt s (cache_sgt_index (obj_core_mask ob));
         Some (remap_cache_segs env (nbuf_start s) cache_size (vm_start v) segs v) }"

text \<open>The loop of \<open>rknpu_gem_mmap_cache\<close> over the DDR pages.\<close>

fun remap_ddr :: "mmap_env \<Rightarrow> u64 list option \<Rightarrow> nat \<Rightarrow> nat \<Rightarrow> u64 \<Rightarrow> vm_area \<Rightarrow> (int \<times> vm_area) option" where
  "remap_ddr env pages k 0 off v = Some (0, v)"
| "remap_ddr env pages k (Suc n) off v =
    do { pfn \<leftarrow> page_at pages k;
         let (ret, v) = remap_pfn_range env (vm_start v + off) pfn PAGE_SIZE v;
         if ret < 0 then Some (ret, v) else remap_ddr env pages (Suc k) n (off + PAGE_SIZE) v }"

definition rknpu_gem_mmap_cache ::
    "mmap_env \<Rightarrow> rknpu_cache_type \<Rightarrow> rknpu_gem_object \<Rightarrow> vm_area \<Rightarrow> rknpu_device \<Rightarrow> (int \<times> vm_area) option" where
  "rknpu_gem_mmap_cache env cache_type ob v s =
    do { (cache_start, cache_size) \<leftarrow> cache_region ob cache_type s;
         (ret, v) \<leftarrow>
           (if \<not> obj_cache_with_sgt ob
            then let v = v\<lparr>vm_pgoff := drop_bit PAGE_SHIFT cache_start\<rparr>
                 in Some (remap_pfn_range env (vm_start v) (vm_pgoff v) cache_size v)
            else rknpu_remap_pfn_with_cache_sgt env ob v cache_size s);
         if ret \<noteq> 0 then Some (- EAGAIN, v)
         else if obj_size ob = 0 then Some (0, v)
         else remap_ddr env (obj_pages ob) 0 (unat ((vm_size v - cache_size) div PAGE_SIZE)) cache_size v }"

definition rknpu_gem_mmap_buffer ::
    "mmap_env \<Rightarrow> rknpu_gem_object \<Rightarrow> vm_area \<Rightarrow> rknpu_device \<Rightarrow> (int \<times> vm_area) option" where
  "rknpu_gem_mmap_buffer env ob v s =
    (let v = v\<lparr>vm_flags := (vm_flags v OR VM_DONTCOPY OR VM_DONTEXPAND OR VM_DONTDUMP OR VM_IO) AND NOT VM_PFNMAP,
               vm_pgoff := 0\<rparr> in
     if vm_size v > obj_size ob then Some (- EINVAL, v)
     else if obj_sram_size ob > 0 then rknpu_gem_mmap_cache env RKNPU_CACHE_SRAM ob v s
     else if obj_nbuf_size ob > 0 then rknpu_gem_mmap_cache env RKNPU_CACHE_NBUF ob v s
     else if has (obj_flags ob) RKNPU_MEM_NON_CONTIGUOUS \<and> iommu_en (iommu s) then rknpu_gem_mmap_pages env ob v
     else if dma_mmap_ret env < 0 then Some (dma_mmap_ret env, v)
     else Some (0, v\<lparr>vm_mapped := vm_mapped v @ [Map_Dma (vm_start v) (obj_dma_addr ob) (obj_size ob)]\<rparr>))"

text \<open>
  \<open>rknpu_gem_mmap_obj\<close> on the object at \<open>addr\<close>: when mapping fails, \<open>drm_gem_vm_close\<close> drops the reference
  the area holds on the object.
\<close>

definition rknpu_gem_mmap_obj ::
    "gem_env \<Rightarrow> mmap_env \<Rightarrow> u64 \<Rightarrow> vm_area \<Rightarrow> rknpu_device \<Rightarrow> (int \<times> vm_area \<times> rknpu_device) option" where
  "rknpu_gem_mmap_obj genv env addr v s =
    do { ob \<leftarrow> gem_objs s addr;
         let v = v\<lparr>vm_page_prot := (if has (obj_flags ob) RKNPU_MEM_CACHEABLE then Prot_Normal
                    else if has (obj_flags ob) RKNPU_MEM_WRITE_COMBINE then Prot_Writecombine else Prot_Noncached)\<rparr>;
         (ret, v) \<leftarrow> rknpu_gem_mmap_buffer env ob v s;
         if ret \<noteq> 0 then do { s \<leftarrow> rknpu_gem_object_put genv addr s; Some (ret, v, s) }
         else Some (0, v, s) }"

text \<open>\<open>drm_gem_mmap\<close> finds the object for the area's offset and takes a reference on it.\<close>

definition rknpu_gem_mmap ::
    "gem_env \<Rightarrow> mmap_env \<Rightarrow> u64 \<Rightarrow> vm_area \<Rightarrow> rknpu_device \<Rightarrow> (int \<times> vm_area \<times> rknpu_device) option" where
  "rknpu_gem_mmap genv env addr v s =
    (if drm_mmap_ret env < 0 then Some (drm_mmap_ret env, v, s)
     else do {
       s \<leftarrow> rknpu_gem_object_get addr s;
       ob \<leftarrow> gem_objs s addr;
       if obj_import_attach ob
       then Some (dma_buf_mmap_ret env,
                  if dma_buf_mmap_ret env = 0 then v\<lparr>vm_mapped := vm_mapped v @ [Map_Dmabuf (vm_start v)]\<rparr> else v, s)
       else rknpu_gem_mmap_obj genv env addr v s })"

definition rknpu_gem_prime_mmap ::
    "gem_env \<Rightarrow> mmap_env \<Rightarrow> u64 \<Rightarrow> vm_area \<Rightarrow> rknpu_device \<Rightarrow> (int \<times> vm_area \<times> rknpu_device) option" where
  "rknpu_gem_prime_mmap genv env addr v s =
    (if drm_mmap_ret env < 0 then Some (drm_mmap_ret env, v, s)
     else do { s \<leftarrow> rknpu_gem_object_get addr s; rknpu_gem_mmap_obj genv env addr v s })"

datatype vm_fault = VM_FAULT_SIGBUS | VM_FAULT_INSERT u64 u64 \<comment> \<open>\<open>vmf_insert_mixed\<close> at an address, of a frame\<close>

definition rknpu_gem_fault :: "rknpu_gem_object \<Rightarrow> vm_area \<Rightarrow> u64 \<Rightarrow> vm_fault option" where
  "rknpu_gem_fault ob v address =
    (let page_offset = drop_bit PAGE_SHIFT (address - vm_start v) in
     if page_offset \<ge> drop_bit PAGE_SHIFT (obj_size ob) then Some VM_FAULT_SIGBUS
     else do { pfn \<leftarrow> page_at (obj_pages ob) (unat page_offset); Some (VM_FAULT_INSERT address pfn) })"

text \<open>The prime hooks: a kernel mapping of an exported buffer (in the variant for kernels from 6.1 on).\<close>

definition rknpu_gem_prime_vmap :: "u64 \<Rightarrow> rknpu_gem_object \<Rightarrow> rknpu_device \<Rightarrow> int \<times> u64 option \<times> rknpu_device" where
  "rknpu_gem_prime_vmap vaddr ob s =
    (if obj_pages ob = None then (- EINVAL, None, s)
     else if vaddr = 0 then (- ENOMEM, None, s)
     else (0, Some vaddr, acquire R_vmap s))"

definition rknpu_gem_prime_vunmap :: "rknpu_gem_object \<Rightarrow> u64 option \<Rightarrow> rknpu_device \<Rightarrow> u64 option \<times> rknpu_device" where
  "rknpu_gem_prime_vunmap ob m s =
    (if obj_pages ob \<noteq> None then (None, release R_vmap s) else (m, s))"

section \<open>The bytes a sync touches\<close>

text \<open>The bytes of a physical segment, and those an operation makes visible to the device (\<open>True\<close>) or the CPU.\<close>

definition sg_bytes :: "scatterlist \<Rightarrow> nat list" where
  "sg_bytes sg = [unat (sg_phys sg)..<unat (sg_phys sg) + unat (sg_length sg)]"

fun op_bytes :: "bool \<Rightarrow> sync_op \<Rightarrow> nat list" where
  "op_bytes True (Sync_For_Device a off n) = [unat a + unat off..<unat a + unat off + unat n]"
| "op_bytes False (Sync_For_Cpu a off n) = [unat a + unat off..<unat a + unat off + unat n]"
| "op_bytes _ _ = []"

definition synced :: "bool \<Rightarrow> sync_op list \<Rightarrow> nat list" where
  "synced dev ops = concat (map (op_bytes dev) ops)"

definition wants :: "bool \<Rightarrow> u32 \<Rightarrow> bool" where
  "wants dev dir = has dir (if dev then RKNPU_MEM_SYNC_TO_DEVICE else RKNPU_MEM_SYNC_FROM_DEVICE)"

lemma synced_Nil [simp]: "synced d [] = []"
  by (simp add: synced_def)

lemma synced_append [simp]: "synced d (xs @ ys) = synced d xs @ synced d ys"
  by (simp add: synced_def)

lemma synced_dma_ops [simp]:
  "synced d (dma_ops dir a off n) =
    (if wants d dir then [unat a + unat off..<unat a + unat off + unat n] else [])"
  by (cases d) (auto simp: synced_def dma_ops_def wants_def)

lemma sync_sgl_0 [simp]: "sync_sgl dir acc off 0 sgs = []"
  by (cases sgs) simp_all

lemma sync_sgl_unwanted: "\<not> wants d dir \<Longrightarrow> synced d (sync_sgl dir acc off len sgs) = []"
  by (induction dir acc off len sgs rule: sync_sgl.induct) (simp_all add: Let_def)

lemma unat_lt: "unat (x :: u64) < 2 ^ 64"
  using unsigned_less [of x, where 'a = nat] by simp

lemma unat_plus: "unat (a :: u64) + unat b < 2 ^ 64 \<Longrightarrow> unat (a + b) = unat a + unat b"
  by (simp add: unat_word_ariths)

lemma unat_minus: "b \<le> a \<Longrightarrow> unat (a - b :: u64) = unat a - unat b"
  by (simp add: unat_sub)

text \<open>
  The loop, started inside the segments at byte \<open>acc\<close> of the buffer with a request at \<open>off\<close>: it takes
  the requested bytes out of the remaining ones.
\<close>

lemma sync_sgl_bytes:
  assumes "wants d dir" and "acc \<le> off"
    and "unat acc + sum_list (map (\<lambda>sg. unat (sg_length sg)) sgs) < 2 ^ 64" and "unat off + unat len < 2 ^ 64"
  shows "synced d (sync_sgl dir acc off len sgs) =
         take (unat len) (drop (unat off - unat acc) (concat (map sg_bytes sgs)))"
  using assms(2-)
proof (induction sgs arbitrary: acc off len)
  case Nil
  then show ?case by simp
next
  case (Cons sg sgs)
  define l where "l = sg_length sg"
  define acc' where "acc' = acc + l"
  have acc': "unat acc' = unat acc + unat l"
    unfolding acc'_def by (rule unat_plus) (use Cons.prems(2) in \<open>simp add: l_def\<close>)
  have bound: "unat acc' + sum_list (map (\<lambda>sg. unat (sg_length sg)) sgs) < 2 ^ 64"
    using Cons.prems(2) acc' by (simp add: l_def)
  have le: "unat acc \<le> unat off" using Cons.prems(1) by (simp add: word_le_nat_alt)
  consider "len = 0" | "len \<noteq> 0" "acc' \<le> off" | "len \<noteq> 0" "off < acc'" by fastforce
  then show ?case
  proof cases
    case 1
    then show ?thesis by simp
  next
    case 2
    then have "unat acc + unat l \<le> unat off" using acc' by (simp add: word_le_nat_alt)
    with 2 Cons.IH [OF 2(2) bound Cons.prems(3)] acc' show ?thesis
      by (simp add: acc'_def [symmetric] l_def [symmetric] sg_bytes_def)
  next
    case 3
    define left where "left = acc' - off"
    define sz where "sz = (if len < left then len else left)"
    have off: "unat off < unat acc'" using 3 by (simp add: word_less_nat_alt)
    have left: "unat left = unat acc' - unat off"
      unfolding left_def by (rule unat_minus) (use 3 in simp)
    then have "left \<le> l" using le acc' by (simp add: word_le_nat_alt)
    then have o: "unat (l - left) = unat off - unat acc"
      using left acc' le off by (simp add: unat_minus)
    have sz: "unat sz = min (unat len) (unat left)"
      by (simp add: sz_def word_less_nat_alt)
    have lsz: "unat (len - sz) = unat len - unat sz"
      by (rule unat_minus) (simp add: word_le_nat_alt sz)
    have osz: "unat (off + sz) = unat off + unat sz"
      by (rule unat_plus) (use Cons.prems(3) sz in simp)
    have rest: "synced d (sync_sgl dir acc' (off + sz) (len - sz) sgs) =
        take (unat len - unat left) (concat (map sg_bytes sgs))"
    proof (cases "len < left")
      case True
      then show ?thesis by (simp add: sz_def word_less_nat_alt)
    next
      case False
      then have "off + sz = acc'" by (simp add: sz_def left_def)
      with Cons.IH [of acc' "off + sz" "len - sz"] bound lsz osz False sz Cons.prems(3) show ?thesis
        by (simp add: word_less_nat_alt min_def)
    qed
    have "\<not> acc' \<le> off" using 3(2) by simp
    with 3(1) have "sync_sgl dir acc off len (sg # sgs) =
        dma_ops dir (sg_phys sg) (l - left) sz @ sync_sgl dir acc' (off + sz) (len - sz) sgs"
      by (simp add: Let_def acc'_def [symmetric] l_def [symmetric] left_def [symmetric] sz_def [symmetric])
    moreover have "sg_bytes sg = [unat (sg_phys sg)..<unat (sg_phys sg) + unat l]"
      by (simp add: sg_bytes_def l_def)
    ultimately show ?thesis
      using assms(1) rest o sz left off le acc'
      by (simp add: min_def ac_simps del: sync_sgl.simps)
  qed
qed

section \<open>The pages a mapping uses\<close>

abbreviation page_mapping :: "u64 list \<Rightarrow> nat \<Rightarrow> u64 \<Rightarrow> nat \<Rightarrow> vm_mapping" where
  "page_mapping ps k uaddr i \<equiv> Map_Page (uaddr + 4096 * of_nat i) (ps ! (k + i))"

text \<open>The loop inserts the pages in order, up to the first one that cannot be inserted.\<close>

lemma insert_pages_result:
  assumes "k + n \<le> length ps"
  shows "\<exists>ret m. insert_pages env (Some ps) k n uaddr v =
           Some (ret, v\<lparr>vm_mapped := vm_mapped v @ map (page_mapping ps k uaddr) [0..<m]\<rparr>) \<and>
           (ret = 0 \<and> m = n \<or> ret < 0 \<and> m < n \<and> ret = insert_page_ret env (uaddr + 4096 * of_nat m))"
  using assms
proof (induction n arbitrary: k uaddr v)
  case 0
  then show ?case by simp
next
  case (Suc n)
  have p: "page_at (Some ps) k = Some (ps ! k)" using Suc.prems by (simp add: page_at_def)
  show ?case
  proof (cases "insert_page_ret env uaddr < 0")
    case True
    then show ?thesis by (intro exI [of _ "insert_page_ret env uaddr"] exI [of _ 0])
        (simp add: p vm_insert_page_def)
  next
    case False
    let ?v = "v\<lparr>vm_mapped := vm_mapped v @ [Map_Page uaddr (ps ! k)]\<rparr>"
    from Suc.IH [of "Suc k" "uaddr + 4096" ?v] Suc.prems obtain ret m where
      r: "insert_pages env (Some ps) (Suc k) n (uaddr + 4096) ?v =
          Some (ret, ?v\<lparr>vm_mapped := vm_mapped ?v @ map (page_mapping ps (Suc k) (uaddr + 4096)) [0..<m]\<rparr>)"
      "ret = 0 \<and> m = n \<or> ret < 0 \<and> m < n \<and> ret = insert_page_ret env (uaddr + 4096 + 4096 * of_nat m)"
      by auto
    have "map (page_mapping ps k uaddr) [0..<Suc m] =
        Map_Page uaddr (ps ! k) # map (page_mapping ps (Suc k) (uaddr + 4096)) [0..<m]"
      by (simp add: upt_conv_Cons map_Suc_upt [symmetric] algebra_simps del: upt_Suc)
    with r False show ?thesis
      by (intro exI [of _ ret] exI [of _ "Suc m"]) (simp add: p vm_insert_page_def algebra_simps del: upt_Suc)
  qed
qed

lemma unat_pages: "k < 2 ^ 52 \<Longrightarrow> unat (4096 * of_nat k :: u64) = 4096 * k"
  by (simp add: unat_word_ariths unat_of_nat)

lemma unat_drop_bit_div: "unat (drop_bit n (x :: u64)) = unat x div 2 ^ n"
  unfolding unat_drop_bit_eq by (rule drop_bit_eq_div)

lemma page_number: "k < 2 ^ 52 \<Longrightarrow> drop_bit 12 (4096 * of_nat k :: u64) = of_nat k"
  by (rule word_unat_eq_iff [THEN iffD2]) (simp add: unat_drop_bit_div unat_pages unat_of_nat)

text \<open>The area lies above the pages it holds.\<close>

lemma vm_pages_below:
  assumes "vm_start v \<le> vm_end v"
  shows "unat (vm_start v) + 4096 * unat (drop_bit 12 (vm_size v)) \<le> unat (vm_end v)"
    "unat (drop_bit 12 (vm_size v)) < 2 ^ 52"
proof -
  have "unat (vm_size v) = unat (vm_end v) - unat (vm_start v)" using assms by (rule unat_minus)
  then show "unat (vm_start v) + 4096 * unat (drop_bit 12 (vm_size v)) \<le> unat (vm_end v)"
    using assms by (simp add: unat_drop_bit_div word_le_nat_alt)
  show "unat (drop_bit 12 (vm_size v)) < 2 ^ 52"
    using unat_lt [of "vm_size v"] by (simp add: unat_drop_bit_div less_mult_imp_div_less)
qed

lemma drop_bit_mono_u64: "a \<le> b \<Longrightarrow> drop_bit n (a :: u64) \<le> drop_bit n b"
  by (simp add: word_le_nat_alt unat_drop_bit_div div_le_mono)

lemma remap_ddr_fault:
  assumes "\<And>a. remap_pfn_ret env a = 0" and "k \<le> length ps" and "length ps < k + n"
  shows "remap_ddr env (Some ps) k n off v = None"
  using assms(2,3)
proof (induction n arbitrary: k off v)
  case (Suc n)
  then show ?case
    by (cases "k < length ps") (simp_all add: page_at_def remap_pfn_range_def assms(1))
qed simp

section \<open>Properties\<close>


definition sync_object :: rknpu_gem_object where
  "sync_object = zero_gem_object\<lparr>obj_flags := RKNPU_MEM_NON_CONTIGUOUS OR RKNPU_MEM_CACHEABLE, obj_size := 0x30,
     obj_sgt := Some \<lparr>sgl = [\<lparr>sg_phys = 0x100000, sg_length = 0x20\<rparr>, \<lparr>sg_phys = 0x200000, sg_length = 0x10\<rparr>],
                      sg_nents = 2, sg_orig_nents = 2\<rparr>\<rparr>"


text \<open>
  C35: mapping a page-backed buffer into user space. The mapping never reads outside the page array. A request
  larger than the buffer is refused with nothing mapped; otherwise the pages of the buffer are mapped in
  order from the start of the area, up to its end or to the first page the kernel cannot insert, whose
  error is returned; no mapping leaves the area; and a page fault at a mapped address inserts the very
  page that is mapped there.
\<close>

theorem mmap_maps_prefix:
  assumes "has (obj_flags ob) RKNPU_MEM_NON_CONTIGUOUS" and "iommu_en (iommu s)"
    and "obj_sram_size ob = 0" and "obj_nbuf_size ob = 0" and "obj_pages ob = Some ps"
    and "obj_num_pages ob = drop_bit PAGE_SHIFT (obj_size ob)" and "length ps = unat (obj_num_pages ob)"
    and "0 < obj_num_pages ob" and "vm_start v \<le> vm_end v"
  shows "\<exists>ret v' n. rknpu_gem_mmap_buffer env ob v s = Some (ret, v') \<and>
    vm_mapped v' = vm_mapped v @ map (\<lambda>k. Map_Page (vm_start v + 4096 * of_nat k) (ps ! k)) [0..<n] \<and>
    unat (vm_start v) + 4096 * n \<le> unat (vm_end v) \<and>
    (if obj_size ob < vm_size v then ret = - EINVAL \<and> n = 0
     else ret = 0 \<and> n = unat (drop_bit PAGE_SHIFT (vm_size v)) \<or>
          ret < 0 \<and> ret = insert_page_ret env (vm_start v + 4096 * of_nat n)) \<and>
    (\<forall>k<n. rknpu_gem_fault ob v (vm_start v + 4096 * of_nat k) =
            Some (VM_FAULT_INSERT (vm_start v + 4096 * of_nat k) (ps ! k)))"
proof (cases "obj_size ob < vm_size v")
  case True
  with assms(9) show ?thesis by (simp add: rknpu_gem_mmap_buffer_def word_le_nat_alt)
next
  case False
  define count where "count = unat (drop_bit 12 (vm_size v))"
  define v1 where "v1 = v\<lparr>vm_flags := (vm_flags v OR VM_DONTCOPY OR VM_DONTEXPAND OR VM_DONTDUMP OR VM_IO)
      AND NOT VM_PFNMAP, vm_pgoff := 0\<rparr>"
  define v0 where "v0 = v1\<lparr>vm_flags := vm_flags v1 OR VM_MIXEDMAP\<rparr>"
  have v1: "vm_start v1 = vm_start v" "vm_end v1 = vm_end v" "vm_pgoff v1 = 0" "vm_mapped v1 = vm_mapped v"
    by (simp_all add: v1_def)
  have le: "drop_bit 12 (vm_size v) \<le> obj_num_pages ob"
    using False assms(6) by (simp add: drop_bit_mono_u64)
  then have count: "count \<le> length ps" using assms(7) by (simp add: count_def word_le_nat_alt)
  from insert_pages_result [of 0 count ps env "vm_start v" v0] count obtain ret n where
    r: "insert_pages env (Some ps) 0 count (vm_start v) v0 =
        Some (ret, v0\<lparr>vm_mapped := vm_mapped v0 @ map (page_mapping ps 0 (vm_start v)) [0..<n]\<rparr>)"
    "ret = 0 \<and> n = count \<or> ret < 0 \<and> n < count \<and> ret = insert_page_ret env (vm_start v + 4096 * of_nat n)"
    by auto
  have n: "n \<le> count" using r(2) by auto
  have buf: "rknpu_gem_mmap_buffer env ob v s = insert_pages env (Some ps) 0 count (vm_start v) v0"
    using False assms(1-5,8) le unfolding rknpu_gem_mmap_buffer_def v1_def [symmetric]
    by (simp add: rknpu_gem_mmap_pages_def vm_map_pages_def v0_def v1 count_def not_less linorder_not_le [symmetric])
  have area: "unat (vm_start v) + 4096 * n \<le> unat (vm_end v)"
    using vm_pages_below(1) [OF assms(9)] n by (simp add: count_def)
  have "rknpu_gem_fault ob v (vm_start v + 4096 * of_nat k) =
      Some (VM_FAULT_INSERT (vm_start v + 4096 * of_nat k) (ps ! k))" if "k < n" for k
  proof -
    have k: "k < 2 ^ 52" "k < length ps"
      using that n count vm_pages_below(2) [OF assms(9)] by (simp_all add: count_def)
    then have "unat (of_nat k :: u64) = k" by (simp add: unat_of_nat)
    with k assms(5,6,7) show ?thesis
      by (simp add: rknpu_gem_fault_def Let_def page_number page_at_def word_le_nat_alt)
  qed
  with r buf area False show ?thesis
    by (intro exI [of _ ret] exI [of _ "v0\<lparr>vm_mapped := vm_mapped v0 @ map (page_mapping ps 0 (vm_start v)) [0..<n]\<rparr>"]
        exI [of _ n]) (auto simp: v0_def v1 count_def)
qed

definition mmap_env_ok :: mmap_env where
  "mmap_env_ok = \<lparr>insert_page_ret = (\<lambda>a. 0), remap_pfn_ret = (\<lambda>a. 0), dma_mmap_ret = 0, drm_mmap_ret = 0,
     dma_buf_mmap_ret = 0\<rparr>"

definition sample_area :: vm_area where
  "sample_area = \<lparr>vm_start = 0x7f0000, vm_end = 0x7f2000, vm_pgoff = 0x10, vm_flags = 0, vm_page_prot = Prot_Normal,
     vm_mapped = []\<rparr>"

definition paged_object :: rknpu_gem_object where
  "paged_object = zero_gem_object\<lparr>obj_flags := RKNPU_MEM_NON_CONTIGUOUS, obj_size := 0x3000, obj_num_pages := 3,
     obj_pages := Some [100, 200, 300]\<rparr>"

theorem mmap_maps_prefix_witness:
  "\<exists>v'. rknpu_gem_mmap_buffer mmap_env_ok paged_object sample_area sample_device = Some (0, v') \<and>
        vm_mapped v' = [Map_Page 0x7f0000 100, Map_Page 0x7f1000 200]"
proof -
  have "\<exists>ret v' n. rknpu_gem_mmap_buffer mmap_env_ok paged_object sample_area sample_device = Some (ret, v') \<and>
      vm_mapped v' = vm_mapped sample_area @
        map (\<lambda>k. Map_Page (vm_start sample_area + 4096 * of_nat k) ([100, 200, 300] ! k)) [0..<n] \<and>
      (ret = 0 \<and> n = 2 \<or> ret < 0 \<and> ret = insert_page_ret mmap_env_ok (vm_start sample_area + 4096 * of_nat n))"
    using mmap_maps_prefix [of paged_object sample_device "[100, 200, 300]" sample_area mmap_env_ok]
    by (fastforce simp: paged_object_def zero_gem_object_def sample_device_def sample_area_def drop_bit_eq_div)
  then show ?thesis by (auto simp: mmap_env_ok_def sample_area_def upt_rec [of 0] numeral_2_eq_2)
qed

text \<open>
  Mapping less than the on-chip part of a buffer crashes. When the area is smaller than the on-chip part,
  \<open>rknpu_gem_mmap_cache\<close> computes the number of DDR pages as a difference that wraps around, and reads page
  pointers far behind the page array.
\<close>

lemma mmap_cache_wraps:
  assumes "cache_region ob cache_type s = Some (start, cache_size)" and "\<not> obj_cache_with_sgt ob"
    and "vm_size v < cache_size" and "unat cache_size \<le> 2 ^ 32" and "obj_size ob \<noteq> 0"
    and "obj_pages ob = Some ps" and "length ps < 2 ^ 40" and "\<And>a. remap_pfn_ret env a = 0"
  shows "rknpu_gem_mmap_cache env cache_type ob v s = None"
proof -
  have "unat (vm_size v) < unat cache_size" using assms(3) by (simp add: word_less_nat_alt)
  then have "unat (vm_size v - cache_size) = 2 ^ 64 - (unat cache_size - unat (vm_size v))"
    by (subst unat_sub_if_size) (simp add: size_word.rep_eq)
  then have "2 ^ 64 - 2 ^ 32 \<le> unat (vm_size v - cache_size)" using assms(4) by simp
  then have "(2 ^ 64 - 2 ^ 32) div 4096 \<le> unat (vm_size v - cache_size) div 4096" by (rule div_le_mono)
  then have "length ps < unat ((vm_size v - cache_size) div PAGE_SIZE)"
    using assms(7) by (simp add: unat_div)
  with assms show ?thesis
    by (simp add: rknpu_gem_mmap_cache_def remap_pfn_range_def remap_ddr_fault Let_def)
qed

end
