(* ===== verification/Rknpu_Action.thy ===== *)
theory Rknpu_Action
  imports Rknpu_Reset
begin

text \<open>
  The action ioctl (\<open>rknpu_action\<close> in \<open>rknpu_drv.c\<close>) and the queries at the end of \<open>rknpu_job.c\<close>: versions,
  frequency and voltage, bandwidth priorities, read/write amounts, SRAM sizes, the IOMMU domain.

  A register read returns what the environment says; the properties tie it to the writes of the
  execution. The theory shows that what is set is what is got, and which actions change the device at all.
\<close>

section \<open>Model\<close>

text \<open>Registers by window and offset, the clock rate, the supply voltage, and the environments of the callees.\<close>

record act_env =
  act_read :: "mmio_region \<Rightarrow> nat \<Rightarrow> u32"
  act_clk_rate :: u64
  act_volt :: int
  act_reset :: reset_env
  act_iommu :: iommu_env

subsection \<open>Queries of rknpu_job.c\<close>

definition rknpu_get_hw_version :: "act_env \<Rightarrow> int \<times> u32" where
  "rknpu_get_hw_version env =
    (0, act_read env (Core 0) RKNPU_OFFSET_VERSION + (act_read env (Core 0) RKNPU_OFFSET_VERSION_NUM AND 0xffff))"

text \<open>The three out parameters may be NULL: the flags say which are asked for.\<close>

definition rknpu_get_bw_priority ::
    "act_env \<Rightarrow> bool \<Rightarrow> bool \<Rightarrow> bool \<Rightarrow> rknpu_device \<Rightarrow> int \<times> u32 option \<times> u32 option \<times> u32 option" where
  "rknpu_get_bw_priority env priority expect tw s =
    (if \<not> has_bw_priority_base s then (- EINVAL, None, None, None)
     else (0, if priority then Some (act_read env Bw_Priority 0x0) else None,
              if expect then Some (act_read env Bw_Priority 0x8) else None,
              if tw then Some (act_read env Bw_Priority 0xc) else None))"

definition rknpu_set_bw_priority :: "u32 \<Rightarrow> u32 \<Rightarrow> u32 \<Rightarrow> rknpu_device \<Rightarrow> int \<times> rknpu_device" where
  "rknpu_set_bw_priority priority expect tw s =
    (if \<not> has_bw_priority_base s then (- EINVAL, s)
     else
       let s = (if priority \<noteq> 0 then reg_write Bw_Priority 0x0 priority s else s);
           s = (if expect \<noteq> 0 then reg_write Bw_Priority 0x8 expect s else s);
           s = (if tw \<noteq> 0 then reg_write Bw_Priority 0xc tw s else s)
       in (0, s))"

text \<open>The clear pulses of the counters of the top level and, where there are any, of the cores.\<close>

definition clear_pulses :: "rknpu_amount_data \<Rightarrow> rknpu_amount_data option \<Rightarrow> rknpu_device \<Rightarrow> rknpu_device" where
  "clear_pulses tp core s =
    (let s = reg_write (Core 0) (offset_clr_all tp) 0x00000101
               (reg_write (Core 0) (offset_clr_all tp) 0x80000101 s) in
     case core of
       None \<Rightarrow> s
     | Some c \<Rightarrow> reg_write (Core 0) (offset_clr_all c) 0x00000101
                  (reg_write (Core 0) (offset_clr_all c) 0x80000101 s))"

definition rknpu_clear_rw_amount :: "act_env \<Rightarrow> rknpu_device \<Rightarrow> int \<times> rknpu_device" where
  "rknpu_clear_rw_amount env s =
    (case cfg_amount_top (config s) of
       None \<Rightarrow> (0, s)
     | Some tp \<Rightarrow>
         if cfg_pc_dma_ctrl (config s) \<noteq> 0 then
           (let pc_data_addr = act_read env (Core 0) RKNPU_OFFSET_PC_DATA_ADDR;
                s = reg_write (Core 0) RKNPU_OFFSET_PC_DATA_ADDR 0x1 s;
                s = clear_pulses tp (cfg_amount_core (config s)) s
            in (0, reg_write (Core 0) RKNPU_OFFSET_PC_DATA_ADDR pc_data_addr s))
         else (0, clear_pulses tp (cfg_amount_core (config s)) s))"

definition scaled_amount ::
    "act_env \<Rightarrow> rknpu_config \<Rightarrow> rknpu_amount_data \<Rightarrow> (rknpu_amount_data \<Rightarrow> nat) \<Rightarrow> u32" where
  "scaled_amount env cfg tp offset =
    act_read env (Core 0) (offset tp) * cfg_pc_data_amount_scale cfg +
    (case cfg_amount_core cfg of
       None \<Rightarrow> 0
     | Some core \<Rightarrow> act_read env (Core 0) (offset core) * cfg_pc_data_amount_scale cfg)"

definition rknpu_get_rw_amount ::
    "act_env \<Rightarrow> bool \<Rightarrow> bool \<Rightarrow> bool \<Rightarrow> rknpu_config \<Rightarrow> int \<times> u32 option \<times> u32 option \<times> u32 option" where
  "rknpu_get_rw_amount env dt_wr dt_rd wd_rd cfg =
    (case cfg_amount_top cfg of
       None \<Rightarrow> (0, None, None, None)
     | Some tp \<Rightarrow>
         (0, if dt_wr then Some (scaled_amount env cfg tp offset_dt_wr) else None,
             if dt_rd then Some (scaled_amount env cfg tp offset_dt_rd) else None,
             if wd_rd then Some (scaled_amount env cfg tp offset_wt_rd) else None))"

definition rknpu_get_total_rw_amount :: "act_env \<Rightarrow> rknpu_config \<Rightarrow> int \<times> u32 option" where
  "rknpu_get_total_rw_amount env cfg =
    (if cfg_amount_top cfg = None then (0, None)
     else
       let (ret, dt_wr, dt_rd, wd_rd) = rknpu_get_rw_amount env True True True cfg;
           val = (\<lambda>x. case x of None \<Rightarrow> 0 | Some v \<Rightarrow> v)
       in (ret, Some (val dt_wr + val dt_rd + val wd_rd)))"

subsection \<open>The action ioctl of rknpu_drv.c\<close>

abbreviation (input) RKNPU_GET_HW_VERSION :: u32 where "RKNPU_GET_HW_VERSION \<equiv> 0"
abbreviation (input) RKNPU_GET_DRV_VERSION :: u32 where "RKNPU_GET_DRV_VERSION \<equiv> 1"
abbreviation (input) RKNPU_GET_FREQ :: u32 where "RKNPU_GET_FREQ \<equiv> 2"
abbreviation (input) RKNPU_SET_FREQ :: u32 where "RKNPU_SET_FREQ \<equiv> 3"
abbreviation (input) RKNPU_GET_VOLT :: u32 where "RKNPU_GET_VOLT \<equiv> 4"
abbreviation (input) RKNPU_SET_VOLT :: u32 where "RKNPU_SET_VOLT \<equiv> 5"
abbreviation (input) RKNPU_ACT_RESET :: u32 where "RKNPU_ACT_RESET \<equiv> 6"
abbreviation (input) RKNPU_GET_BW_PRIORITY :: u32 where "RKNPU_GET_BW_PRIORITY \<equiv> 7"
abbreviation (input) RKNPU_SET_BW_PRIORITY :: u32 where "RKNPU_SET_BW_PRIORITY \<equiv> 8"
abbreviation (input) RKNPU_GET_BW_EXPECT :: u32 where "RKNPU_GET_BW_EXPECT \<equiv> 9"
abbreviation (input) RKNPU_SET_BW_EXPECT :: u32 where "RKNPU_SET_BW_EXPECT \<equiv> 10"
abbreviation (input) RKNPU_GET_BW_TW :: u32 where "RKNPU_GET_BW_TW \<equiv> 11"
abbreviation (input) RKNPU_SET_BW_TW :: u32 where "RKNPU_SET_BW_TW \<equiv> 12"
abbreviation (input) RKNPU_ACT_CLR_TOTAL_RW_AMOUNT :: u32 where "RKNPU_ACT_CLR_TOTAL_RW_AMOUNT \<equiv> 13"
abbreviation (input) RKNPU_GET_DT_WR_AMOUNT :: u32 where "RKNPU_GET_DT_WR_AMOUNT \<equiv> 14"
abbreviation (input) RKNPU_GET_DT_RD_AMOUNT :: u32 where "RKNPU_GET_DT_RD_AMOUNT \<equiv> 15"
abbreviation (input) RKNPU_GET_WT_RD_AMOUNT :: u32 where "RKNPU_GET_WT_RD_AMOUNT \<equiv> 16"
abbreviation (input) RKNPU_GET_TOTAL_RW_AMOUNT :: u32 where "RKNPU_GET_TOTAL_RW_AMOUNT \<equiv> 17"
abbreviation (input) RKNPU_GET_IOMMU_EN :: u32 where "RKNPU_GET_IOMMU_EN \<equiv> 18"
abbreviation (input) RKNPU_SET_PROC_NICE :: u32 where "RKNPU_SET_PROC_NICE \<equiv> 19"
abbreviation (input) RKNPU_GET_TOTAL_SRAM_SIZE :: u32 where "RKNPU_GET_TOTAL_SRAM_SIZE \<equiv> 22"
abbreviation (input) RKNPU_GET_FREE_SRAM_SIZE :: u32 where "RKNPU_GET_FREE_SRAM_SIZE \<equiv> 23"
abbreviation (input) RKNPU_GET_IOMMU_DOMAIN_ID :: u32 where "RKNPU_GET_IOMMU_DOMAIN_ID \<equiv> 24"
abbreviation (input) RKNPU_SET_IOMMU_DOMAIN_ID :: u32 where "RKNPU_SET_IOMMU_DOMAIN_ID \<equiv> 25"

text \<open>An out parameter that was not written leaves the field of the arguments as it was.\<close>

definition store :: "u32 option \<Rightarrow> rknpu_action \<Rightarrow> rknpu_action" where
  "store v args = (case v of None \<Rightarrow> args | Some x \<Rightarrow> args\<lparr>act_value := x\<rparr>)"

text \<open>
  The result: the return value, the arguments as they are copied back, the niceness given to the calling
  process (\<open>set_user_nice\<close>), and the device. Reading the voltage without a regulator is a NULL dereference.
\<close>

definition rknpu_action_fn ::
    "act_env \<Rightarrow> rknpu_action \<Rightarrow> rknpu_device \<Rightarrow> (int \<times> rknpu_action \<times> int option \<times> rknpu_device) option" where
  "rknpu_action_fn env args s =
    (let f = act_flags args; v = act_value args in
     if f = RKNPU_GET_HW_VERSION then
       let (ret, x) = rknpu_get_hw_version env in Some (ret, store (Some x) args, None, s)
     else if f = RKNPU_GET_DRV_VERSION then
       let (ret, x) = rknpu_get_drv_version in Some (ret, store (Some x) args, None, s)
     else if f = RKNPU_GET_FREQ then Some (0, store (Some (ucast (act_clk_rate env))) args, None, s)
     else if f = RKNPU_SET_FREQ then Some (- EINVAL, args, None, s)
     else if f = RKNPU_GET_VOLT then
       if has_vdd (pwr s) then Some (0, store (Some (word_of_int (act_volt env))) args, None, s) else None
     else if f = RKNPU_SET_VOLT then Some (- EINVAL, args, None, s)
     else if f = RKNPU_ACT_RESET then
       do { (ret, s) \<leftarrow> rknpu_soft_reset (act_reset env) s; Some (ret, args, None, s) }
     else if f = RKNPU_GET_BW_PRIORITY then
       let (ret, p, _, _) = rknpu_get_bw_priority env True False False s in Some (ret, store p args, None, s)
     else if f = RKNPU_SET_BW_PRIORITY then
       let (ret, s) = rknpu_set_bw_priority v 0 0 s in Some (ret, args, None, s)
     else if f = RKNPU_GET_BW_EXPECT then
       let (ret, _, e, _) = rknpu_get_bw_priority env False True False s in Some (ret, store e args, None, s)
     else if f = RKNPU_SET_BW_EXPECT then
       let (ret, s) = rknpu_set_bw_priority 0 v 0 s in Some (ret, args, None, s)
     else if f = RKNPU_GET_BW_TW then
       let (ret, _, _, w) = rknpu_get_bw_priority env False False True s in Some (ret, store w args, None, s)
     else if f = RKNPU_SET_BW_TW then
       let (ret, s) = rknpu_set_bw_priority 0 0 v s in Some (ret, args, None, s)
     else if f = RKNPU_ACT_CLR_TOTAL_RW_AMOUNT then
       let (ret, s) = rknpu_clear_rw_amount env s in Some (ret, args, None, s)
     else if f = RKNPU_GET_DT_WR_AMOUNT then
       let (ret, a, _, _) = rknpu_get_rw_amount env True False False (config s) in Some (ret, store a args, None, s)
     else if f = RKNPU_GET_DT_RD_AMOUNT then
       let (ret, _, a, _) = rknpu_get_rw_amount env False True False (config s) in Some (ret, store a args, None, s)
     else if f = RKNPU_GET_WT_RD_AMOUNT then
       let (ret, _, _, a) = rknpu_get_rw_amount env False False True (config s) in Some (ret, store a args, None, s)
     else if f = RKNPU_GET_TOTAL_RW_AMOUNT then
       let (ret, a) = rknpu_get_total_rw_amount env (config s) in Some (ret, store a args, None, s)
     else if f = RKNPU_GET_IOMMU_EN then
       Some (0, store (Some (if iommu_en (iommu s) then 1 else 0)) args, None, s)
     else if f = RKNPU_SET_PROC_NICE then Some (0, args, Some (sint v), s)
     else if f = RKNPU_GET_TOTAL_SRAM_SIZE then
       Some (0, store (Some (case sram_mm s of None \<Rightarrow> 0 | Some mm \<Rightarrow> mm_total_chunks mm * mm_chunk_size mm)) args, None, s)
     else if f = RKNPU_GET_FREE_SRAM_SIZE then
       Some (0, store (Some (case sram_mm s of None \<Rightarrow> 0 | Some mm \<Rightarrow> mm_free_chunks mm * mm_chunk_size mm)) args, None, s)
     else if f = RKNPU_GET_IOMMU_DOMAIN_ID then
       Some (0, store (Some (word_of_int (iommu_domain_id (iommu s)))) args, None, s)
     else if f = RKNPU_SET_IOMMU_DOMAIN_ID then
       let (ret, s) = dev_domain_get (act_iommu env) (sint v) s in
       if ret \<noteq> 0 then Some (ret, args, None, s) else Some (ret, args, None, dev_domain_put s)
     else Some (- EINVAL, args, None, s))"

definition rknpu_action_ioctl ::
    "act_env \<Rightarrow> rknpu_action \<Rightarrow> rknpu_device \<Rightarrow> (int \<times> rknpu_action \<times> int option \<times> rknpu_device) option" where
  "rknpu_action_ioctl env args s = rknpu_action_fn env args s"

section \<open>Registers as memory\<close>

text \<open>What a read returns when the register holds its last written value: the writes on top of initial contents.\<close>

definition reg_after ::
    "(mmio_region \<Rightarrow> nat \<Rightarrow> u32) \<Rightarrow> (mmio_region \<times> nat \<times> u32) list \<Rightarrow> mmio_region \<Rightarrow> nat \<Rightarrow> u32" where
  "reg_after m ws = fold (\<lambda>(r, off, v) m. m(r := (m r)(off := v))) ws m"

definition reads_back :: "(mmio_region \<Rightarrow> nat \<Rightarrow> u32) \<Rightarrow> act_env \<Rightarrow> rknpu_device \<Rightarrow> bool" where
  "reads_back m env s \<longleftrightarrow> act_read env Bw_Priority = reg_after m (mmio s) Bw_Priority"

lemma reg_after_snoc [simp]:
  "reg_after m (ws @ [(r, off, v)]) = (reg_after m ws)(r := (reg_after m ws r)(off := v))"
  by (simp add: reg_after_def)

text \<open>The register of a bandwidth setting, by the flag that sets it; the flag before it reads it.\<close>

definition bw_offset :: "u32 \<Rightarrow> nat" where
  "bw_offset f = (if f = RKNPU_SET_BW_PRIORITY then 0x0 else if f = RKNPU_SET_BW_EXPECT then 0x8 else 0xc)"

abbreviation bw_setters :: "u32 set" where
  "bw_setters \<equiv> {RKNPU_SET_BW_PRIORITY, RKNPU_SET_BW_EXPECT, RKNPU_SET_BW_TW}"

lemma action_bw_set:
  assumes "f \<in> bw_setters" and "has_bw_priority_base s"
  shows "rknpu_action_fn env \<lparr>act_flags = f, act_value = v\<rparr> s =
    Some (0, \<lparr>act_flags = f, act_value = v\<rparr>, None, if v \<noteq> 0 then reg_write Bw_Priority (bw_offset f) v s else s)"
  using assms by (elim insertE) (simp_all add: rknpu_action_fn_def rknpu_set_bw_priority_def bw_offset_def)

lemma action_bw_get:
  assumes "g \<in> bw_setters" and "has_bw_priority_base s"
  shows "rknpu_action_fn env \<lparr>act_flags = g - 1, act_value = w\<rparr> s =
    Some (0, \<lparr>act_flags = g - 1, act_value = act_read env Bw_Priority (bw_offset g)\<rparr>, None, s)"
  using assms by (elim insertE) (simp_all add: rknpu_action_fn_def rknpu_get_bw_priority_def bw_offset_def store_def)

lemma bw_offset_inject: "f \<in> bw_setters \<Longrightarrow> g \<in> bw_setters \<Longrightarrow> bw_offset f = bw_offset g \<longleftrightarrow> f = g"
  by (elim insertE) (simp_all add: bw_offset_def)

lemma reg_write_base [simp]: "has_bw_priority_base (reg_write r off v s) = has_bw_priority_base s"
  by (simp add: reg_write_def)

section \<open>Properties\<close>

text \<open>
  What is set is what is got. On a device with the bandwidth-priority block, setting the priority, the
  expected bandwidth or the time window succeeds; reading the same setting afterwards gives the value, or
  the former one when the value is 0, which the code takes for "leave it alone"; the two other settings are
  unchanged.
\<close>

lemma bw_set_get:
  assumes "has_bw_priority_base s" and "f \<in> bw_setters" and "g \<in> bw_setters"
    and "rknpu_action_fn env \<lparr>act_flags = f, act_value = v\<rparr> s = Some (ret, args', nice, t)"
    and "reads_back m env s" and "reads_back m env' t"
  shows "ret = 0 \<and>
    rknpu_action_fn env' \<lparr>act_flags = g - 1, act_value = w\<rparr> t =
      Some (0, \<lparr>act_flags = g - 1,
                act_value = (if g = f \<and> v \<noteq> 0 then v else act_read env Bw_Priority (bw_offset g))\<rparr>, None, t)"
proof -
  from assms(4) have t: "ret = 0" "t = (if v \<noteq> 0 then reg_write Bw_Priority (bw_offset f) v s else s)"
    by (simp_all add: action_bw_set [OF assms(2,1)])
  then have "has_bw_priority_base t" using assms(1) by simp
  moreover have "act_read env' Bw_Priority (bw_offset g) =
      (if g = f \<and> v \<noteq> 0 then v else act_read env Bw_Priority (bw_offset g))"
    using assms(5,6) t(2) bw_offset_inject [OF assms(3,2)] by (auto simp: reads_back_def)
  ultimately show ?thesis using t(1) by (simp add: action_bw_get [OF assms(3)])
qed

definition act_env_ok :: act_env where
  "act_env_ok = \<lparr>act_read = (\<lambda>r off. 0), act_clk_rate = 1000000000, act_volt = 800000, act_reset = reset_env_ok,
     act_iommu = reattach_env reset_env_ok\<rparr>"

text \<open>
  Which actions touch the device. An action other than the reset, the bandwidth setters, the clearing of
  the amounts and the domain switch leaves the device exactly as it was, whatever it returns; the only
  niceness change is the one asked for; and the numbers without a case, which include the \<open>RKNPU_POWER_ON\<close>
  and \<open>RKNPU_POWER_OFF\<close> of the user interface, and setting frequency or voltage, are refused.
\<close>

lemma action_readonly:
  assumes "act_flags args \<notin> bw_setters \<union> {RKNPU_ACT_RESET, RKNPU_ACT_CLR_TOTAL_RW_AMOUNT, RKNPU_SET_IOMMU_DOMAIN_ID}"
    and "rknpu_action_fn env args s = Some (ret, args', nice, t)"
  shows "t = s \<and> act_flags args' = act_flags args \<and>
    (nice = (if act_flags args = RKNPU_SET_PROC_NICE then Some (sint (act_value args)) else None)) \<and>
    (act_flags args \<in> {RKNPU_SET_FREQ, RKNPU_SET_VOLT, 20, 21} \<or> 25 < act_flags args \<longrightarrow> ret = - EINVAL \<and> args' = args)"
proof -
  from assms have "t = s \<and> act_flags args' = act_flags args \<and>
      nice = (if act_flags args = RKNPU_SET_PROC_NICE then Some (sint (act_value args)) else None)"
    unfolding rknpu_action_fn_def Let_def
    by (auto simp: store_def split: if_split_asm prod.split_asm option.split)
  moreover have "ret = - EINVAL \<and> args' = args"
    if "act_flags args \<in> {RKNPU_SET_FREQ, RKNPU_SET_VOLT, 20, 21} \<or> 25 < act_flags args"
    using assms that unfolding rknpu_action_fn_def Let_def
    by (auto split: if_split_asm prod.split_asm)
  ultimately show ?thesis by blast
qed

end
