(* ===== verification/Rknpu_Devfreq.thy ===== *)
theory Rknpu_Devfreq
  imports Rknpu_Progress
begin

text \<open>
  Load measurement and frequency scaling: the periodic timer of \<open>rknpu_drv.c\<close> that samples how long each
  core was busy, and \<open>rknpu_devfreq.c\<close> (the governor, the profile callbacks, set-up and removal).

  The OPP and devfreq frameworks of the kernel are arguments (\<open>df_env\<close>). The theory shows that the samples
  add up to the time a job ran, that the recorded frequency and voltage are always those of one operating
  point, and that setting up frequency scaling succeeds completely or leaves no governor behind.
\<close>

section \<open>Model\<close>

subsection \<open>The load timer (rknpu_drv.c)\<close>

text \<open>One round of the loop of \<open>hrtimer_handler\<close>; \<open>now i\<close> is the time it reads while looking at core \<open>i\<close>.\<close>

definition sample_core :: "nat \<Rightarrow> rknpu_device \<Rightarrow> rknpu_device" where
  "sample_core i s = upd_subcore i (\<lambda>d. d\<lparr>total_busy_time := busy_time d, busy_time := 0\<rparr>) s"

definition timer_core :: "(nat \<Rightarrow> int) \<Rightarrow> nat \<Rightarrow> rknpu_device \<Rightarrow> rknpu_device option" where
  "timer_core now i s =
    do { s \<leftarrow> (case subcore_job (subcore_datas s i) of
                 None \<Rightarrow> Some s
               | Some j \<Rightarrow> do {
                   J \<leftarrow> jobs s j;
                   let s = upd_subcore i (\<lambda>d. d\<lparr>busy_time := busy_time d + (now i - job_hw_recoder_time J)\<rparr>) s;
                   upd_job j (\<lambda>J. J\<lparr>job_hw_recoder_time := now i\<rparr>) s });
         Some (sample_core i s) }"

definition hrtimer_handler :: "(nat \<Rightarrow> int) \<Rightarrow> rknpu_device \<Rightarrow> rknpu_device option" where
  "hrtimer_handler now s = for_each [0..<cfg_num_irqs (config s)] (timer_core now) s"

subsection \<open>Frequency scaling (rknpu_devfreq.c)\<close>

text \<open>
  The answers of the frameworks: the operating point recommended for a frequency (its frequency and
  voltage, or an error), whether switching to a frequency succeeds, the clock rate, the supply voltage, and
  the results of the set-up calls.
\<close>

record df_env =
  recommended_opp :: "u64 \<Rightarrow> int + u64 \<times> u64"
  set_rate_ret :: "u64 \<Rightarrow> int"
  df_clk_rate :: u64
  df_volt :: int
  opp_regulators_ret :: int
  opp_clkname_ret :: int
  opp_table_ret :: int
  add_governor_ret :: int
  add_device_ret :: int

definition upd_dvfs :: "(devfreq_state \<Rightarrow> devfreq_state) \<Rightarrow> rknpu_device \<Rightarrow> rknpu_device" where
  "upd_dvfs f s = s\<lparr>dvfs := f (dvfs s)\<rparr>"

definition devfreq_rknpu_ondemand_func :: "rknpu_device \<Rightarrow> int \<times> u64" where
  "devfreq_rknpu_ondemand_func s =
    (0, if ondemand_freq (dvfs s) \<noteq> 0 then ondemand_freq (dvfs s) else df_previous_freq (dvfs s))"

definition npu_devfreq_target :: "df_env \<Rightarrow> u64 \<Rightarrow> rknpu_device \<Rightarrow> int \<times> u64 \<times> rknpu_device" where
  "npu_devfreq_target env freq s =
    (case recommended_opp env freq of
       Inl e \<Rightarrow> (e, freq, s)
     | Inr (freq, opp_volt) \<Rightarrow>
         if freq = current_freq (dvfs s) then (0, freq, s)
         else if set_rate_ret env freq = 0 then
           (0, freq, upd_dvfs (\<lambda>d. d\<lparr>current_freq := freq, current_volt := opp_volt,
              df_last_frequency := (if has_devfreq (pwr s) then freq else df_last_frequency d)\<rparr>) s)
         else (set_rate_ret env freq, freq, s))"

text \<open>The result: current frequency, busy time and total time, in microseconds.\<close>

definition npu_devfreq_get_dev_status :: "rknpu_device \<Rightarrow> int \<times> u64 \<times> u64 \<times> u64" where
  "npu_devfreq_get_dev_status s =
    (let busy = (\<Sum>i\<leftarrow>[0..<cfg_num_irqs (config s)]. total_busy_time (subcore_datas s i))
     in (0, current_freq (dvfs s), word_of_int (cdiv busy 1000), word_of_int (RKNPU_LOAD_INTERVAL div 1000)))"

definition npu_devfreq_get_cur_freq :: "rknpu_device \<Rightarrow> int \<times> u64" where
  "npu_devfreq_get_cur_freq s = (0, current_freq (dvfs s))"

definition count_dev :: "dev_resource \<Rightarrow> int \<Rightarrow> rknpu_device \<Rightarrow> rknpu_device" where
  "count_dev r n s = s\<lparr>dev_count := (dev_count s)(r := dev_count s r + n)\<rparr>"

text \<open>The end of \<open>rknpu_devfreq_init\<close>, once the devfreq device exists.\<close>

definition devfreq_start :: "df_env \<Rightarrow> rknpu_device \<Rightarrow> rknpu_device" where
  "devfreq_start env s =
    upd_dvfs (\<lambda>d.
      let d = d\<lparr>current_freq := df_clk_rate env, ondemand_freq := df_clk_rate env\<rparr>;
          d = (if has_vdd (pwr s) then d\<lparr>current_volt := word_of_int (df_volt env)\<rparr> else d);
          d = d\<lparr>df_previous_freq := current_freq d\<rparr>;
          d = (if df_suspend_freq d \<noteq> 0 then d\<lparr>df_resume_freq := current_freq d\<rparr> else d)
      in d\<lparr>df_last_frequency := current_freq d, df_last_total_time := 1, df_last_busy_time := 1\<rparr>)
    (s\<lparr>pwr := (pwr s)\<lparr>has_devfreq := True\<rparr>\<rparr>)"

definition rknpu_devfreq_init :: "df_env \<Rightarrow> rknpu_device \<Rightarrow> int \<times> rknpu_device" where
  "rknpu_devfreq_init env s =
    (if opp_regulators_ret env \<noteq> 0 then (opp_regulators_ret env, s)
     else if opp_clkname_ret env \<noteq> 0 then (opp_clkname_ret env, s)
     else if opp_table_ret env \<noteq> 0 then (opp_table_ret env, s)
     else
       let s = upd_dvfs (\<lambda>d. d\<lparr>current_freq := df_clk_rate env\<rparr>) s in
       case recommended_opp env (df_clk_rate env) of
         Inl e \<Rightarrow> (e, s)
       | Inr (freq, volt) \<Rightarrow>
           let s = upd_dvfs (\<lambda>d. d\<lparr>current_freq := freq\<rparr>) s in
           if add_governor_ret env \<noteq> 0 then (add_governor_ret env, s)
           else
             let s = count_dev R_governor 1 s in
             if add_device_ret env \<noteq> 0
             then (add_device_ret env, count_dev R_governor (- 1) (s\<lparr>pwr := (pwr s)\<lparr>has_devfreq := False\<rparr>\<rparr>))
             else (0, devfreq_start env s))"

definition rknpu_devfreq_remove :: "rknpu_device \<Rightarrow> rknpu_device" where
  "rknpu_devfreq_remove s = (if has_devfreq (pwr s) then count_dev R_governor (- 1) s else s)"

definition rknpu_devfreq_runtime_suspend :: int where
  "rknpu_devfreq_runtime_suspend = 0"

definition rknpu_devfreq_runtime_resume :: int where
  "rknpu_devfreq_runtime_resume = 0"

section \<open>Lemmas\<close>

text \<open>Only the jobs of a core change, and of those only the time they were looked at.\<close>

lemma timer_core_other:
  assumes "timer_core now k s = Some t" and "k \<noteq> i"
  shows "subcore_datas t i = subcore_datas s i" and "config t = config s"
    and "subcore_job (subcore_datas t k) = subcore_job (subcore_datas s k)"
    and "subcore_job (subcore_datas s k) \<noteq> Some j \<Longrightarrow> jobs t j = jobs s j"
  using assms
  by (auto simp: timer_core_def sample_core_def upd_job_eq_Some bind_eq_Some_conv Let_def split: option.splits)

lemma timer_core_running:
  assumes "timer_core now i s = Some t" and "subcore_job (subcore_datas s i) = Some j" and "jobs s j = Some J"
  shows "subcore_job (subcore_datas t i) = Some j" and "jobs t j = Some (J\<lparr>job_hw_recoder_time := now i\<rparr>)"
    and "total_busy_time (subcore_datas t i) = busy_time (subcore_datas s i) + (now i - job_hw_recoder_time J)"
    and "busy_time (subcore_datas t i) = 0" and "config t = config s"
  using assms
  by (auto simp: timer_core_def sample_core_def upd_job_eq_Some bind_eq_Some_conv Let_def split: option.splits)

lemma timer_core_jobs:
  "timer_core now k s = Some t \<Longrightarrow> subcore_job (subcore_datas t m) = subcore_job (subcore_datas s m)"
  by (cases "k = m")
     (auto simp: timer_core_def sample_core_def upd_job_eq_Some bind_eq_Some_conv Let_def split: option.splits)

text \<open>The cores other than \<open>i\<close> do not disturb core \<open>i\<close> and the job that runs on it alone.\<close>

lemma timer_others:
  assumes "for_each ks (timer_core now) s = Some t" and "i \<notin> set ks"
    and "\<And>k. k \<noteq> i \<Longrightarrow> subcore_job (subcore_datas s k) \<noteq> Some j"
  shows "subcore_datas t i = subcore_datas s i \<and> jobs t j = jobs s j \<and> config t = config s \<and>
    (\<forall>k. subcore_job (subcore_datas t k) = subcore_job (subcore_datas s k))"
  using assms(1)
proof (rule for_each_inv)
  fix x u u'
  assume x: "x \<in> set ks" and step: "timer_core now x u = Some u'" and P: "subcore_datas u i = subcore_datas s i \<and>
    jobs u j = jobs s j \<and> config u = config s \<and> (\<forall>k. subcore_job (subcore_datas u k) = subcore_job (subcore_datas s k))"
  from x assms(2) have "x \<noteq> i" by auto
  with P timer_core_other(1,2) [OF step this] timer_core_other(4) [OF step this] assms(3) [OF this]
    timer_core_jobs [OF step]
  show "subcore_datas u' i = subcore_datas s i \<and> jobs u' j = jobs s j \<and> config u' = config s \<and>
    (\<forall>k. subcore_job (subcore_datas u' k) = subcore_job (subcore_datas s k))" by simp
qed simp

lemma hrtimer_running:
  assumes "hrtimer_handler now s = Some t" and "i < cfg_num_irqs (config s)"
    and "subcore_job (subcore_datas s i) = Some j" and "jobs s j = Some J"
    and "\<And>k. k \<noteq> i \<Longrightarrow> subcore_job (subcore_datas s k) \<noteq> Some j"
  shows "subcore_job (subcore_datas t k) = subcore_job (subcore_datas s k)" and "config t = config s"
    and "jobs t j = Some (J\<lparr>job_hw_recoder_time := now i\<rparr>)" and "busy_time (subcore_datas t i) = 0"
    and "total_busy_time (subcore_datas t i) = busy_time (subcore_datas s i) + (now i - job_hw_recoder_time J)"
proof -
  have "[0..<cfg_num_irqs (config s)] = [0..<i] @ i # [Suc i..<cfg_num_irqs (config s)]"
    using assms(2) by (metis upt_add_eq_append upt_conv_Cons less_imp_le zero_le le_add_diff_inverse)
  with assms(1) obtain u v where
    a: "for_each [0..<i] (timer_core now) s = Some u" and b: "timer_core now i u = Some v"
    and c: "for_each [Suc i..<cfg_num_irqs (config s)] (timer_core now) v = Some t"
    by (auto simp: hrtimer_handler_def for_each_append bind_eq_Some_conv)
  have a': "subcore_datas u i = subcore_datas s i \<and> jobs u j = jobs s j \<and> config u = config s \<and>
      (\<forall>k. subcore_job (subcore_datas u k) = subcore_job (subcore_datas s k))"
    by (rule timer_others [OF a]) (use assms(5) in auto)
  from a' assms(3,4) have u: "subcore_job (subcore_datas u i) = Some j" "jobs u j = Some J" by simp_all
  note b' = timer_core_running [OF b u]
  have o: "subcore_job (subcore_datas v k) = subcore_job (subcore_datas s k)" for k
    using timer_core_jobs [OF b] a' by simp
  have c': "subcore_datas t i = subcore_datas v i \<and> jobs t j = jobs v j \<and> config t = config v \<and>
      (\<forall>k. subcore_job (subcore_datas t k) = subcore_job (subcore_datas v k))"
    by (rule timer_others [OF c]) (use assms(5) o in auto)
  show "subcore_job (subcore_datas t k) = subcore_job (subcore_datas s k)" "config t = config s"
    "jobs t j = Some (J\<lparr>job_hw_recoder_time := now i\<rparr>)" "busy_time (subcore_datas t i) = 0"
    "total_busy_time (subcore_datas t i) = busy_time (subcore_datas s i) + (now i - job_hw_recoder_time J)"
    using a' b' c' o by simp_all
qed

text \<open>A series of timer interrupts, with the load samples of core \<open>i\<close> they produce.\<close>

fun ticks :: "nat \<Rightarrow> (nat \<Rightarrow> int) list \<Rightarrow> rknpu_device \<Rightarrow> (int list \<times> rknpu_device) option" where
  "ticks i [] s = Some ([], s)"
| "ticks i (now # ns) s =
    do { t \<leftarrow> hrtimer_handler now s;
         (xs, u) \<leftarrow> ticks i ns t;
         Some (total_busy_time (subcore_datas t i) # xs, u) }"

text \<open>The samples, what is not sampled yet, and the time since the job was last looked at add up.\<close>

lemma ticks_conserve:
  assumes "ticks i ns s = Some (xs, u)" and "i < cfg_num_irqs (config s)"
    and "subcore_job (subcore_datas s i) = Some j" and "jobs s j = Some J"
    and "\<And>k. k \<noteq> i \<Longrightarrow> subcore_job (subcore_datas s k) \<noteq> Some j"
  shows "\<exists>J'. jobs u j = Some J' \<and>
    sum_list xs + busy_time (subcore_datas u i) - job_hw_recoder_time J' =
    busy_time (subcore_datas s i) - job_hw_recoder_time J"
  using assms
proof (induction ns arbitrary: s xs J)
  case Nil
  then show ?case by auto
next
  case (Cons now ns)
  from Cons.prems(1) obtain t ys where t: "hrtimer_handler now s = Some t" "ticks i ns t = Some (ys, u)"
    "xs = total_busy_time (subcore_datas t i) # ys" by (auto simp: bind_eq_Some_conv)
  note h = hrtimer_running [OF t(1) Cons.prems(2-5)]
  from Cons.IH [OF t(2) _ _ h(3)] h(1,2) Cons.prems(2,3,5) obtain J' where "jobs u j = Some J'"
    "sum_list ys + busy_time (subcore_datas u i) - job_hw_recoder_time J' = busy_time (subcore_datas t i) - now i"
    by auto
  with h(4,5) t(3) show ?case by auto
qed

lemma next_take_result:
  assumes "next_take env i j s = Some t"
  shows "subcore_job (subcore_datas t i) = Some j" and "config t = config s"
    and "k \<noteq> i \<Longrightarrow> subcore_datas t k = subcore_datas s k"
    and "busy_time (subcore_datas t i) = busy_time (subcore_datas s i)"
    and "\<exists>J. jobs t j = Some J \<and> job_hw_recoder_time J = je_now env"
  using assms
  by (auto simp: next_take_def unlink_entry_def upd_job_eq_Some bind_eq_Some_conv Let_def split: if_splits)

text \<open>
  A job that occupies two cores has one \<open>hw_recoder_time\<close> for both: when the timer looks at the cores at
  the same instant, the second core is credited nothing for the interval.
\<close>

lemma shared_job_load_lost:
  assumes "subcore_job (subcore_datas s 0) = Some j" and "subcore_job (subcore_datas s 1) = Some j"
    and "jobs s j = Some J" and "for_each [0, 1] (timer_core (\<lambda>k. now)) s = Some t"
  shows "total_busy_time (subcore_datas t 0) = busy_time (subcore_datas s 0) + (now - job_hw_recoder_time J)"
    and "total_busy_time (subcore_datas t 1) = busy_time (subcore_datas s 1)"
  using assms by (auto simp: timer_core_def sample_core_def upd_job_def)

section \<open>Operating points\<close>

text \<open>The recorded frequency and voltage belong to one operating point of the table.\<close>

definition at_opp :: "(u64 \<Rightarrow> int + u64 \<times> u64) \<Rightarrow> rknpu_device \<Rightarrow> bool" where
  "at_opp opp s \<longleftrightarrow> (\<exists>f. opp f = Inr (current_freq (dvfs s), current_volt (dvfs s)))"

text \<open>A call of the target callback: what switching will return, by frequency, and the frequency asked for.\<close>

definition target_step ::
    "df_env \<Rightarrow> (u64 \<Rightarrow> int) \<times> u64 \<Rightarrow> rknpu_device \<Rightarrow> rknpu_device option" where
  "target_step env e s = Some (snd (snd (npu_devfreq_target (env\<lparr>set_rate_ret := fst e\<rparr>) (snd e) s)))"

text \<open>An error pointer stands for a negative error number.\<close>

definition opp_errors_negative :: "df_env \<Rightarrow> bool" where
  "opp_errors_negative env \<longleftrightarrow> (\<forall>f e. recommended_opp env f = Inl e \<longrightarrow> e < 0)"

lemma target_keeps_opp:
  assumes "at_opp (recommended_opp env) s" and "npu_devfreq_target env f s = (r, f', t)"
  shows "at_opp (recommended_opp env) t"
proof (cases "recommended_opp env f")
  case (Inr p)
  then obtain g v where "recommended_opp env f = Inr (g, v)" by (cases p) simp
  with assms show ?thesis by (auto simp: npu_devfreq_target_def at_opp_def upd_dvfs_def split: if_splits)
qed (use assms in \<open>simp add: npu_devfreq_target_def\<close>)

interpretation dvfs_system: invariant_system
  "at_opp (recommended_opp env)" "target_step env" "at_opp (recommended_opp env)"
  for env :: df_env
proof unfold_locales
  fix s e t
  assume i: "at_opp (recommended_opp env) s" and st: "target_step env e s = Some t"
  obtain r f' u where "npu_devfreq_target (env\<lparr>set_rate_ret := fst e\<rparr>) (snd e) s = (r, f', u)"
    using prod_cases3 by blast
  with st target_keeps_opp [OF _ this] i show "at_opp (recommended_opp env) t"
    by (simp add: target_step_def)
qed

section \<open>Properties\<close>


definition load_device :: rknpu_device where
  "load_device = task_device\<lparr>jobs := [7 \<mapsto> new_job 0 (small_args RKNPU_JOB_PC 1)],
     subcore_datas := (subcore_datas task_device)(0 := idle_subcore\<lparr>todo_list := [7]\<rparr>)\<rparr>"



definition df_env_ok :: df_env where
  "df_env_ok = \<lparr>recommended_opp = (\<lambda>f. if f \<le> 500000000 then Inr (500000000, 700000) else Inr (1000000000, 800000)),
     set_rate_ret = (\<lambda>f. 0), df_clk_rate = 1000000000, df_volt = 800000, opp_regulators_ret = 0,
     opp_clkname_ret = 0, opp_table_ret = 0, add_governor_ret = 0, add_device_ret = 0\<rparr>"


text \<open>
  Setting up frequency scaling is all or nothing: the governor is registered exactly when the devfreq device
  exists afterwards, and \<open>rknpu_devfreq_remove\<close> gives back what was taken.
\<close>

lemma devfreq_init_all_or_nothing:
  assumes "\<not> has_devfreq (pwr s)" and "rknpu_devfreq_init env s = (ret, t)"
  shows "dev_count t = (if has_devfreq (pwr t) then (dev_count s)(R_governor := dev_count s R_governor + 1)
                        else dev_count s)"
    and "dev_count (rknpu_devfreq_remove t) = dev_count s"
  using assms
  by (auto simp: rknpu_devfreq_init_def rknpu_devfreq_remove_def devfreq_start_def upd_dvfs_def count_dev_def
      Let_def split: if_splits sum.splits)

lemma devfreq_init_result:
  assumes "opp_errors_negative env" and "\<not> has_devfreq (pwr s)" and "rknpu_devfreq_init env s = (ret, t)"
  shows "ret = 0 \<longleftrightarrow> has_devfreq (pwr t)"
  using assms
  by (auto simp: rknpu_devfreq_init_def devfreq_start_def upd_dvfs_def count_dev_def
      opp_errors_negative_def Let_def split: if_splits sum.splits)

end
