(* ===== verification/Rknpu_Debugger.thy ===== *)
theory Rknpu_Debugger
  imports Rknpu_Devfreq
begin

text \<open>
  The debug files (\<open>rknpu_debugger.c\<close>): what each file shows, what writing to it does, and how the files
  are created and removed under debugfs and procfs.

  A file's text is a string; a write gets the bytes the user passed and whether copying them succeeded.
  \<open>kstrtoul\<close> and \<open>update_devfreq\<close> of the kernel are arguments. The theory shows that the power switch gives
  back exactly the references it took, that a failed switch-on breaks this, that the delay can be read back
  and written, and that creating the files is all or nothing.
\<close>

section \<open>Model\<close>

subsection \<open>Text\<close>

text \<open>\<open>%d\<close> and \<open>%lu\<close> of a number.\<close>

fun decimal :: "nat \<Rightarrow> string" where
  "decimal n = (if n < 10 then [char_of (48 + n)] else decimal (n div 10) @ [char_of (48 + n mod 10)])"

declare decimal.simps [simp del]

abbreviation newline :: char where "newline \<equiv> CHR 0x0A"

text \<open>
  The common beginning of the write functions: the length check against the local buffer of \<open>sz\<close> bytes, the
  copy, and the removal of a final newline. The result is the C string in the buffer.
\<close>

definition read_param :: "nat \<Rightarrow> bool \<Rightarrow> string \<Rightarrow> int + string" where
  "read_param sz copy_ok ubuf =
    (if ubuf = [] \<or> length ubuf \<ge> sz then Inl (- EINVAL)
     else if \<not> copy_ok then Inl (- EFAULT)
     else Inr (takeWhile (\<lambda>c. c \<noteq> CHR 0x00) (if last ubuf = newline then butlast ubuf else ubuf)))"

subsection \<open>Show functions\<close>

definition rknpu_version_show :: string where
  "rknpu_version_show = ''RKNPU driver'' @ '': v'' @ decimal 0 @ ''.'' @ decimal 9 @ ''.'' @ decimal 8 @ [newline]"

text \<open>
  The load in percent. The busy time is signed, the division unsigned; the format \<open>%2.d\<close> pads to two places
  and prints nothing for 0.
\<close>

definition core_load :: "int \<Rightarrow> nat" where
  "core_load busy = min 100 (unat ((word_of_int busy :: u64) div word_of_int (RKNPU_LOAD_INTERVAL div 100)))"

definition load_text :: "nat \<Rightarrow> string" where
  "load_text n = (let d = (if n = 0 then [] else decimal n) in replicate (2 - length d) (CHR '' '') @ d)"

definition rknpu_load_show :: "rknpu_device \<Rightarrow> string" where
  "rknpu_load_show s =
    (let n = cfg_num_irqs (config s) in
     ''NPU load: '' @
     concat (map (\<lambda>i.
       (if n > 1 then '' Core'' @ decimal i @ '': '' else []) @
       load_text (core_load (total_busy_time (subcore_datas s i))) @
       (if n > 1 then ''%,'' else ''%'')) [0..<n]) @ [newline])"

definition rknpu_power_show :: "rknpu_device \<Rightarrow> string" where
  "rknpu_power_show s = (if power_refcount (pwr s) > 0 then ''on'' else ''off'') @ [newline]"

definition rknpu_power_put_delay_show :: "rknpu_device \<Rightarrow> string" where
  "rknpu_power_put_delay_show s = decimal (power_put_delay (pwr s)) @ [newline]"

text \<open>The clock rate is read with the power on; \<open>depth\<close> bounds the call chain of \<open>rknpu_power_put\<close>.\<close>

definition rknpu_freq_show :: "nat \<Rightarrow> power_env \<Rightarrow> u64 \<Rightarrow> rknpu_device \<Rightarrow> (string \<times> rknpu_device) option" where
  "rknpu_freq_show depth env clk_rate s =
    (let (_, s) = rknpu_power_get env s in
     do { (_, s) \<leftarrow> rknpu_power_put depth env s;
          Some (decimal (unat clk_rate) @ [newline], s) })"

text \<open>\<open>current_volt\<close> is an \<open>unsigned long\<close>; without a regulator the call dereferences NULL.\<close>

definition rknpu_volt_show :: "int \<Rightarrow> rknpu_device \<Rightarrow> string option" where
  "rknpu_volt_show volt s =
    (if has_vdd (pwr s) then Some (decimal (unat (word_of_int volt :: u64)) @ [newline]) else None)"

definition rknpu_reset_show :: "rknpu_device \<Rightarrow> string" where
  "rknpu_reset_show s = (if \<not> bypass_soft_reset (rst s) then ''on'' else ''off'') @ [newline]"

subsection \<open>Write functions\<close>

definition upd_pwr :: "(power_state \<Rightarrow> power_state) \<Rightarrow> rknpu_device \<Rightarrow> rknpu_device" where
  "upd_pwr f s = s\<lparr>pwr := f (pwr s)\<rparr>"

text \<open>
  The two branches of \<open>rknpu_power_set\<close>. \<open>atomic_dec_if_positive\<close> stores the decremented value unless it is
  negative; the device's own count then loses what is left of the debugger's, and \<open>rknpu_power_put\<close> the last one.
\<close>

definition power_switch_on :: "power_env \<Rightarrow> rknpu_device \<Rightarrow> rknpu_device" where
  "power_switch_on env s =
    snd (rknpu_power_get env (upd_pwr (\<lambda>p. p\<lparr>cmdline_power_refcount := cmdline_power_refcount p + 1\<rparr>) s))"

definition power_switch_off :: "nat \<Rightarrow> power_env \<Rightarrow> rknpu_device \<Rightarrow> rknpu_device option" where
  "power_switch_off depth env s =
    (if power_refcount (pwr s) > 0 \<and> cmdline_power_refcount (pwr s) - 1 \<ge> 0 then
       map_option snd (rknpu_power_put depth env
         (upd_pwr (\<lambda>p. p\<lparr>power_refcount := power_refcount p - (cmdline_power_refcount p - 1),
                        cmdline_power_refcount := 0\<rparr>) s))
     else Some s)"

definition rknpu_power_set ::
    "nat \<Rightarrow> power_env \<Rightarrow> bool \<Rightarrow> string \<Rightarrow> rknpu_device \<Rightarrow> (int \<times> rknpu_device) option" where
  "rknpu_power_set depth env copy_ok ubuf s =
    (case read_param 8 copy_ok ubuf of
       Inl e \<Rightarrow> Some (e, s)
     | Inr buf \<Rightarrow> do {
         s \<leftarrow> (if buf = ''on'' then Some (power_switch_on env s)
               else if buf = ''off'' then power_switch_off depth env s
               else Some s);
         Some (int (length ubuf), s) })"

definition rknpu_power_put_delay_set ::
    "(string \<Rightarrow> int + u64) \<Rightarrow> bool \<Rightarrow> string \<Rightarrow> rknpu_device \<Rightarrow> int \<times> rknpu_device" where
  "rknpu_power_put_delay_set kstrtoul copy_ok ubuf s =
    (case read_param 16 copy_ok ubuf of
       Inl e \<Rightarrow> (e, s)
     | Inr buf \<Rightarrow>
         (case kstrtoul buf of
            Inl _ \<Rightarrow> (- EFAULT, s)
          | Inr v \<Rightarrow> (int (length ubuf), upd_pwr (\<lambda>p. p\<lparr>power_put_delay := unat v\<rparr>) s)))"

definition rknpu_freq_set ::
    "(string \<Rightarrow> int + u64) \<Rightarrow> (rknpu_device \<Rightarrow> rknpu_device) \<Rightarrow> u64 \<Rightarrow> nat \<Rightarrow> power_env \<Rightarrow> bool \<Rightarrow> string
      \<Rightarrow> rknpu_device \<Rightarrow> (int \<times> rknpu_device) option" where
  "rknpu_freq_set kstrtoul update_devfreq clk_rate depth env copy_ok ubuf s =
    (case read_param 16 copy_ok ubuf of
       Inl e \<Rightarrow> Some (e, s)
     | Inr buf \<Rightarrow>
         (case kstrtoul buf of
            Inl _ \<Rightarrow> Some (- EFAULT, s)
          | Inr freq \<Rightarrow>
              if \<not> has_devfreq (pwr s) then Some (- EFAULT, s)
              else
                let (_, s) = rknpu_power_get env s;
                    s = (if freq \<noteq> clk_rate
                         then update_devfreq (upd_dvfs (\<lambda>d. d\<lparr>ondemand_freq := freq\<rparr>) s) else s)
                in do { (_, s) \<leftarrow> rknpu_power_put depth env s; Some (int (length ubuf), s) }))"

definition rknpu_reset_set ::
    "reset_env \<Rightarrow> bool \<Rightarrow> string \<Rightarrow> rknpu_device \<Rightarrow> (int \<times> rknpu_device) option" where
  "rknpu_reset_set env copy_ok ubuf s =
    (case read_param 8 copy_ok ubuf of
       Inl e \<Rightarrow> Some (e, s)
     | Inr buf \<Rightarrow> do {
         s \<leftarrow> (if buf = ''1'' \<and> power_refcount (pwr s) > 0 then map_option snd (rknpu_soft_reset env s)
               else if buf = ''on'' then Some (s\<lparr>rst := (rst s)\<lparr>bypass_soft_reset := False\<rparr>\<rparr>)
               else if buf = ''off'' then Some (s\<lparr>rst := (rst s)\<lparr>bypass_soft_reset := True\<rparr>\<rparr>)
               else Some s);
         Some (int (length ubuf), s) })"

subsection \<open>The files\<close>

text \<open>
  The bookkeeping of one file system: the nodes in the entry list (by index of their template), whether the
  directory exists, and the number of nodes allocated. The environment says which allocations and file
  creations succeed. debugfs and procfs are handled by the same code with other kernel calls.
\<close>

record fs_state =
  entry_list :: "nat list"
  fs_dir :: bool
  node_count :: int

record fs_env =
  mkdir_ok :: bool
  kmalloc_ok :: "nat \<Rightarrow> bool"
  create_ok :: "nat \<Rightarrow> bool"

definition rknpu_debugger_root_list :: "bool \<Rightarrow> string list" where
  "rknpu_debugger_root_list sram =
    [''version'', ''load'', ''power'', ''freq'', ''volt'', ''delayms'', ''reset''] @ (if sram then [''mm''] else [])"

definition rknpu_debugfs_remove_files :: "fs_state \<Rightarrow> fs_state" where
  "rknpu_debugfs_remove_files fs =
    \<lparr>entry_list = [], fs_dir = False, node_count = node_count fs - int (length (entry_list fs))\<rparr>"

text \<open>The loop over the templates \<open>i, i + 1, \<dots>\<close>, of which \<open>n\<close> are left.\<close>

fun rknpu_debugfs_create_files :: "fs_env \<Rightarrow> nat \<Rightarrow> nat \<Rightarrow> fs_state \<Rightarrow> int \<times> fs_state" where
  "rknpu_debugfs_create_files env i 0 fs = (0, fs)"
| "rknpu_debugfs_create_files env i (Suc n) fs =
    (if \<not> kmalloc_ok env i then (- 1, rknpu_debugfs_remove_files fs)
     else
       let fs = fs\<lparr>node_count := node_count fs + 1\<rparr> in
       if \<not> create_ok env i then (- 1, rknpu_debugfs_remove_files (fs\<lparr>node_count := node_count fs - 1\<rparr>))
       else rknpu_debugfs_create_files env (Suc i) n (fs\<lparr>entry_list := entry_list fs @ [i]\<rparr>))"

definition rknpu_debugfs_remove :: "fs_state \<Rightarrow> fs_state" where
  "rknpu_debugfs_remove fs = rknpu_debugfs_remove_files fs"

definition rknpu_debugfs_init :: "fs_env \<Rightarrow> bool \<Rightarrow> fs_state \<Rightarrow> int \<times> fs_state" where
  "rknpu_debugfs_init env sram fs =
    (if \<not> mkdir_ok env then (- EIO, fs\<lparr>fs_dir := False\<rparr>)
     else
       let (ret, fs) = rknpu_debugfs_create_files env 0 (length (rknpu_debugger_root_list sram))
                         (fs\<lparr>fs_dir := True\<rparr>)
       in if ret \<noteq> 0 then (ret, rknpu_debugfs_remove fs) else (0, fs))"

definition rknpu_procfs_remove_files :: "fs_state \<Rightarrow> fs_state" where
  "rknpu_procfs_remove_files = rknpu_debugfs_remove_files"

definition rknpu_procfs_create_files :: "fs_env \<Rightarrow> nat \<Rightarrow> nat \<Rightarrow> fs_state \<Rightarrow> int \<times> fs_state" where
  "rknpu_procfs_create_files = rknpu_debugfs_create_files"

definition rknpu_procfs_remove :: "fs_state \<Rightarrow> fs_state" where
  "rknpu_procfs_remove fs = rknpu_procfs_remove_files fs"

definition rknpu_procfs_init :: "fs_env \<Rightarrow> bool \<Rightarrow> fs_state \<Rightarrow> int \<times> fs_state" where
  "rknpu_procfs_init = rknpu_debugfs_init"

text \<open>Both file systems are tried and their results ignored; \<open>INIT_LIST_HEAD\<close> empties the lists.\<close>

definition rknpu_debugger_init :: "fs_env \<Rightarrow> fs_env \<Rightarrow> bool \<Rightarrow> fs_state \<times> fs_state \<Rightarrow> int \<times> fs_state \<times> fs_state" where
  "rknpu_debugger_init denv penv sram d =
    (0, snd (rknpu_debugfs_init denv sram ((fst d)\<lparr>entry_list := []\<rparr>)),
        snd (rknpu_procfs_init penv sram ((snd d)\<lparr>entry_list := []\<rparr>)))"

definition rknpu_debugger_remove :: "fs_state \<times> fs_state \<Rightarrow> int \<times> fs_state \<times> fs_state" where
  "rknpu_debugger_remove d = (0, rknpu_debugfs_remove (fst d), rknpu_procfs_remove (snd d))"

text \<open>Writing to a file: the templates without a write function accept and ignore what is written.\<close>

record dbg_env =
  dbg_kstrtoul :: "string \<Rightarrow> int + u64"
  dbg_update_devfreq :: "rknpu_device \<Rightarrow> rknpu_device"
  dbg_clk_rate :: u64
  dbg_power :: power_env
  dbg_reset :: reset_env

definition rknpu_debugger_write ::
    "dbg_env \<Rightarrow> nat \<Rightarrow> string \<Rightarrow> bool \<Rightarrow> string \<Rightarrow> rknpu_device \<Rightarrow> (int \<times> rknpu_device) option" where
  "rknpu_debugger_write env depth name copy_ok ubuf s =
    (if name = ''power'' then rknpu_power_set depth (dbg_power env) copy_ok ubuf s
     else if name = ''freq'' then
       rknpu_freq_set (dbg_kstrtoul env) (dbg_update_devfreq env) (dbg_clk_rate env) depth (dbg_power env) copy_ok ubuf s
     else if name = ''delayms'' then Some (rknpu_power_put_delay_set (dbg_kstrtoul env) copy_ok ubuf s)
     else if name = ''reset'' then rknpu_reset_set (dbg_reset env) copy_ok ubuf s
     else Some (int (length ubuf), s))"

section \<open>The power switch beside the users\<close>

text \<open>
  The power system of the driver together with the debug switch: the sections of the users as before, and
  writes of \<open>on\<close> and \<open>off\<close> to the power file. Switching on is a step here only when it succeeds; what happens
  when it fails is the subject of a property of its own.
\<close>

datatype debug_event = User power_event | Switch_On power_env | Switch_Off power_env

fun debug_step :: "debug_event \<Rightarrow> rknpu_device \<times> nat \<Rightarrow> (rknpu_device \<times> nat) option" where
  "debug_step (User e) (s, users) = power_step e (s, users)"
| "debug_step (Switch_On env) (s, users) =
    do { (_, t) \<leftarrow> rknpu_power_set 2 env True ''on'' s;
         if power_refcount (pwr t) = power_refcount (pwr s) + 1 then Some (t, users) else None }"
| "debug_step (Switch_Off env) (s, users) =
    map_option (\<lambda>(_, t). (t, users)) (rknpu_power_set 2 env True ''off'' s)"

definition debug_init :: "rknpu_device \<times> nat \<Rightarrow> bool" where
  "debug_init p \<longleftrightarrow> power_init p \<and> cmdline_power_refcount (pwr (fst p)) = 0"

text \<open>The references of the debug switch are those of additional users.\<close>

definition debug_inv :: "rknpu_device \<times> nat \<Rightarrow> bool" where
  "debug_inv p \<longleftrightarrow> 0 \<le> cmdline_power_refcount (pwr (fst p)) \<and>
     power_inv (fst p, snd p + nat (cmdline_power_refcount (pwr (fst p))))"

lemma rail_cmdline [simp]:
  "cmdline_power_refcount (rail_get_if b r p) = cmdline_power_refcount p"
  "cmdline_power_refcount (rail_put_if b r p) = cmdline_power_refcount p"
  by (simp_all add: rail_get_if_def rail_put_if_def rail_get_def rail_put_def)

lemma powered_cmdline [simp]:
  "cmdline_power_refcount (powered p) = cmdline_power_refcount p"
  "cmdline_power_refcount (unpowered p) = cmdline_power_refcount p"
  by (simp_all add: powered_def unpowered_def)

lemma present_cmdline [simp]: "present (p\<lparr>cmdline_power_refcount := n\<rparr>) = present p"
proof -
  have "present (p\<lparr>cmdline_power_refcount := n\<rparr>) r = present p r" for r by (cases r) simp_all
  then show ?thesis by blast
qed

lemma power_inv_cmdline [simp]:
  "power_inv (upd_pwr (\<lambda>p. p\<lparr>cmdline_power_refcount := f p\<rparr>) s, n) = power_inv (s, n)"
  by (simp add: power_inv_def upd_pwr_def all_rails_def)

lemma get_cmdline:
  assumes "\<not> devfreq_lock (pwr s)" and "rknpu_power_get env s = (ret, t)"
  shows "cmdline_power_refcount (pwr t) = cmdline_power_refcount (pwr s)"
  using assms by (cases rule: power_get_cases) simp_all

lemma drop_cmdline:
  assumes "\<not> devfreq_lock (pwr s)" and "0 < power_refcount (pwr s)" and "drop_power env s = (ret, t)"
  shows "cmdline_power_refcount (pwr t) = cmdline_power_refcount (pwr s)"
  using assms by (cases rule: drop_power_cases) simp_all

lemma delay_cmdline [simp]: "cmdline_power_refcount (pwr (delay_section s)) = cmdline_power_refcount (pwr s)"
  by (simp add: delay_section_def)

text \<open>A step of the users does not touch the switch, and is the same with more users around.\<close>

lemma power_step_more:
  assumes "power_inv (s, u + c)" and "power_step e (s, u) = Some (t, u')"
  shows "cmdline_power_refcount (pwr t) = cmdline_power_refcount (pwr s)"
    and "power_step e (s, u + c) = Some (t, u' + c)"
proof -
  have l: "\<not> devfreq_lock (pwr s)" using assms(1) by (simp add: power_inv_def)
  show "cmdline_power_refcount (pwr t) = cmdline_power_refcount (pwr s)"
  proof (cases e)
    case (Get env)
    with assms(2) l get_cmdline [OF l, of env] show ?thesis by (auto split: prod.splits)
  next
    case (Put env)
    with assms have "0 < power_refcount (pwr s)" by (auto simp: power_inv_def split: if_splits)
    with Put assms(2) l drop_cmdline [OF l, of env] show ?thesis by (auto split: prod.splits if_splits)
  next
    case (Off_Work env)
    with assms have "0 < power_refcount (pwr s)" by (auto simp: power_inv_def split: if_splits)
    with Off_Work assms(2) l drop_cmdline [of "set_off_work False s" env] show ?thesis
      by (auto split: prod.splits if_splits)
  qed (use assms(2) in \<open>auto split: if_splits\<close>)
  show "power_step e (s, u + c) = Some (t, u' + c)"
    using assms(2) by (cases e) (auto split: prod.splits if_splits)
qed

lemma power_set_on: "rknpu_power_set depth env True ''on'' s = Some (2, power_switch_on env s)"
  by (simp add: rknpu_power_set_def read_param_def)

lemma power_set_off:
  "rknpu_power_set depth env True ''off'' s = map_option (\<lambda>t. (3, t)) (power_switch_off depth env s)"
  by (cases "power_switch_off depth env s") (simp_all add: rknpu_power_set_def read_param_def)

text \<open>Giving a user's reference back, by whichever way \<open>rknpu_power_put\<close> takes.\<close>

lemma power_put_cmdline:
  assumes "power_inv (s, u + 1)" and "rknpu_power_put 2 env s = Some (ret, t)"
  shows "cmdline_power_refcount (pwr t) = cmdline_power_refcount (pwr s)"
proof -
  obtain r v where d: "drop_power env s = (r, v)" by fastforce
  have l: "\<not> devfreq_lock (pwr s)" "0 < power_refcount (pwr s)" using assms(1) by (auto simp: power_inv_def)
  have "t = (if r = 0 then v else delay_section v)"
    using assms(2) d by (auto simp: numeral_2_eq_2 bind_eq_Some_conv split: if_splits)
  with drop_cmdline [OF l d] show ?thesis by (auto split: if_splits)
qed

lemma switch_off_inv:
  assumes "debug_inv (s, u)" and "power_switch_off 2 env s = Some t"
  shows "debug_inv (t, u)" and "cmdline_power_refcount (pwr t) = 0"
proof -
  let ?c = "cmdline_power_refcount (pwr s)"
  let ?s = "upd_pwr (\<lambda>p. p\<lparr>power_refcount := power_refcount p - (cmdline_power_refcount p - 1),
                        cmdline_power_refcount := 0\<rparr>) s"
  have "debug_inv (t, u) \<and> cmdline_power_refcount (pwr t) = 0"
  proof (cases "0 < ?c")
    case True
    have i: "power_inv (s, u + nat ?c)" using assms(1) by (simp add: debug_inv_def)
    with True have "0 < power_refcount (pwr s)" by (simp add: power_inv_def)
    with i have "power_inv (?s, u + 1)" using True
      by (cases "power_off_work (pwr s)") (auto simp: power_inv_def upd_pwr_def all_rails_def)
    moreover from assms(2) True \<open>0 < power_refcount (pwr s)\<close> obtain r where "rknpu_power_put 2 env ?s = Some (r, t)"
      by (auto simp: power_switch_off_def)
    moreover have "cmdline_power_refcount (pwr ?s) = 0" by (simp add: upd_pwr_def)
    ultimately show ?thesis
      using power_inv_put(1) [of _ "u + 1"] power_put_cmdline by (fastforce simp: debug_inv_def)
  next
    case False
    with assms show ?thesis by (auto simp: power_switch_off_def debug_inv_def)
  qed
  then show "debug_inv (t, u)" "cmdline_power_refcount (pwr t) = 0" by blast+
qed

interpretation debug: invariant_system debug_init debug_step debug_inv
proof unfold_locales
  fix e p q
  assume inv: "debug_inv p" and st: "debug_step e p = Some q"
  obtain s u t u' where pq: "p = (s, u)" "q = (t, u')" by fastforce
  let ?c = "nat (cmdline_power_refcount (pwr s))"
  have i: "power_inv (s, u + ?c)" "0 \<le> cmdline_power_refcount (pwr s)" using inv pq by (simp_all add: debug_inv_def)
  show "debug_inv q"
  proof (cases e)
    case (User ev)
    with st pq have "power_step ev (s, u) = Some (t, u')" by simp
    note m = power_step_more [OF i(1) this]
    from power.inv_step [OF i(1) m(2)] m(1) i(2) pq show ?thesis by (simp add: debug_inv_def)
  next
    case (Switch_On env)
    let ?s = "upd_pwr (\<lambda>p. p\<lparr>cmdline_power_refcount := cmdline_power_refcount p + 1\<rparr>) s"
    obtain ret v where g: "rknpu_power_get env ?s = (ret, v)" by fastforce
    with Switch_On st pq have v: "v = t" "u' = u" "power_refcount (pwr t) = power_refcount (pwr ?s) + 1"
      by (auto simp: power_set_on power_switch_on_def upd_pwr_def split: if_splits)
    have l: "\<not> devfreq_lock (pwr ?s)" using i(1) by (simp add: power_inv_def upd_pwr_def)
    have "ret = 0" using l g by (cases rule: power_get_cases) (use v in simp_all)
    with g v(1) have g: "rknpu_power_get env ?s = (0, t)" by simp
    have "power_inv (t, Suc (u + ?c))" using power_inv_get [OF _ g, of "u + ?c"] i(1) by simp
    moreover have "cmdline_power_refcount (pwr t) = cmdline_power_refcount (pwr s) + 1"
      using get_cmdline [OF l g] by (simp add: upd_pwr_def)
    ultimately show ?thesis using i(2) pq v(2) by (simp add: debug_inv_def nat_add_distrib)
  next
    case (Switch_Off env)
    with st pq have "power_switch_off 2 env s = Some t" "u' = u" by (auto simp: power_set_off)
    with switch_off_inv [OF _ this(1)] inv pq show ?thesis by simp
  qed
qed (auto simp: debug_init_def debug_inv_def power_init_def power_inv_def)

section \<open>Reading back a number\<close>

lemma decimal_length: "0 < k \<Longrightarrow> length (decimal n) \<le> k \<longleftrightarrow> n < 10 ^ k"
proof (induction n arbitrary: k rule: decimal.induct)
  case (1 n)
  show ?case
  proof (cases "n < 10")
    case True
    moreover have "(10 :: nat) \<le> 10 ^ k" using 1(2) self_le_power [of 10 k] by simp
    ultimately show ?thesis using 1(2) by (simp add: decimal.simps [of n])
  next
    case False
    then obtain m where k: "k = Suc m" using 1(2) by (cases k) simp_all
    show ?thesis
    proof (cases "m = 0")
      case True
      have "decimal (n div 10) \<noteq> []" by (simp add: decimal.simps [of "n div 10"])
      with True False k show ?thesis by (simp add: decimal.simps [of n])
    next
      case m: False
      with 1(1) [OF False] have "length (decimal (n div 10)) \<le> m \<longleftrightarrow> n div 10 < 10 ^ m" by simp
      moreover have "n div 10 < 10 ^ m \<longleftrightarrow> n < 10 ^ Suc m" by (simp add: div_less_iff_less_mult mult.commute)
      ultimately show ?thesis using False k by (simp add: decimal.simps [of n])
    qed
  qed
qed

lemma decimal_digits: "c \<in> set (decimal n) \<Longrightarrow> c \<noteq> CHR 0x00 \<and> c \<noteq> newline"
proof (induction n rule: decimal.induct)
  case (1 n)
  have digit: "char_of (48 + d) \<noteq> CHR 0x00 \<and> char_of (48 + d) \<noteq> newline" if "d < 10" for d :: nat
  proof (intro conjI notI)
    have code: "of_char (char_of (48 + d) :: char) = 48 + d" using that by simp
    show False if "char_of (48 + d) = CHR 0x00" using code unfolding that by simp
    show False if "char_of (48 + d) = newline" using code unfolding that by simp
  qed
  show ?case
    using 1 digit [of n] digit [of "n mod 10"] by (cases "n < 10") (auto simp: decimal.simps [of n])
qed

lemma decimal_not_Nil [simp]: "decimal n \<noteq> []"
  by (simp add: decimal.simps [of n])

lemma read_param_decimal:
  "length (decimal n) + 1 < sz \<Longrightarrow> read_param sz True (decimal n @ [newline]) = Inr (decimal n)"
  by (simp add: read_param_def decimal_digits)

section \<open>Creating the files\<close>

lemma create_files_result:
  "rknpu_debugfs_create_files env i n fs =
    (if list_all (\<lambda>k. kmalloc_ok env k \<and> create_ok env k) [i..<i + n]
     then (0, fs\<lparr>entry_list := entry_list fs @ [i..<i + n], node_count := node_count fs + int n\<rparr>)
     else (- 1, rknpu_debugfs_remove_files fs))"
proof (induction n arbitrary: i fs)
  case (Suc n)
  have "[i..<i + Suc n] = i # [Suc i..<Suc i + n]" by (simp add: upt_conv_Cons)
  then show ?case by (simp add: Suc.IH Let_def rknpu_debugfs_remove_files_def)
qed simp

text \<open>
  Creating the files is all or nothing: on success every file exists, one node each; after any failure no
  node, no entry and no directory is left; and removing the files gives every node back.
\<close>

lemma debugfs_init_all_or_nothing:
  assumes "entry_list fs = []" and "rknpu_debugfs_init env sram fs = (ret, fs')"
  shows "ret = 0 \<Longrightarrow> entry_list fs' = [0..<length (rknpu_debugger_root_list sram)] \<and> fs_dir fs' \<and>
           node_count fs' = node_count fs + int (length (rknpu_debugger_root_list sram))"
    and "ret \<noteq> 0 \<Longrightarrow> entry_list fs' = [] \<and> \<not> fs_dir fs' \<and> node_count fs' = node_count fs"
    and "node_count (rknpu_debugfs_remove fs') = node_count fs"
  using assms
  by (auto simp: rknpu_debugfs_init_def create_files_result rknpu_debugfs_remove_def rknpu_debugfs_remove_files_def
      split: if_splits)

section \<open>Properties\<close>



text \<open>
  A failed switch-on turns into somebody else's switch-off. Writing \<open>on\<close> when the device cannot be powered
  reports success and counts a reference that was never taken; after a user has then powered the device,
  writing \<open>off\<close> takes the user's reference: all rails go off although the user never gave its reference back.
\<close>

lemma debug_failed_on_steals:
  assumes "debug_init (s, 0)" and "rknpu_power_set 2 env True ''on'' s = Some (n, s1)"
    and "power_refcount (pwr s1) = 0" and "rknpu_power_get env1 s1 = (0, s2)"
    and "\<not> (multiple_domains (pwr s) \<and> has_iommu_group env2)"
  shows "n = 2 \<and> all_rails 1 (pwr s2) \<and>
    (\<exists>s3. rknpu_power_set 2 env2 True ''off'' s2 = Some (3, s3) \<and> power_refcount (pwr s3) = 0 \<and> all_rails 0 (pwr s3))"
proof -
  let ?s = "upd_pwr (\<lambda>p. p\<lparr>cmdline_power_refcount := cmdline_power_refcount p + 1\<rparr>) s"
  have i: "power_inv (?s, 0)" "cmdline_power_refcount (pwr ?s) = 1" "\<not> power_off_work (pwr ?s)"
      "power_refcount (pwr ?s) = 0"
    using assms(1) by (auto simp: debug_init_def power_init_def power_inv_def upd_pwr_def all_rails_def)
  have l: "\<not> devfreq_lock (pwr ?s)" using i(1) by (simp add: power_inv_def)
  obtain ret v where g: "rknpu_power_get env ?s = (ret, v)" by fastforce
  with assms(2) have v: "n = 2" "v = s1" by (auto simp: power_set_on power_switch_on_def)
  have s1: "pwr s1 = pwr ?s" using l g by (cases rule: power_get_cases) (use v assms(3) i(4) in simp_all)
  then have "power_inv (s1, 0)" using i(1,3,4) by (simp add: power_inv_def)
  from power_inv_get [OF this assms(4)] have s2: "power_inv (s2, 1)" by simp
  have l1: "\<not> devfreq_lock (pwr s1)" using s1 l by simp
  have p2: "pwr s2 = powered ((pwr s1)\<lparr>power_refcount := 1\<rparr>)"
    using l1 assms(4) by (cases rule: power_get_cases) (use assms(3) in simp_all)
  let ?s2 = "upd_pwr (\<lambda>p. p\<lparr>power_refcount := power_refcount p - (cmdline_power_refcount p - 1),
                        cmdline_power_refcount := 0\<rparr>) s2"
  have r: "power_refcount (pwr s2) = 1" "cmdline_power_refcount (pwr s2) = 1" using p2 s1 i(2) by simp_all
  have i2: "power_inv (?s2, 1)" using s2 r by (auto simp: power_inv_def upd_pwr_def all_rails_def split: if_splits)
  have md: "\<not> (multiple_domains (pwr ?s2) \<and> has_iommu_group env2)"
    using assms(5) p2 s1 by (auto simp: upd_pwr_def)
  obtain ret3 s3 where d: "drop_power env2 ?s2 = (ret3, s3)" by fastforce
  have "\<not> devfreq_lock (pwr ?s2)" "0 < power_refcount (pwr ?s2)" using i2 by (auto simp: power_inv_def)
  from this d have s3: "ret3 = 0 \<and> power_refcount (pwr s3) = 0"
    by (cases rule: drop_power_cases) (use md r in \<open>auto simp: upd_pwr_def\<close>)
  then have "power_inv (s3, 0)" using power_inv_drop [OF i2 _ d] by simp
  then have "all_rails 0 (pwr s3)" using s3 by (simp add: power_inv_def)
  moreover have "power_switch_off 2 env2 s2 = Some s3"
    using r d s3 by (simp add: power_switch_off_def numeral_2_eq_2)
  ultimately show ?thesis using v s3 s2 r by (simp add: power_set_off power_inv_def)
qed

text \<open>
  The power-off delay survives being read and written back. Writing what the delay file shows stores the same
  delay and accepts all bytes, provided the number has at most 14 digits; a longer one does not fit the
  16-byte buffer and is refused with \<open>-EINVAL\<close>, leaving the delay alone.
\<close>

lemma delay_show_set:
  assumes "\<And>v. kstrtoul (decimal (unat v)) = Inr v" and "power_put_delay (pwr s) < 2 ^ 64"
  shows "rknpu_power_put_delay_set kstrtoul True (rknpu_power_put_delay_show s) s =
    (if power_put_delay (pwr s) < 10 ^ 14 then (int (length (rknpu_power_put_delay_show s)), s) else (- EINVAL, s))"
proof -
  let ?n = "power_put_delay (pwr s)"
  have n: "unat (of_nat ?n :: u64) = ?n" using assms(2) by (simp add: unat_of_nat)
  have k: "kstrtoul (decimal ?n) = Inr (of_nat ?n)" using assms(1) [of "of_nat ?n"] by (simp only: n)
  show ?thesis
  proof (cases "?n < 10 ^ 14")
    case True
    then have "length (decimal ?n) + 1 < 16" using decimal_length [of 14 ?n] by simp
    from read_param_decimal [OF this] show ?thesis using True k n
      by (simp add: rknpu_power_put_delay_set_def rknpu_power_put_delay_show_def upd_pwr_def)
  next
    case False
    then have "15 \<le> length (decimal ?n)" using decimal_length [of 14 ?n] by simp
    then show ?thesis using False
      by (simp add: rknpu_power_put_delay_set_def rknpu_power_put_delay_show_def read_param_def)
  qed
qed

text \<open>A parser that satisfies what \<open>delay_show_set\<close> relies on: it inverts \<open>decimal\<close>.\<close>

definition parse_decimal :: "string \<Rightarrow> nat" where
  "parse_decimal = foldl (\<lambda>a c. 10 * a + (of_char c - 48)) 0"

lemma parse_decimal_inverse: "parse_decimal (decimal n) = n"
proof (induction n rule: decimal.induct)
  case (1 n)
  then show ?case by (cases "n < 10") (simp_all add: decimal.simps [of n] parse_decimal_def)
qed

end
