(* ===== verification/Rknpu_Probe.thy ===== *)
theory Rknpu_Probe
  imports Rknpu_Debugger Rknpu_Faults Rknpu_Gem_Map
begin

text \<open>
  Bringing the device up and taking it down (\<open>rknpu_probe\<close>, \<open>rknpu_remove\<close> and the functions they call in
  \<open>rknpu_drv.c\<close>), in the build of the repository's Kbuild file (DRM interface, fences, debugfs).

  Everything the probe acquires outside \<open>devm\<close> is counted by kind in \<open>dev_count\<close>; the rails are those of the
  power state. The error labels of the probe are definitions that call the next label, as the code falls
  through them. The theory shows that a failing probe gives everything back, what a successful one
  establishes for the state machines of the other theories, what removing the device leaves behind, and that
  the on-chip buffer is divided exactly between the cores.
\<close>

section \<open>Model\<close>

subsection \<open>The kernel's answers\<close>

record probe_env =
  pe_has_node :: bool
  pe_compatible :: string
  pe_kzalloc_ok :: bool
  pe_has_cores :: bool  \<comment> \<open>\<open>nvmem-cell-names\<close> has \<open>cores\<close>\<close>
  pe_iommu_node :: bool
  pe_iommu_available :: bool
  pe_group_ok :: bool
  pe_reserved_ret :: int
  pe_bypass_irq :: bool  \<comment> \<open>module parameters\<close>
  pe_bypass_reset :: bool
  pe_reset_count :: int
  pe_reset_kcalloc :: bool
  pe_reset_control :: "nat \<Rightarrow> int + nat"
  pe_num_clks :: int
  pe_vdd :: "int option"  \<comment> \<open>\<open>None\<close>: a regulator; \<open>Some e\<close>: an error pointer\<close>
  pe_mem :: "int option"
  pe_mem_resource :: "nat \<Rightarrow> bool"
  pe_ioremap_ret :: "nat \<Rightarrow> int"
  pe_bw_ioremap_ok :: bool
  pe_irq_byname :: "nat \<Rightarrow> int"
  pe_irq_index :: "nat \<Rightarrow> int"
  pe_request_irq_ret :: "nat \<Rightarrow> int"
  pe_drm_alloc_ret :: int
  pe_drm_register_ret :: int
  pe_fake_dev_ok :: bool
  pe_fake_dma_ret :: int
  pe_fence_ok :: bool
  pe_fence_context :: nat
  pe_power_domains :: int
  pe_genpd_ok :: "nat \<Rightarrow> bool"
  pe_power :: power_env
  pe_devfreq :: df_env
  pe_wq_ok :: bool
  pe_sram_node :: bool
  pe_sram_address_ret :: int
  pe_sram_res_start :: u64
  pe_sram_res_size :: u64
  pe_sram_io :: u64
  pe_mm_create :: "int + rknpu_mm"
  pe_nbuf_io :: u64
  pe_sgt_kzalloc_ok :: "nat \<Rightarrow> bool"
  pe_sgt_alloc_ret :: "nat \<Rightarrow> int"
  pe_dom_for_dev :: "domain option"

subsection \<open>The allocated structure\<close>

text \<open>
  What \<open>devm_kzalloc\<close> returns, for a device attached to the domain \<open>dom0\<close>. The configuration pointer is null
  and is set before its first use; any configuration stands for it.
\<close>

definition zero_device :: "build_config \<Rightarrow> rknpu_config \<Rightarrow> domain option \<Rightarrow> rknpu_device" where
  "zero_device bld cfg dom0 =
    \<lparr>config = cfg, build = bld, mmio = [], has_bw_priority_base = False,
     iommu = \<lparr>iommu_en = False, iommu_domain_num = 0, iommu_domain_id = 0, iommu_domains = (\<lambda>i. None),
              iommu_domain_refcount = 0, attached_domain = dom0, default_domain = dom0\<rparr>,
     rst = \<lparr>bypass_soft_reset = False, soft_reseting = False, reset_lock = False, srsts = [], num_srsts = 0,
            line_asserted = (\<lambda>l. False)\<rparr>,
     pwr = \<lparr>power_refcount = 0, cmdline_power_refcount = 0, power_put_delay = 0, power_off_work = False,
            has_vdd = False, has_mem = False, has_genpd = (\<lambda>i. False), multiple_domains = False,
            usage = (\<lambda>r. 0), has_devfreq = False, devfreq_lock = False\<rparr>,
     sram_start = 0, sram_size = 0, sram_mm = None, nbuf_start = 0, nbuf_size = 0, cache_sgt = (\<lambda>i. None),
     gem_objs = Map.empty, gem_handles = Map.empty, gem_count = (\<lambda>r. 0), io_map = [],
     fence_ctx = \<lparr>fctx_context = 0, fctx_seqno = 0\<rparr>, fences = Map.empty,
     subcore_datas = (\<lambda>i. idle_subcore), jobs = Map.empty, cleanup_works = [],
     sram_end = 0, nbuf_end = 0, sram_base_io = 0, nbuf_base_io = 0,
     dvfs = \<lparr>current_freq = 0, current_volt = 0, ondemand_freq = 0, df_previous_freq = 0, df_suspend_freq = 0,
             df_resume_freq = 0, df_last_frequency = 0, df_last_total_time = 0, df_last_busy_time = 0\<rparr>,
     dev_count = (\<lambda>r. 0)\<rparr>"

subsection \<open>On-chip memory\<close>

definition page_round_down :: "u64 \<Rightarrow> u64" where
  "page_round_down x = x AND NOT (mask PAGE_SHIFT)"

definition rknpu_find_sram_resource :: "probe_env \<Rightarrow> rknpu_device \<Rightarrow> int \<times> rknpu_device" where
  "rknpu_find_sram_resource env s =
    (let s = s\<lparr>sram_size := 0\<rparr> in
     if \<not> pe_sram_node env then (- EINVAL, s)
     else if pe_sram_address_ret env \<noteq> 0 then (pe_sram_address_ret env, s)
     else
       let s = s\<lparr>sram_start := page_round_up (pe_sram_res_start env),
                 sram_end := page_round_down (pe_sram_res_start env + pe_sram_res_size env)\<rparr> in
       if sram_end s \<le> sram_start s then (- EINVAL, s)
       else (0, s\<lparr>sram_base_io := pe_sram_io env, sram_size := ucast (sram_end s - sram_start s)\<rparr>))"

definition rknpu_find_nbuf_resource :: "probe_env \<Rightarrow> rknpu_device \<Rightarrow> int \<times> rknpu_device" where
  "rknpu_find_nbuf_resource env s =
    (if cfg_nbuf_size (config s) = 0 then (- EINVAL, s)
     else
       let s = s\<lparr>nbuf_start := cfg_nbuf_phyaddr (config s), nbuf_size := ucast (cfg_nbuf_size (config s)),
                 nbuf_base_io := pe_nbuf_io env\<rparr>
       in (0, s\<lparr>nbuf_end := nbuf_start s + ucast (nbuf_size s)\<rparr>))"

text \<open>
  \<open>rk3576_cache_sgt_init\<close>: the table of core \<open>i\<close> has one segment per core, taken from the two constant arrays;
  an index outside an array of four is a fault. \<open>ret\<close> is the C variable: a failing \<open>kzalloc\<close> leaves it alone.
\<close>

definition block_size_kb :: "u64 list" where "block_size_kb = [448, 64, 448, 64]"
definition block_offset_kb :: "u64 list" where "block_offset_kb = [0, 896, 448, 960]"

definition cache_table :: "nat \<Rightarrow> nat \<Rightarrow> cache_segment list option" where
  "cache_table core_num i =
    (if i * core_num + core_num \<le> 4
     then Some (map (\<lambda>j. \<lparr>seg_offset = block_offset_kb ! (i * core_num + j) * 1024,
                         seg_length = block_size_kb ! (i * core_num + j) * 1024\<rparr>) [0..<core_num])
     else None)"

definition free_cache_sgt :: "nat \<Rightarrow> rknpu_device \<Rightarrow> rknpu_device" where
  "free_cache_sgt i s =
    (if cache_sgt s i \<noteq> None
     then count_dev (R_cache_sgt i) (- 1) (s\<lparr>cache_sgt := (cache_sgt s)(i := None)\<rparr>) else s)"

fun cache_sgt_loop :: "probe_env \<Rightarrow> nat list \<Rightarrow> int \<Rightarrow> rknpu_device \<Rightarrow> (bool \<times> int \<times> rknpu_device) option" where
  "cache_sgt_loop env [] ret s = Some (True, ret, s)"
| "cache_sgt_loop env (i # is) ret s =
    (if \<not> pe_sgt_kzalloc_ok env i then Some (False, ret, s)
     else if pe_sgt_alloc_ret env i \<noteq> 0 then Some (False, pe_sgt_alloc_ret env i, s)
     else do {
       segs \<leftarrow> cache_table (cfg_num_irqs (config s)) i;
       cache_sgt_loop env is 0 (count_dev (R_cache_sgt i) 1 (s\<lparr>cache_sgt := (cache_sgt s)(i := Some segs)\<rparr>)) })"

definition rk3576_cache_sgt_init :: "probe_env \<Rightarrow> rknpu_device \<Rightarrow> (int \<times> rknpu_device) option" where
  "rk3576_cache_sgt_init env s =
    do { (ok, ret, s) \<leftarrow> cache_sgt_loop env [0..<cfg_num_irqs (config s)] 0 s;
         Some (if ok then (0, s) else (ret, fold free_cache_sgt [0..<cfg_num_irqs (config s)] s)) }"

subsection \<open>Interrupts, the DRM device and the timer\<close>

text \<open>\<open>rknpu_register_irq\<close> in the variant for kernels from 6.1 on; the lines are released by \<open>devm\<close>.\<close>

fun register_irqs :: "probe_env \<Rightarrow> nat list \<Rightarrow> int" where
  "register_irqs env [] = 0"
| "register_irqs env (i # is) =
    (let irq = (if pe_irq_byname env i < 0 then pe_irq_index env i else pe_irq_byname env i) in
     if irq < 0 then irq
     else if pe_request_irq_ret env i < 0 then pe_request_irq_ret env i
     else register_irqs env is)"

definition rknpu_register_irq :: "probe_env \<Rightarrow> rknpu_device \<Rightarrow> int" where
  "rknpu_register_irq env s = register_irqs env [0..<cfg_num_irqs (config s)]"

text \<open>
  \<open>platform_device_register_full\<close> reports failure by an error pointer, which the code takes for a device: the
  next call dereferences it.
\<close>

definition drm_fake_dev_register :: "probe_env \<Rightarrow> rknpu_device \<Rightarrow> (int \<times> rknpu_device) option" where
  "drm_fake_dev_register env s =
    (if \<not> pe_fake_dev_ok env then None
     else if pe_fake_dma_ret env \<noteq> 0 then Some (pe_fake_dma_ret env, s)
     else Some (0, count_dev R_fake_dev 1 s))"

definition drm_fake_dev_unregister :: "rknpu_device \<Rightarrow> rknpu_device" where
  "drm_fake_dev_unregister s = (if dev_count s R_fake_dev = 0 then s else count_dev R_fake_dev (- 1) s)"

definition rknpu_drm_probe :: "probe_env \<Rightarrow> rknpu_device \<Rightarrow> (int \<times> rknpu_device) option" where
  "rknpu_drm_probe env s =
    (if pe_drm_alloc_ret env \<noteq> 0 then Some (pe_drm_alloc_ret env, s)
     else if pe_drm_register_ret env < 0 then Some (pe_drm_register_ret env, s)
     else do { (_, s) \<leftarrow> drm_fake_dev_register env (count_dev R_drm_dev 1 s); Some (0, s) })"

definition rknpu_drm_remove :: "rknpu_device \<Rightarrow> rknpu_device" where
  "rknpu_drm_remove s = count_dev R_drm_dev (- 1) (drm_fake_dev_unregister s)"

definition rknpu_init_timer :: "rknpu_device \<Rightarrow> rknpu_device" where
  "rknpu_init_timer s = count_dev R_timer 1 s"

definition rknpu_cancel_timer :: "rknpu_device \<Rightarrow> rknpu_device" where
  "rknpu_cancel_timer s = count_dev R_timer (- 1) s"

definition rknpu_is_iommu_enable :: "probe_env \<Rightarrow> bool" where
  "rknpu_is_iommu_enable env = (pe_iommu_node env \<and> pe_iommu_available env)"

subsection \<open>The stages of rknpu_probe\<close>

definition probe_iommu :: "probe_env \<Rightarrow> rknpu_device \<Rightarrow> int \<times> rknpu_device" where
  "probe_iommu env s =
    (let s = s\<lparr>iommu := (iommu s)\<lparr>iommu_en := rknpu_is_iommu_enable env\<rparr>\<rparr> in
     if iommu_en (iommu s) then
       if pe_group_ok env then (0, count_dev R_iommu_group 1 s) else (- EINVAL, s)
     else (0, if pe_reserved_ret env = 0 then count_dev R_reserved_mem 1 s else s))"

definition probe_reset :: "probe_env \<Rightarrow> rknpu_device \<Rightarrow> rknpu_device" where
  "probe_reset env s =
    s\<lparr>rst := snd (rknpu_reset_get (pe_reset_count env) (pe_reset_kcalloc env) (pe_reset_control env)
                   ((rst s)\<lparr>bypass_soft_reset := pe_bypass_reset env\<rparr>))\<rparr>"

text \<open>An optional regulator: \<open>-ENODEV\<close> means that there is none.\<close>

definition optional_regulator :: "int option \<Rightarrow> int + bool" where
  "optional_regulator r = (case r of None \<Rightarrow> Inr True | Some e \<Rightarrow> if e = - ENODEV then Inr False else Inl e)"

text \<open>
  The queues and registers of the cores. A region that is busy is mapped a second time with \<open>devm_ioremap\<close>, whose result is
  only tested for error pointers, which it never returns.
\<close>

fun probe_cores :: "probe_env \<Rightarrow> nat list \<Rightarrow> rknpu_device \<Rightarrow> int \<times> rknpu_device" where
  "probe_cores env [] s = (0, s)"
| "probe_cores env (i # is) s =
    (let s = upd_subcore i (\<lambda>d. d\<lparr>todo_list := [], job_done_wq := 0, task_num := 0\<rparr>) s in
     if \<not> pe_mem_resource env i then (- ENXIO, s)
     else if pe_ioremap_ret env i \<noteq> 0 \<and> pe_ioremap_ret env i \<noteq> - EBUSY then (pe_ioremap_ret env i, s)
     else probe_cores env is s)"

definition probe_hw :: "probe_env \<Rightarrow> rknpu_device \<Rightarrow> int \<times> rknpu_device" where
  "probe_hw env s =
    (if pe_num_clks env < 1 then (- ENODEV, s)
     else case optional_regulator (pe_vdd env) of
       Inl e \<Rightarrow> (e, s)
     | Inr vdd \<Rightarrow>
         (case optional_regulator (pe_mem env) of
            Inl e \<Rightarrow> (e, upd_pwr (\<lambda>p. p\<lparr>has_vdd := vdd\<rparr>) s)
          | Inr m \<Rightarrow>
              let s = upd_pwr (\<lambda>p. p\<lparr>has_vdd := vdd, has_mem := m\<rparr>) s;
                  (ret, s) = probe_cores env [0..<cfg_num_irqs (config s)] s in
              if ret \<noteq> 0 then (ret, s)
              else
                let s = (if cfg_bw_priority_length (config s) > 0
                         then s\<lparr>has_bw_priority_base := pe_bw_ioremap_ok env\<rparr> else s)
                in (if pe_bypass_irq env then 0 else rknpu_register_irq env s, s)))"

text \<open>The power domains: the third one only on devices with more than two cores.\<close>

definition attach_domain :: "probe_env \<Rightarrow> nat \<Rightarrow> rknpu_device \<Rightarrow> rknpu_device" where
  "attach_domain env i s =
    (if pe_genpd_ok env i
     then count_dev (R_pm_domain i) 1 (upd_pwr (\<lambda>p. p\<lparr>has_genpd := (has_genpd p)(i := True)\<rparr>) s) else s)"

definition probe_domains :: "probe_env \<Rightarrow> rknpu_device \<Rightarrow> rknpu_device" where
  "probe_domains env s =
    (if pe_power_domains env > 1
     then upd_pwr (\<lambda>p. p\<lparr>multiple_domains := True\<rparr>)
            (fold (attach_domain env) (if cfg_num_irqs (config s) > 2 then [0, 1, 2] else [0, 1]) s)
     else s)"

definition probe_sram :: "probe_env \<Rightarrow> rknpu_device \<Rightarrow> int \<times> rknpu_device" where
  "probe_sram env s =
    (if CONFIG_NO_GKI (build s) \<and> CONFIG_ROCKCHIP_RKNPU_SRAM (build s) \<and> iommu_en (iommu s) then
       (case rknpu_find_sram_resource env s of
          (r, s) \<Rightarrow>
            if r = 0 then
              (case pe_mm_create env of
                 Inl e \<Rightarrow> (e, s)
               | Inr mm \<Rightarrow> (0, count_dev R_sram_mm 1 (s\<lparr>sram_mm := Some mm\<rparr>)))
            else (0, s))
     else (0, s))"

definition probe_nbuf :: "probe_env \<Rightarrow> rknpu_device \<Rightarrow> rknpu_device option" where
  "probe_nbuf env s =
    (if CONFIG_NO_GKI (build s) \<and> iommu_en (iommu s) \<and> cfg_nbuf_size (config s) > 0 then
       (let s = snd (rknpu_find_nbuf_resource env s) in
        case cfg_cache_sgt_init (config s) of
          None \<Rightarrow> Some s
        | Some rk3576_cache_sgt_init_fn \<Rightarrow> map_option snd (rk3576_cache_sgt_init env s))
     else Some s)"

definition probe_finish :: "probe_env \<Rightarrow> rknpu_device \<Rightarrow> rknpu_device" where
  "probe_finish env s =
    (let s = (if iommu_en (iommu s)
              then s\<lparr>iommu := snd (rknpu_iommu_init_domain (CONFIG_NO_GKI (build s)) (pe_dom_for_dev env) (iommu s))\<rparr> else s);
         s = snd (rknpu_power_off (pe_power env) s);
         s = upd_pwr (\<lambda>p. p\<lparr>power_refcount := 0, cmdline_power_refcount := 0\<rparr>) s;
         s = s\<lparr>iommu := (iommu s)\<lparr>iommu_domain_refcount := 0\<rparr>\<rparr>
     in rknpu_init_timer (count_dev R_debugger 1 s))"

subsection \<open>The error labels\<close>

definition err_release_iommu :: "rknpu_device \<Rightarrow> rknpu_device" where
  "err_release_iommu s =
    (if iommu_en (iommu s) then count_dev R_iommu_group (- 1) s
     else if dev_count s R_reserved_mem = 0 then s else count_dev R_reserved_mem (- 1) s)"

definition err_remove_drv :: "rknpu_device \<Rightarrow> rknpu_device" where
  "err_remove_drv s = err_release_iommu (rknpu_drm_remove s)"

definition detach_domains :: "nat list \<Rightarrow> rknpu_device \<Rightarrow> rknpu_device" where
  "detach_domains is s =
    (if multiple_domains (pwr s)
     then fold (\<lambda>i s. if has_genpd (pwr s) i then count_dev (R_pm_domain i) (- 1) s else s) is s else s)"

definition err_detach_pm :: "rknpu_device \<Rightarrow> rknpu_device" where
  "err_detach_pm s = err_remove_drv (count_dev R_pm_enabled (- 1) (detach_domains [2, 1, 0] s))"

definition err_devfreq_remove :: "probe_env \<Rightarrow> rknpu_device \<Rightarrow> rknpu_device" where
  "err_devfreq_remove env s = err_detach_pm (snd (rknpu_power_off (pe_power env) (rknpu_devfreq_remove s)))"

definition err_remove_wq :: "probe_env \<Rightarrow> rknpu_device \<Rightarrow> rknpu_device" where
  "err_remove_wq env s = err_devfreq_remove env (count_dev R_power_off_wq (- 1) (set_off_work False s))"

subsection \<open>rknpu_probe and rknpu_remove\<close>

text \<open>
  The part from \<open>rknpu_power_on\<close> on. The result of \<open>rknpu_devfreq_init\<close> is ignored by the code.
\<close>

definition probe_powered :: "probe_env \<Rightarrow> rknpu_device \<Rightarrow> (int \<times> rknpu_device) option" where
  "probe_powered env s =
    (let (ret, s) = rknpu_power_on (pe_power env) s in
     if ret \<noteq> 0 then Some (ret, err_detach_pm s)
     else
       let s = snd (rknpu_devfreq_init (pe_devfreq env) s);
           s = upd_pwr (\<lambda>p. p\<lparr>power_put_delay := 3000\<rparr>) s in
       if \<not> pe_wq_ok env then Some (- ENOMEM, err_devfreq_remove env s)
       else
         let (ret, s) = probe_sram env (count_dev R_power_off_wq 1 s) in
         if ret \<noteq> 0 then Some (ret, err_remove_wq env s)
         else do { s \<leftarrow> probe_nbuf env s; Some (0, probe_finish env s) })"

definition probe_registered :: "probe_env \<Rightarrow> rknpu_device \<Rightarrow> (int \<times> rknpu_device) option" where
  "probe_registered env s =
    do { (ret, s) \<leftarrow> rknpu_drm_probe env s;
         if ret \<noteq> 0 then Some (ret, err_release_iommu s)
         else do {
           let (ret, s) = rknpu_fence_context_alloc (pe_fence_ok env) (pe_fence_context env) s;
           if ret \<noteq> 0 then Some (ret, err_remove_drv s)
           else probe_powered env (probe_domains env (count_dev R_pm_enabled 1 s)) } }"

text \<open>The device structure is the one \<open>devm_kzalloc\<close> returned.\<close>

definition rknpu_probe :: "probe_env \<Rightarrow> rknpu_device \<Rightarrow> (int \<times> rknpu_device) option" where
  "rknpu_probe env s =
    (case rknpu_probe_config (pe_has_node env) (pe_compatible env) (pe_kzalloc_ok env) (pe_has_cores env) of
       Inl e \<Rightarrow> Some (e, s)
     | Inr cfg \<Rightarrow>
         let (ret, s) = probe_iommu env (s\<lparr>config := cfg\<rparr>) in
         if ret \<noteq> 0 then Some (ret, s)
         else
           let (ret, s) = probe_hw env (probe_reset env s) in
           if ret \<noteq> 0 then Some (ret, err_release_iommu s) else probe_registered env s)"

text \<open>
  \<open>rknpu_remove\<close>: first the work queue, the debugger, the timer and the on-chip memory; a core that still has a job
  only causes a warning.
\<close>

definition remove_memory :: "rknpu_device \<Rightarrow> rknpu_device" where
  "remove_memory s =
    (let s = count_dev R_power_off_wq (- 1) (set_off_work False s);
         s = rknpu_cancel_timer (count_dev R_debugger (- 1) s);
         s = (if cfg_cache_sgt_init (config s) \<noteq> None then fold free_cache_sgt [0, 1] s else s)
     in if CONFIG_ROCKCHIP_RKNPU_SRAM (build s) \<and> sram_mm s \<noteq> None then count_dev R_sram_mm (- 1) s else s)"

definition rknpu_remove :: "iommu_env \<Rightarrow> power_env \<Rightarrow> rknpu_device \<Rightarrow> rknpu_device" where
  "rknpu_remove ienv penv s =
    (let s = remove_memory s;
         s = (if iommu_en (iommu s)
              then count_dev R_iommu_group (- 1)
                     (s\<lparr>iommu := rknpu_iommu_free_domains (CONFIG_NO_GKI (build s)) ienv (iommu s)\<rparr>)
              else s);
         s = rknpu_devfreq_remove (rknpu_drm_remove s);
         s = (if power_refcount (pwr s) > 0 then snd (rknpu_power_off penv s) else s)
     in count_dev R_pm_enabled (- 1) (detach_domains [0, 1, 2] s))"

text \<open>
  On devices with several power domains and an IOMMU group, \<open>rknpu_power_off\<close> waits for the IOMMU to be disabled
  and fails: the probe ignores that and leaves the rails on.
\<close>

definition power_off_stuck :: "probe_env \<Rightarrow> bool" where
  "power_off_stuck env \<longleftrightarrow> 1 < pe_power_domains env \<and> has_iommu_group (pe_power env)"

section \<open>Lemmas\<close>

interpretation devres: ledger dev_count "\<lambda>r. count_dev r 1" "\<lambda>r. count_dev r (- 1)"
  by unfold_locales (simp_all add: count_dev_def)

text \<open>
  What is tracked through the stages: the resources held, whether the IOMMU is used, and that the scheduler is
  empty on a well-formed configuration. The power state is tracked apart.
\<close>

definition stage :: "probe_env \<Rightarrow> dev_resource set \<Rightarrow> rknpu_device \<Rightarrow> bool" where
  "stage env R s \<longleftrightarrow>
    dev_count s = holding R \<and> iommu_en (iommu s) = rknpu_is_iommu_enable env \<and> sched_init s \<and>
    (cfg_cache_sgt_init (config s) \<noteq> None \<longrightarrow> cfg_num_irqs (config s) = 2)"

lemma count_dev_fields [simp]:
  "iommu (count_dev r n s) = iommu s" "config (count_dev r n s) = config s" "pwr (count_dev r n s) = pwr s"
  "build (count_dev r n s) = build s" "cache_sgt (count_dev r n s) = cache_sgt s"
  "sram_mm (count_dev r n s) = sram_mm s" "sched_init (count_dev r n s) = sched_init s"
  by (simp_all add: count_dev_def sched_init_def)

lemma stage_take: "stage env R s \<Longrightarrow> r \<notin> R \<Longrightarrow> stage env (insert r R) (count_dev r 1 s)"
  by (simp add: stage_def devres.take_holding)

lemma stage_give: "stage env R s \<Longrightarrow> r \<in> R \<Longrightarrow> stage env (R - {r}) (count_dev r (- 1) s)"
  by (simp add: stage_def devres.give_holding)

lemma stage_upd [simp]:
  "stage env R (s\<lparr>pwr := p\<rparr>) = stage env R s" "stage env R (s\<lparr>rst := x\<rparr>) = stage env R s"
  "stage env R (s\<lparr>fence_ctx := c\<rparr>) = stage env R s" "stage env R (s\<lparr>dvfs := d\<rparr>) = stage env R s"
  "stage env R (s\<lparr>cache_sgt := cs\<rparr>) = stage env R s" "stage env R (s\<lparr>sram_mm := m\<rparr>) = stage env R s"
  "stage env R (s\<lparr>has_bw_priority_base := b\<rparr>) = stage env R s" "stage env R (s\<lparr>mmio := w\<rparr>) = stage env R s"
  by (simp_all add: stage_def sched_init_def)

text \<open>The resources of each stage, in the order of the probe.\<close>

definition base_res :: "probe_env \<Rightarrow> dev_resource set" where
  "base_res env = (if rknpu_is_iommu_enable env then {R_iommu_group}
                   else if pe_reserved_ret env = 0 then {R_reserved_mem} else {})"

definition drm_res :: "probe_env \<Rightarrow> dev_resource set" where
  "drm_res env = insert R_drm_dev ((if pe_fake_dma_ret env = 0 then {R_fake_dev} else {}) \<union> base_res env)"

definition pm_res :: "probe_env \<Rightarrow> power_state \<Rightarrow> dev_resource set" where
  "pm_res env p =
    insert R_pm_enabled ({R_pm_domain i | i. multiple_domains p \<and> has_genpd p i} \<union> drm_res env)"

definition devfreq_res :: "probe_env \<Rightarrow> power_state \<Rightarrow> dev_resource set" where
  "devfreq_res env p = (if has_devfreq p then insert R_governor (pm_res env p) else pm_res env p)"

lemmas res_defs = base_res_def drm_res_def pm_res_def devfreq_res_def

subsection \<open>The error labels give everything back\<close>

lemma release_iommu_empty:
  assumes "stage env (base_res env) s"
  shows "stage env {} (err_release_iommu s)"
proof -
  consider "rknpu_is_iommu_enable env" | "\<not> rknpu_is_iommu_enable env" "pe_reserved_ret env = 0"
    | "\<not> rknpu_is_iommu_enable env" "pe_reserved_ret env \<noteq> 0" by blast
  then show ?thesis
  proof cases
    case 1
    with stage_give [OF assms, of R_iommu_group] assms show ?thesis
      by (simp add: err_release_iommu_def base_res_def stage_def)
  next
    case 2
    with stage_give [OF assms, of R_reserved_mem] assms show ?thesis
      by (simp add: err_release_iommu_def base_res_def stage_def holding_def)
  next
    case 3
    with assms show ?thesis by (simp add: err_release_iommu_def base_res_def stage_def holding_def)
  qed
qed

lemma drm_remove_stage:
  assumes "stage env R s" and "R_drm_dev \<in> R"
  shows "stage env (R - {R_fake_dev, R_drm_dev}) (rknpu_drm_remove s)"
proof (cases "R_fake_dev \<in> R")
  case True
  then have "dev_count s R_fake_dev \<noteq> 0" using assms(1) by (simp add: stage_def holding_def)
  moreover have "R - {R_fake_dev} - {R_drm_dev} = R - {R_fake_dev, R_drm_dev}" by auto
  ultimately show ?thesis
    using stage_give [OF stage_give [OF assms(1) True], of R_drm_dev] assms(2)
    by (simp add: rknpu_drm_remove_def drm_fake_dev_unregister_def)
next
  case False
  then have "dev_count s R_fake_dev = 0" using assms(1) by (simp add: stage_def holding_def)
  moreover have "R - {R_drm_dev} = R - {R_fake_dev, R_drm_dev}" using False by auto
  ultimately show ?thesis
    using stage_give [OF assms] by (simp add: rknpu_drm_remove_def drm_fake_dev_unregister_def)
qed

lemma remove_drv_empty:
  assumes "stage env (drm_res env) s"
  shows "stage env {} (err_remove_drv s)"
proof -
  have "drm_res env - {R_fake_dev, R_drm_dev} = base_res env" by (auto simp: res_defs split: if_splits)
  with drm_remove_stage [OF assms] release_iommu_empty show ?thesis
    by (simp add: err_remove_drv_def drm_res_def)
qed

text \<open>Detaching the power domains: the loop gives back those that were attached.\<close>

lemma detach_fold:
  "fold (\<lambda>i s. if has_genpd (pwr s) i then count_dev (R_pm_domain i) (- 1) s else s) is s =
   fold (\<lambda>r. count_dev r (- 1)) (map R_pm_domain (filter (has_genpd (pwr s)) is)) s"
  by (induction "is" arbitrary: s) simp_all

lemma fold_count_dev_fields [simp]:
  "pwr (fold (\<lambda>r. count_dev r n) rs s) = pwr s" "iommu (fold (\<lambda>r. count_dev r n) rs s) = iommu s"
  "sched_init (fold (\<lambda>r. count_dev r n) rs s) = sched_init s"
  "config (fold (\<lambda>r. count_dev r n) rs s) = config s"
  by (induction rs arbitrary: s) simp_all

lemma detach_pwr [simp]: "pwr (detach_domains is s) = pwr s"
  by (simp add: detach_domains_def detach_fold)

lemma detach_stage:
  assumes "stage env R s" and "distinct is" and "{i. has_genpd (pwr s) i} \<subseteq> set is"
    and "\<And>i. multiple_domains (pwr s) \<Longrightarrow> has_genpd (pwr s) i \<Longrightarrow> R_pm_domain i \<in> R"
  shows "stage env (R - {R_pm_domain i | i. multiple_domains (pwr s) \<and> has_genpd (pwr s) i}) (detach_domains is s)"
proof (cases "multiple_domains (pwr s)")
  case True
  let ?rs = "map R_pm_domain (filter (has_genpd (pwr s)) is)"
  have "dev_count (fold (\<lambda>r. count_dev r (- 1)) ?rs s) = holding (R - set ?rs)"
    using assms True by (intro devres.give_all) (auto simp: stage_def distinct_map inj_on_def)
  moreover have "set ?rs = {R_pm_domain i | i. has_genpd (pwr s) i}" using assms(3) by auto
  ultimately show ?thesis using True assms(1) by (simp add: stage_def detach_domains_def detach_fold)
next
  case False
  then show ?thesis using assms(1) by (simp add: detach_domains_def)
qed

definition domains_bounded :: "power_state \<Rightarrow> bool" where
  "domains_bounded p \<longleftrightarrow> {i. has_genpd p i} \<subseteq> {0, 1, 2}"

lemma detach_pm_empty:
  assumes "stage env (pm_res env (pwr s)) s" and "domains_bounded (pwr s)"
  shows "stage env {} (err_detach_pm s)"
proof -
  let ?D = "{R_pm_domain i | i. multiple_domains (pwr s) \<and> has_genpd (pwr s) i}"
  have "stage env (pm_res env (pwr s) - ?D) (detach_domains [2, 1, 0] s)"
    using assms by (intro detach_stage) (auto simp: domains_bounded_def pm_res_def)
  from stage_give [OF this, of R_pm_enabled]
  have "stage env (pm_res env (pwr s) - ?D - {R_pm_enabled}) (count_dev R_pm_enabled (- 1) (detach_domains [2, 1, 0] s))"
    by (simp add: pm_res_def)
  moreover have "pm_res env (pwr s) - ?D - {R_pm_enabled} = drm_res env"
    by (auto simp: res_defs split: if_splits)
  ultimately show ?thesis using remove_drv_empty by (simp add: err_detach_pm_def)
qed

lemma devfreq_remove_stage:
  assumes "stage env R s" and "has_devfreq (pwr s) \<longleftrightarrow> R_governor \<in> R"
  shows "stage env (R - {R_governor}) (rknpu_devfreq_remove s)"
  using assms stage_give [of env R s R_governor] by (auto simp: rknpu_devfreq_remove_def)

lemma devfreq_remove_pwr [simp]: "pwr (rknpu_devfreq_remove s) = pwr s"
  by (simp add: rknpu_devfreq_remove_def)

lemma power_off_stage [simp]: "stage env R (snd (rknpu_power_off e s)) = stage env R s"
  by (simp add: rknpu_power_off_def split: prod.splits)

lemma unpowered_genpd [simp]:
  "has_genpd (unpowered p) = has_genpd p" "has_devfreq (unpowered p) = has_devfreq p"
  by (simp_all add: unpowered_def)

lemma power_off_pwr_fields:
  assumes "\<not> devfreq_lock (pwr s)"
  shows "has_genpd (pwr (snd (rknpu_power_off e s))) = has_genpd (pwr s)"
    and "multiple_domains (pwr (snd (rknpu_power_off e s))) = multiple_domains (pwr s)"
    and "has_devfreq (pwr (snd (rknpu_power_off e s))) = has_devfreq (pwr s)"
  using assms by (simp_all add: power_off_pwr)

lemma devfreq_label_empty:
  assumes "stage env (devfreq_res env (pwr s)) s" and "domains_bounded (pwr s)" and "\<not> devfreq_lock (pwr s)"
  shows "stage env {} (err_devfreq_remove env s)"
proof -
  let ?s = "rknpu_devfreq_remove s"
  have "R_governor \<notin> pm_res env (pwr s)" by (simp add: res_defs)
  then have "devfreq_res env (pwr s) - {R_governor} = pm_res env (pwr s)"
    and "has_devfreq (pwr s) \<longleftrightarrow> R_governor \<in> devfreq_res env (pwr s)" by (simp_all add: devfreq_res_def)
  with devfreq_remove_stage [OF assms(1)] have "stage env (pm_res env (pwr s)) ?s" by simp
  moreover have "pm_res env (pwr (snd (rknpu_power_off (pe_power env) ?s))) = pm_res env (pwr s)"
    using assms(3) by (simp add: pm_res_def power_off_pwr_fields)
  ultimately show ?thesis
    unfolding err_devfreq_remove_def using assms(2,3)
    by (intro detach_pm_empty) (simp_all add: domains_bounded_def power_off_pwr_fields)
qed

lemma set_off_work_stage [simp]: "stage env R (set_off_work b s) = stage env R s"
  by (simp add: set_off_work_def)

lemma wq_label_empty:
  assumes "stage env (insert R_power_off_wq (devfreq_res env (pwr s))) s" and "domains_bounded (pwr s)"
    and "\<not> devfreq_lock (pwr s)"
  shows "stage env {} (err_remove_wq env s)"
proof -
  let ?s = "count_dev R_power_off_wq (- 1) (set_off_work False s)"
  have "stage env (insert R_power_off_wq (devfreq_res env (pwr s)) - {R_power_off_wq}) ?s"
    using assms(1) by (intro stage_give) simp_all
  moreover have "R_power_off_wq \<notin> devfreq_res env (pwr s)" by (simp add: res_defs)
  moreover have "devfreq_res env (pwr ?s) = devfreq_res env (pwr s)" by (simp add: set_off_work_def res_defs)
  ultimately show ?thesis
    unfolding err_remove_wq_def using assms(2,3)
    by (intro devfreq_label_empty) (simp_all add: set_off_work_def domains_bounded_def)
qed

subsection \<open>The stages take what they announce\<close>

text \<open>
  The power state before the power domains are attached, and afterwards with the rails on (\<open>n = 1\<close>) or off.
\<close>

definition cold :: "power_state \<Rightarrow> bool" where
  "cold p \<longleftrightarrow> all_rails 0 p \<and> \<not> devfreq_lock p \<and> \<not> power_off_work p \<and> \<not> has_devfreq p \<and>
    \<not> multiple_domains p \<and> has_genpd p = (\<lambda>i. False)"

definition pm_ready :: "int \<Rightarrow> probe_env \<Rightarrow> power_state \<Rightarrow> bool" where
  "pm_ready n env p \<longleftrightarrow> all_rails n p \<and> \<not> devfreq_lock p \<and> \<not> power_off_work p \<and> domains_bounded p \<and>
    (multiple_domains p \<longleftrightarrow> 1 < pe_power_domains env)"

lemma all_rails_off: "all_rails 0 p \<longleftrightarrow> usage p = (\<lambda>r. 0)"
  by (auto simp: all_rails_def)

lemma probe_iommu_stage:
  assumes "dev_count s = holding {}" and "sched_init s"
    and "cfg_cache_sgt_init (config s) \<noteq> None \<longrightarrow> cfg_num_irqs (config s) = 2" and "probe_iommu env s = (ret, t)"
  shows "pwr t = pwr s" and "ret = 0 \<Longrightarrow> stage env (base_res env) t" and "ret \<noteq> 0 \<Longrightarrow> dev_count t = holding {}"
proof -
  let ?s = "s\<lparr>iommu := (iommu s)\<lparr>iommu_en := rknpu_is_iommu_enable env\<rparr>\<rparr>"
  have st: "stage env {} ?s" using assms(1,2,3) by (simp add: stage_def sched_init_def)
  from stage_take [OF st, of R_iommu_group] stage_take [OF st, of R_reserved_mem] st assms(4)
  show "ret = 0 \<Longrightarrow> stage env (base_res env) t"
    by (auto simp: probe_iommu_def base_res_def Let_def split: if_splits)
qed (use assms in \<open>auto simp: probe_iommu_def Let_def split: if_splits\<close>)

lemma subcore_reset_stage:
  "stage env R s \<Longrightarrow> stage env R (upd_subcore i (\<lambda>d. d\<lparr>todo_list := [], job_done_wq := 0, task_num := 0\<rparr>) s)"
  by (simp add: stage_def sched_init_def upd_subcore_def)

lemma probe_cores_stage:
  "probe_cores env is s = (ret, t) \<Longrightarrow> stage env R s \<Longrightarrow>
   stage env R t \<and> pwr t = pwr s \<and> sram_mm t = sram_mm s \<and> cache_sgt t = cache_sgt s"
proof (induction env "is" s rule: probe_cores.induct)
  case (2 env i "is" s)
  let ?s = "upd_subcore i (\<lambda>d. d\<lparr>todo_list := [], job_done_wq := 0, task_num := 0\<rparr>) s"
  have "stage env R ?s" "pwr ?s = pwr s" "sram_mm ?s = sram_mm s" "cache_sgt ?s = cache_sgt s"
    using 2(3) subcore_reset_stage by (simp_all add: upd_subcore_def)
  with 2 show ?case by (auto simp: Let_def split: if_splits)
qed simp

lemma probe_hw_stage:
  assumes "stage env R s" and "cold (pwr s)" and "probe_hw env s = (ret, t)"
  shows "stage env R t \<and> cold (pwr t) \<and> sram_mm t = sram_mm s \<and> cache_sgt t = cache_sgt s"
proof -
  have reg: "cold (p\<lparr>has_vdd := v\<rparr>) = cold p" "cold (p\<lparr>has_vdd := v, has_mem := m\<rparr>) = cold p" for p v m
    by (simp_all add: cold_def all_rails_off)
  show ?thesis
    using assms
    by (auto simp: probe_hw_def upd_pwr_def Let_def reg split: if_splits sum.splits prod.splits
        dest!: probe_cores_stage [of env _ _ _ _ R])
qed

lemma drm_probe_stage:
  assumes "stage env (base_res env) s" and "rknpu_drm_probe env s = Some (ret, t)"
  shows "stage env (if ret = 0 then drm_res env else base_res env) t \<and> pwr t = pwr s"
proof -
  have "R_drm_dev \<notin> base_res env" and "R_fake_dev \<notin> insert R_drm_dev (base_res env)"
    by (simp_all add: base_res_def)
  from stage_take [OF assms(1) this(1)] stage_take [OF stage_take [OF assms(1) this(1)] this(2)]
  show ?thesis
    using assms
    by (auto simp: rknpu_drm_probe_def drm_fake_dev_register_def drm_res_def insert_commute
        split: if_splits bind_splits)
qed

text \<open>Attaching the power domains takes those the kernel has.\<close>

lemma count_dev_pwr_upd [simp]: "count_dev r n (s\<lparr>pwr := p\<rparr>) = (count_dev r n s)\<lparr>pwr := p\<rparr>"
  by (simp add: count_dev_def)

lemma fold_count_dev_pwr_upd:
  "fold (\<lambda>r. count_dev r n) rs (s\<lparr>pwr := p\<rparr>) = (fold (\<lambda>r. count_dev r n) rs s)\<lparr>pwr := p\<rparr>"
  by (induction rs arbitrary: s) simp_all

lemma attach_fold:
  "fold (attach_domain env) is s =
     (fold (\<lambda>r. count_dev r 1) (map R_pm_domain (filter (pe_genpd_ok env) is)) s)
       \<lparr>pwr := (pwr s)\<lparr>has_genpd := (\<lambda>i. i \<in> set is \<and> pe_genpd_ok env i \<or> has_genpd (pwr s) i)\<rparr>\<rparr>"
proof (induction "is" arbitrary: s)
  case (Cons i "is")
  have cong: "t\<lparr>pwr := p\<lparr>has_genpd := g\<rparr>\<rparr> = t\<lparr>pwr := p\<lparr>has_genpd := h\<rparr>\<rparr>"
    if "g = h" for t :: rknpu_device and p g h using that by simp
  show ?case
  proof (cases "pe_genpd_ok env i")
    case True
    then have "attach_domain env i s =
        (count_dev (R_pm_domain i) 1 s)\<lparr>pwr := (pwr s)\<lparr>has_genpd := (has_genpd (pwr s))(i := True)\<rparr>\<rparr>"
      by (simp add: attach_domain_def upd_pwr_def)
    with True show ?thesis by (auto simp: Cons fold_count_dev_pwr_upd intro!: cong)
  next
    case False
    then have "attach_domain env i s = s" by (simp add: attach_domain_def)
    with False show ?thesis by (auto simp: Cons intro!: cong)
  qed
qed simp

lemma probe_domains_stage:
  fixes s :: rknpu_device and env :: probe_env
  defines "t \<equiv> probe_domains env s"
  assumes "stage env (insert R_pm_enabled (drm_res env)) s" and "cold (pwr s)"
  shows "stage env (pm_res env (pwr t)) t \<and> pm_ready 0 env (pwr t) \<and> \<not> has_devfreq (pwr t)"
proof (cases "1 < pe_power_domains env")
  case True
  define ds :: "nat list" where "ds = (if cfg_num_irqs (config s) > 2 then [0, 1, 2] else [0, 1])"
  let ?rs = "map R_pm_domain (filter (pe_genpd_ok env) ds)"
  have "distinct ds" and "set ds \<subseteq> {0, 1, 2}" by (simp_all add: ds_def)
  have t: "t = (fold (\<lambda>r. count_dev r 1) ?rs s)
      \<lparr>pwr := (pwr s)\<lparr>has_genpd := (\<lambda>i. i \<in> set ds \<and> pe_genpd_ok env i), multiple_domains := True\<rparr>\<rparr>"
    using True assms(3) by (simp add: t_def probe_domains_def attach_fold upd_pwr_def ds_def cold_def)
  have "dev_count (fold (\<lambda>r. count_dev r 1) ?rs s) = holding (set ?rs \<union> insert R_pm_enabled (drm_res env))"
    using assms(2) \<open>distinct ds\<close>
    by (intro devres.take_all) (auto simp: stage_def distinct_map inj_on_def res_defs)
  moreover have "set ?rs \<union> insert R_pm_enabled (drm_res env) = pm_res env (pwr t)"
    by (auto simp: t pm_res_def)
  ultimately have "stage env (pm_res env (pwr t)) (fold (\<lambda>r. count_dev r 1) ?rs s)"
    using assms(2) by (simp add: stage_def)
  then have "stage env (pm_res env (pwr t)) t" by (simp add: t)
  then show ?thesis
    using True assms(3) \<open>set ds \<subseteq> {0, 1, 2}\<close>
    by (auto simp: pm_ready_def cold_def t all_rails_off domains_bounded_def)
next
  case False
  then show ?thesis
    using assms(2,3)
    by (simp add: t_def probe_domains_def pm_res_def pm_ready_def cold_def domains_bounded_def)
qed

subsection \<open>Power, frequency scaling and on-chip memory\<close>

lemma run_state_init_mmio: "\<exists>w. run_state_init s = s\<lparr>mmio := w\<rparr>"
proof (cases "cfg_state_init (config s)")
  case None
  then have "run_state_init s = s\<lparr>mmio := mmio s\<rparr>" by (simp add: run_state_init_def)
  then show ?thesis by blast
next
  case (Some f)
  then show ?thesis
    by (cases f) (simp add: run_state_init_def rk3576_state_init_def reg_write_def, blast)
qed

lemma run_state_init_fields [simp]:
  "stage env R (run_state_init s) = stage env R s" "sram_mm (run_state_init s) = sram_mm s"
  "cache_sgt (run_state_init s) = cache_sgt s"
  using run_state_init_mmio [of s] by auto

lemma power_on_frame [simp]:
  "stage env R (snd (rknpu_power_on e s)) = stage env R s"
  "sram_mm (snd (rknpu_power_on e s)) = sram_mm s" "cache_sgt (snd (rknpu_power_on e s)) = cache_sgt s"
  by (simp_all add: rknpu_power_on_def Let_def split: prod.splits)

lemma present_devfreq [simp]:
  "present (p\<lparr>has_devfreq := b\<rparr>) = present p" "present (p\<lparr>power_put_delay := d\<rparr>) = present p"
proof -
  have "present (p\<lparr>has_devfreq := b\<rparr>) r = present p r" "present (p\<lparr>power_put_delay := d\<rparr>) r = present p r" for r
    by (cases r; simp)+
  then show "present (p\<lparr>has_devfreq := b\<rparr>) = present p" "present (p\<lparr>power_put_delay := d\<rparr>) = present p" by blast+
qed

lemma pm_ready_upd [simp]:
  "pm_ready n env (p\<lparr>has_devfreq := b\<rparr>) = pm_ready n env p" "pm_ready n env (p\<lparr>power_put_delay := d\<rparr>) = pm_ready n env p"
  by (simp_all add: pm_ready_def all_rails_def domains_bounded_def)

lemma power_on_ready:
  assumes "pm_ready 0 env (pwr s)" and "\<not> has_devfreq (pwr s)" and "rknpu_power_on e s = (ret, t)"
  shows "pm_ready (if ret = 0 then 1 else 0) env (pwr t)" and "\<not> has_devfreq (pwr t)"
    and "pm_res env (pwr t) = pm_res env (pwr s)"
proof -
  have p: "pwr t = (if ret = 0 then powered (pwr s) else pwr s)"
    using power_on_pwr [of s e] assms by (simp add: pm_ready_def)
  have f: "has_genpd (powered q) = has_genpd q" "has_devfreq (powered q) = has_devfreq q" for q
    by (simp_all add: powered_def)
  show "pm_ready (if ret = 0 then 1 else 0) env (pwr t)" "\<not> has_devfreq (pwr t)"
    "pm_res env (pwr t) = pm_res env (pwr s)"
    using assms by (simp_all add: p f pm_ready_def pm_res_def all_rails_powered domains_bounded_def)
qed

lemma devfreq_init_frame:
  assumes "rknpu_devfreq_init e s = (ret, t)"
  shows "t = s\<lparr>dvfs := dvfs t, dev_count := dev_count t, pwr := (pwr s)\<lparr>has_devfreq := has_devfreq (pwr t)\<rparr>\<rparr>"
  using assms
  by (auto simp: rknpu_devfreq_init_def devfreq_start_def upd_dvfs_def count_dev_def Let_def
      split: if_splits sum.splits)

lemma devfreq_init_stage:
  assumes "stage env (pm_res env (pwr s)) s" and "\<not> has_devfreq (pwr s)" and "rknpu_devfreq_init e s = (ret, t)"
  shows "stage env (devfreq_res env (pwr t)) t" and "pm_ready n env (pwr t) = pm_ready n env (pwr s)"
    and "sram_mm t = sram_mm s" and "cache_sgt t = cache_sgt s"
proof -
  obtain d c b where t: "t = s\<lparr>dvfs := d, dev_count := c, pwr := (pwr s)\<lparr>has_devfreq := b\<rparr>\<rparr>"
    using devfreq_init_frame [OF assms(3)] by blast
  then show "pm_ready n env (pwr t) = pm_ready n env (pwr s)" "sram_mm t = sram_mm s" "cache_sgt t = cache_sgt s"
    by simp_all
  have "pm_res env (pwr t) = pm_res env (pwr s)" and "R_governor \<notin> pm_res env (pwr s)"
    by (simp_all add: t res_defs)
  moreover have "dev_count s = holding (pm_res env (pwr s))" using assms(1) by (simp add: stage_def)
  ultimately have "dev_count t = holding (devfreq_res env (pwr t))"
    using devfreq_init_all_or_nothing(1) [OF assms(2,3)] by (auto simp: devfreq_res_def holding_def)
  then show "stage env (devfreq_res env (pwr t)) t"
    using assms(1) by (simp add: stage_def t sched_init_def)
qed

lemma probe_sram_stage:
  assumes "stage env R s" and "R_sram_mm \<notin> R" and "sram_mm s = None" and "probe_sram env s = (ret, t)"
  shows "stage env (R \<union> {r. r = R_sram_mm \<and> sram_mm t \<noteq> None}) t" and "ret \<noteq> 0 \<Longrightarrow> sram_mm t = None"
    and "pwr t = pwr s" and "cache_sgt t = cache_sgt s"
    and "sram_mm t \<noteq> None \<Longrightarrow> CONFIG_ROCKCHIP_RKNPU_SRAM (build t)"
proof -
  let ?s = "snd (rknpu_find_sram_resource env s)"
  have find: "stage env R ?s" "pwr ?s = pwr s" "cache_sgt ?s = cache_sgt s" "sram_mm ?s = None" "build ?s = build s"
    using assms(1,3) by (simp_all add: rknpu_find_sram_resource_def Let_def stage_def sched_init_def)
  have create: "stage env (insert R_sram_mm R) (count_dev R_sram_mm 1 (?s\<lparr>sram_mm := Some mm\<rparr>))" for mm
    using find(1) assms(2) by (intro stage_take) simp_all
  show "stage env (R \<union> {r. r = R_sram_mm \<and> sram_mm t \<noteq> None}) t"
    using assms find create by (auto simp: probe_sram_def split: if_splits prod.splits sum.splits)
  show "ret \<noteq> 0 \<Longrightarrow> sram_mm t = None" "pwr t = pwr s" "cache_sgt t = cache_sgt s"
    "sram_mm t \<noteq> None \<Longrightarrow> CONFIG_ROCKCHIP_RKNPU_SRAM (build t)"
    using assms find by (auto simp: probe_sram_def split: if_splits prod.splits sum.splits)
qed

text \<open>The tables of the on-chip buffer: whatever the loop took is recorded in \<open>cache_sgt\<close>.\<close>

definition cache_res :: "rknpu_device \<Rightarrow> dev_resource set" where
  "cache_res s = {R_cache_sgt i | i. cache_sgt s i \<noteq> None}"

definition probe_frame :: "rknpu_device \<Rightarrow> rknpu_device \<Rightarrow> bool" where
  "probe_frame s t \<longleftrightarrow> pwr t = pwr s \<and> sram_mm t = sram_mm s \<and> build t = build s \<and> config t = config s"

lemma probe_frame_refl [simp]: "probe_frame s s"
  by (simp add: probe_frame_def)

lemma free_cache_stage:
  assumes "stage env (R \<union> cache_res s) s" and "\<And>i. R_cache_sgt i \<notin> R"
  shows "stage env (R \<union> cache_res (free_cache_sgt i s)) (free_cache_sgt i s)"
    and "probe_frame s (free_cache_sgt i s)"
    and "cache_sgt (free_cache_sgt i s) = (cache_sgt s)(i := None)"
proof -
  show "stage env (R \<union> cache_res (free_cache_sgt i s)) (free_cache_sgt i s)"
  proof (cases "cache_sgt s i = None")
    case True
    then show ?thesis using assms(1) by (simp add: free_cache_sgt_def)
  next
    case False
    have "stage env (R \<union> cache_res s - {R_cache_sgt i})
        (count_dev (R_cache_sgt i) (- 1) (s\<lparr>cache_sgt := (cache_sgt s)(i := None)\<rparr>))"
      using assms(1) False by (intro stage_give) (auto simp: cache_res_def)
    moreover have "R \<union> cache_res s - {R_cache_sgt i} = R \<union> cache_res (free_cache_sgt i s)"
      using assms(2) False by (auto simp: cache_res_def free_cache_sgt_def)
    ultimately show ?thesis using False by (simp add: free_cache_sgt_def)
  qed
qed (auto simp: free_cache_sgt_def probe_frame_def)

lemma free_caches_stage:
  assumes "stage env (R \<union> cache_res s) s" and "\<And>i. R_cache_sgt i \<notin> R"
  shows "stage env (R \<union> cache_res (fold free_cache_sgt is s)) (fold free_cache_sgt is s) \<and>
    probe_frame s (fold free_cache_sgt is s) \<and>
    cache_sgt (fold free_cache_sgt is s) = (\<lambda>i. if i \<in> set is then None else cache_sgt s i)"
  using assms(1)
proof (induction "is" arbitrary: s)
  case (Cons i "is")
  note step = free_cache_stage [OF Cons.prems assms(2), of i]
  from Cons.IH [OF step(1)] step(2,3) show ?case by (auto simp: probe_frame_def)
qed (simp add: probe_frame_def)

lemma take_cache_stage:
  assumes "stage env (R \<union> cache_res s) s" and "\<And>i. R_cache_sgt i \<notin> R" and "cache_sgt s i = None"
    and "t = count_dev (R_cache_sgt i) 1 (s\<lparr>cache_sgt := (cache_sgt s)(i := Some segs)\<rparr>)"
  shows "stage env (R \<union> cache_res t) t"
proof -
  have "stage env (insert (R_cache_sgt i) (R \<union> cache_res s)) t"
    unfolding assms(4) using assms(1-3) by (intro stage_take) (auto simp: cache_res_def)
  moreover have "insert (R_cache_sgt i) (R \<union> cache_res s) = R \<union> cache_res t"
    using assms(3) by (auto simp: cache_res_def assms(4))
  ultimately show ?thesis by simp
qed

lemma cache_loop_stage:
  assumes "cache_sgt_loop env is ret s = Some (ok, ret', t)" and "stage env (R \<union> cache_res s) s"
    and "\<And>i. R_cache_sgt i \<notin> R" and "distinct is" and "\<And>i. i \<in> set is \<Longrightarrow> cache_sgt s i = None"
  shows "stage env (R \<union> cache_res t) t \<and> probe_frame s t \<and>
    {i. cache_sgt t i \<noteq> None} \<subseteq> {i. cache_sgt s i \<noteq> None} \<union> set is"
  using assms
proof (induction env "is" ret s rule: cache_sgt_loop.induct)
  case (2 env i "is" ret s)
  show ?case
  proof (cases "pe_sgt_kzalloc_ok env i \<and> pe_sgt_alloc_ret env i = 0")
    case True
    then obtain segs where segs: "cache_table (cfg_num_irqs (config s)) i = Some segs"
      using 2(2) by (auto simp: bind_eq_Some_conv)
    let ?s = "count_dev (R_cache_sgt i) 1 (s\<lparr>cache_sgt := (cache_sgt s)(i := Some segs)\<rparr>)"
    have "stage env (R \<union> cache_res ?s) ?s" using take_cache_stage [OF 2(3,4), of i ?s segs] 2(6) by simp
    moreover have "cache_sgt ?s k = None" if "k \<in> set is" for k using that 2(5,6) by auto
    ultimately have "stage env (R \<union> cache_res t) t \<and> probe_frame ?s t \<and>
        {i. cache_sgt t i \<noteq> None} \<subseteq> {i. cache_sgt ?s i \<noteq> None} \<union> set is"
      using True segs 2(2,4,5) by (intro 2(1)) auto
    moreover have "{k. cache_sgt ?s k \<noteq> None} \<subseteq> insert i {k. cache_sgt s k \<noteq> None}" by auto
    ultimately show ?thesis by (auto simp: probe_frame_def)
  next
    case False
    then show ?thesis using 2(2,3) by (auto simp: probe_frame_def split: if_splits)
  qed
qed (auto simp: probe_frame_def)

lemma nbuf_resource_fields:
  "stage env R (snd (rknpu_find_nbuf_resource env s)) = stage env R s"
  "probe_frame s (snd (rknpu_find_nbuf_resource env s))"
  "cache_sgt (snd (rknpu_find_nbuf_resource env s)) = cache_sgt s"
  by (simp_all add: rknpu_find_nbuf_resource_def Let_def stage_def sched_init_def probe_frame_def)

lemma probe_nbuf_stage:
  assumes "stage env R s" and "\<And>i. R_cache_sgt i \<notin> R" and "cache_sgt s = (\<lambda>i. None)"
    and "probe_nbuf env s = Some t"
  shows "stage env (R \<union> cache_res t) t \<and> probe_frame s t \<and> {i. cache_sgt t i \<noteq> None} \<subseteq> {0, 1} \<and>
    (cfg_cache_sgt_init (config t) = None \<longrightarrow> cache_sgt t = (\<lambda>i. None))"
proof -
  let ?s = "snd (rknpu_find_nbuf_resource env s)"
  have plain: ?thesis if "t = s \<or> t = ?s \<and> cfg_cache_sgt_init (config ?s) = None"
    using that assms(1,3) by (auto simp: cache_res_def nbuf_resource_fields)
  have st: "stage env (R \<union> cache_res ?s) ?s" and none: "cache_sgt ?s = (\<lambda>i. None)"
    using assms(1,3) by (simp_all add: cache_res_def nbuf_resource_fields)
  show ?thesis
  proof (cases "t = s \<or> t = ?s \<and> cfg_cache_sgt_init (config ?s) = None")
    case False
    then obtain f r where f: "cfg_cache_sgt_init (config ?s) = Some f"
      and run: "rk3576_cache_sgt_init env ?s = Some (r, t)"
      using assms(4) by (auto simp: probe_nbuf_def Let_def split: if_splits option.splits cache_sgt_init_fn.splits)
    from run obtain ok r' u where u: "cache_sgt_loop env [0..<cfg_num_irqs (config ?s)] 0 ?s = Some (ok, r', u)"
      and "(if ok then (0, u) else (r', fold free_cache_sgt [0..<cfg_num_irqs (config u)] u)) = (r, t)"
      unfolding rk3576_cache_sgt_init_def bind_eq_Some_conv by (auto simp del: upt_Suc)
    then have t: "t = (if ok then u else fold free_cache_sgt [0..<cfg_num_irqs (config u)] u)" by (cases ok) auto
    have loop: "stage env (R \<union> cache_res u) u \<and> probe_frame ?s u \<and>
        {i. cache_sgt u i \<noteq> None} \<subseteq> {i. cache_sgt ?s i \<noteq> None} \<union> set [0..<cfg_num_irqs (config ?s)]"
      using u st assms(2) none by (intro cache_loop_stage) auto
    have n: "cfg_num_irqs (config ?s) = 2" using st f by (simp add: stage_def)
    have "stage env (R \<union> cache_res t) t \<and> probe_frame ?s t \<and> {i. cache_sgt t i \<noteq> None} \<subseteq> {0, 1}"
      using loop t n none free_caches_stage [of env R u "[0..<cfg_num_irqs (config u)]"] assms(2)
      by (cases ok) (auto simp: probe_frame_def split: if_splits)
    then show ?thesis using f nbuf_resource_fields(2) [of s env] by (auto simp: probe_frame_def)
  qed (rule plain)
qed

subsection \<open>The outcome of the probe\<close>

definition leftover_rails :: "probe_env \<Rightarrow> int" where
  "leftover_rails env = (if power_off_stuck env then 1 else 0)"

lemma power_off_ready:
  assumes "pm_ready 1 env (pwr s)"
  shows "pm_ready (leftover_rails env) env (pwr (snd (rknpu_power_off (pe_power env) s)))"
  using assms
  by (auto simp: pm_ready_def leftover_rails_def power_off_stuck_def power_off_pwr all_rails_unpowered
      domains_bounded_def)

lemma power_off_fields [simp]:
  "sram_mm (snd (rknpu_power_off e s)) = sram_mm s" "cache_sgt (snd (rknpu_power_off e s)) = cache_sgt s"
  "build (snd (rknpu_power_off e s)) = build s" "config (snd (rknpu_power_off e s)) = config s"
  "iommu (snd (rknpu_power_off e s)) = iommu s"
  by (simp_all add: rknpu_power_off_def split: prod.splits)

lemma stage_iommu_upd:
  "iommu_en io = iommu_en (iommu s) \<Longrightarrow> stage env R (s\<lparr>iommu := io\<rparr>) = stage env R s"
  by (simp add: stage_def sched_init_def)

definition probed :: "probe_env \<Rightarrow> rknpu_device \<Rightarrow> bool" where
  "probed env t \<longleftrightarrow>
    stage env ({R_timer, R_debugger, R_power_off_wq} \<union> devfreq_res env (pwr t) \<union>
      {r. r = R_sram_mm \<and> sram_mm t \<noteq> None} \<union> cache_res t) t \<and>
    pm_ready (leftover_rails env) env (pwr t) \<and> power_refcount (pwr t) = 0 \<and> cmdline_power_refcount (pwr t) = 0 \<and>
    iommu_domain_refcount (iommu t) = 0 \<and> {i. cache_sgt t i \<noteq> None} \<subseteq> {0, 1} \<and>
    (cfg_cache_sgt_init (config t) = None \<longrightarrow> cache_sgt t = (\<lambda>i. None)) \<and>
    (sram_mm t \<noteq> None \<longrightarrow> CONFIG_ROCKCHIP_RKNPU_SRAM (build t))"

lemma probe_finish_probed:
  assumes "stage env (insert R_power_off_wq (devfreq_res env (pwr s)) \<union>
      {r. r = R_sram_mm \<and> sram_mm s \<noteq> None} \<union> cache_res s) s"
    and "pm_ready 1 env (pwr s)" and "{i. cache_sgt s i \<noteq> None} \<subseteq> {0, 1}"
    and "cfg_cache_sgt_init (config s) = None \<longrightarrow> cache_sgt s = (\<lambda>i. None)"
    and "sram_mm s \<noteq> None \<longrightarrow> CONFIG_ROCKCHIP_RKNPU_SRAM (build s)"
  shows "probed env (probe_finish env s)"
proof -
  define io where "io = (if iommu_en (iommu s)
                         then snd (rknpu_iommu_init_domain (CONFIG_NO_GKI (build s)) (pe_dom_for_dev env) (iommu s))
                         else iommu s)"
  define u where "u = snd (rknpu_power_off (pe_power env) (s\<lparr>iommu := io\<rparr>))"
  define v where "v = u\<lparr>pwr := (pwr u)\<lparr>power_refcount := 0, cmdline_power_refcount := 0\<rparr>,
                        iommu := (iommu u)\<lparr>iommu_domain_refcount := 0\<rparr>\<rparr>"
  have t: "probe_finish env s = count_dev R_timer 1 (count_dev R_debugger 1 v)"
    by (simp add: probe_finish_def Let_def rknpu_init_timer_def v_def u_def io_def upd_pwr_def)
  have "iommu_en io = iommu_en (iommu s)" by (simp add: io_def rknpu_iommu_init_domain_def)
  then have st: "stage env R u = stage env R s" for R by (simp add: u_def stage_iommu_upd)
  have rd: "pm_ready (leftover_rails env) env (pwr u)"
    unfolding u_def by (rule power_off_ready) (simp add: assms(2))
  have lock: "\<not> devfreq_lock (pwr (s\<lparr>iommu := io\<rparr>))" using assms(2) by (simp add: pm_ready_def)
  let ?R = "insert R_power_off_wq (devfreq_res env (pwr s)) \<union> {r. r = R_sram_mm \<and> sram_mm s \<noteq> None} \<union> cache_res s"
  have "stage env ?R v" using assms(1) st by (simp add: v_def stage_def sched_init_def)
  then have "stage env (insert R_timer (insert R_debugger ?R)) (probe_finish env s)"
    unfolding t by (intro stage_take) (auto simp: res_defs cache_res_def)
  moreover have "devfreq_res env (pwr v) = devfreq_res env (pwr s)"
    using power_off_pwr_fields [OF lock, of "pe_power env"] by (simp add: v_def u_def res_defs)
  moreover have "pm_ready (leftover_rails env) env (pwr v)"
    using rd by (simp add: v_def pm_ready_def all_rails_def domains_bounded_def)
  moreover have "sram_mm v = sram_mm s" "cache_sgt v = cache_sgt s" "build v = build s" "config v = config s"
    by (simp_all add: v_def u_def)
  ultimately show ?thesis
    using assms(3-5) by (simp add: probed_def t v_def cache_res_def insert_commute)
qed

text \<open>The labels leave the rails as the last power-off did.\<close>

lemma label_pwr [simp]:
  "pwr (err_release_iommu s) = pwr s" "pwr (rknpu_drm_remove s) = pwr s" "pwr (err_remove_drv s) = pwr s"
  "pwr (err_detach_pm s) = pwr s"
  by (simp_all add: err_release_iommu_def err_remove_drv_def err_detach_pm_def rknpu_drm_remove_def
      drm_fake_dev_unregister_def)

lemma label_rails:
  assumes "pm_ready 1 env (pwr s)"
  shows "all_rails (leftover_rails env) (pwr (err_devfreq_remove env s))"
    and "all_rails (leftover_rails env) (pwr (err_remove_wq env s))"
proof -
  have off: "all_rails (leftover_rails env) (pwr (err_devfreq_remove env t))" if "pm_ready 1 env (pwr t)" for t
    using power_off_ready [of env "rknpu_devfreq_remove t"] that by (simp add: err_devfreq_remove_def pm_ready_def)
  from off [OF assms] show "all_rails (leftover_rails env) (pwr (err_devfreq_remove env s))" .
  have "pm_ready 1 env (pwr (count_dev R_power_off_wq (- 1) (set_off_work False s)))"
    using assms by (simp add: pm_ready_def set_off_work_def domains_bounded_def)
  from off [OF this] show "all_rails (leftover_rails env) (pwr (err_remove_wq env s))"
    by (simp add: err_remove_wq_def)
qed

text \<open>From the work queue on.\<close>

lemma probe_memory_outcome:
  assumes "stage env (insert R_power_off_wq (devfreq_res env (pwr s))) s" and "pm_ready 1 env (pwr s)"
    and "sram_mm s = None" and "cache_sgt s = (\<lambda>i. None)"
    and "(let (ret, s) = probe_sram env s in
          if ret \<noteq> 0 then Some (ret, err_remove_wq env s)
          else do { s \<leftarrow> probe_nbuf env s; Some (0, probe_finish env s) }) = Some (ret, t)"
  shows "if ret = 0 then probed env t else stage env {} t \<and> all_rails (leftover_rails env) (pwr t)"
proof -
  let ?R = "insert R_power_off_wq (devfreq_res env (pwr s))"
  obtain r u where u: "probe_sram env s = (r, u)" by fastforce
  have "R_sram_mm \<notin> ?R" by (simp add: res_defs)
  note sram = probe_sram_stage [OF assms(1) this assms(3) u]
  show ?thesis
  proof (cases "r = 0")
    case True
    then obtain v where v: "probe_nbuf env u = Some v" and t: "ret = 0" "t = probe_finish env v"
      using assms(5) u by (auto simp: bind_eq_Some_conv)
    have "R_cache_sgt i \<notin> ?R \<union> {r. r = R_sram_mm \<and> sram_mm u \<noteq> None}" for i by (simp add: res_defs)
    note nbuf = probe_nbuf_stage [OF sram(1) this _ v]
    have "probed env (probe_finish env v)"
      using nbuf sram(3-5) assms(2,4) by (intro probe_finish_probed) (simp_all add: probe_frame_def)
    with t show ?thesis by simp
  next
    case False
    then have t: "ret = r" "t = err_remove_wq env u" using assms(5) u by auto
    moreover have "stage env {} (err_remove_wq env u)"
      using sram(1-3) False assms(2) by (intro wq_label_empty) (simp_all add: pm_ready_def)
    moreover have "pm_ready 1 env (pwr u)" using sram(3) assms(2) by simp
    ultimately show ?thesis using False label_rails(2) by simp
  qed
qed

lemma probe_powered_outcome:
  assumes "stage env (pm_res env (pwr s)) s" and "pm_ready 0 env (pwr s)" and "\<not> has_devfreq (pwr s)"
    and "sram_mm s = None" and "cache_sgt s = (\<lambda>i. None)" and "probe_powered env s = Some (ret, t)"
  shows "if ret = 0 then probed env t
         else stage env {} t \<and> (all_rails 0 (pwr t) \<or> all_rails (leftover_rails env) (pwr t))"
proof -
  obtain r1 s1 where on: "rknpu_power_on (pe_power env) s = (r1, s1)" by fastforce
  note on' = power_on_ready [OF assms(2,3) on]
  have s1: "stage env (pm_res env (pwr s1)) s1" "sram_mm s1 = None" "cache_sgt s1 = (\<lambda>i. None)"
    using assms(1,4,5) on' power_on_frame(1) [of env "pm_res env (pwr s)" "pe_power env" s]
      power_on_frame(2,3) [of "pe_power env" s] by (simp_all add: on)
  show ?thesis
  proof (cases "r1 = 0")
    case False
    then have "ret = r1" "t = err_detach_pm s1" using assms(6) on by (auto simp: probe_powered_def)
    with False s1(1) on'(1) detach_pm_empty show ?thesis by (simp add: pm_ready_def)
  next
    case True
    obtain r2 s2 where df: "rknpu_devfreq_init (pe_devfreq env) s1 = (r2, s2)" by fastforce
    note df' = devfreq_init_stage [OF s1(1) on'(2) df]
    define s3 where "s3 = s2\<lparr>pwr := (pwr s2)\<lparr>power_put_delay := 3000\<rparr>\<rparr>"
    have same: "devfreq_res env (pwr s3) = devfreq_res env (pwr s2)" by (simp add: s3_def res_defs)
    have s3: "stage env (devfreq_res env (pwr s3)) s3" "pm_ready 1 env (pwr s3)" "sram_mm s3 = None"
      "cache_sgt s3 = (\<lambda>i. None)"
      using df' on'(1) True s1(2,3) same by (simp_all add: s3_def)
    have run: "probe_powered env s =
        (if \<not> pe_wq_ok env then Some (- ENOMEM, err_devfreq_remove env s3)
         else let (ret, s) = probe_sram env (count_dev R_power_off_wq 1 s3) in
              if ret \<noteq> 0 then Some (ret, err_remove_wq env s)
              else do { s \<leftarrow> probe_nbuf env s; Some (0, probe_finish env s) })"
      using True by (simp add: probe_powered_def on df s3_def upd_pwr_def)
    show ?thesis
    proof (cases "pe_wq_ok env")
      case False
      then have "ret = - ENOMEM" "t = err_devfreq_remove env s3" using assms(6) run by simp_all
      with s3 devfreq_label_empty label_rails(1) show ?thesis by (simp add: pm_ready_def)
    next
      case True
      have "R_power_off_wq \<notin> devfreq_res env (pwr s3)" by (simp add: res_defs)
      from stage_take [OF s3(1) this] s3 True assms(6) run
      show ?thesis using probe_memory_outcome [of env "count_dev R_power_off_wq 1 s3" ret t] by (auto split: if_splits)
    qed
  qed
qed

lemma probe_config_cache:
  assumes "rknpu_probe_config has_node compatible kzalloc_ok has_cores = Inr c"
  shows "cfg_cache_sgt_init c \<noteq> None \<longrightarrow> cfg_num_irqs c = 2"
  using assms
  by (auto simp: rknpu_probe_config_def Let_def config_defs split: if_splits option.splits
      dest!: map_of_rknpu_of_match)

lemma probe_registered_outcome:
  assumes "stage env (base_res env) s" and "cold (pwr s)" and "sram_mm s = None" and "cache_sgt s = (\<lambda>i. None)"
    and "probe_registered env s = Some (ret, t)"
  shows "if ret = 0 then probed env t
         else stage env {} t \<and> (all_rails 0 (pwr t) \<or> all_rails (leftover_rails env) (pwr t))"
proof -
  obtain r1 s1 where drm: "rknpu_drm_probe env s = Some (r1, s1)"
    using assms(5) by (cases "rknpu_drm_probe env s") (auto simp: probe_registered_def)
  note s1 = drm_probe_stage [OF assms(1) drm]
  have mem: "sram_mm s1 = None" "cache_sgt s1 = (\<lambda>i. None)"
    using assms(3,4) drm
    by (auto simp: rknpu_drm_probe_def drm_fake_dev_register_def split: if_splits bind_splits)
  consider "r1 \<noteq> 0" | "r1 = 0" "\<not> pe_fence_ok env" | "r1 = 0" "pe_fence_ok env" by blast
  then show ?thesis
  proof cases
    case 1
    with s1 assms(2,5) drm release_iommu_empty show ?thesis by (auto simp: probe_registered_def cold_def)
  next
    case 2
    with s1 assms(2,5) drm remove_drv_empty show ?thesis
      by (auto simp: probe_registered_def rknpu_fence_context_alloc_def cold_def)
  next
    case 3
    define s2 where "s2 = count_dev R_pm_enabled 1 (s1\<lparr>fence_ctx := \<lparr>fctx_context = pe_fence_context env, fctx_seqno = 0\<rparr>\<rparr>)"
    have "stage env (insert R_pm_enabled (drm_res env)) s2"
      unfolding s2_def using s1 3 by (intro stage_take) (simp_all add: res_defs)
    moreover have "cold (pwr s2)" using s1 assms(2) by (simp add: s2_def)
    ultimately have "stage env (pm_res env (pwr (probe_domains env s2))) (probe_domains env s2) \<and>
        pm_ready 0 env (pwr (probe_domains env s2)) \<and> \<not> has_devfreq (pwr (probe_domains env s2))"
      by (rule probe_domains_stage)
    moreover have "sram_mm (probe_domains env s2) = None" "cache_sgt (probe_domains env s2) = (\<lambda>i. None)"
      using mem by (simp_all add: probe_domains_def upd_pwr_def attach_domain_def s2_def)
    moreover have "probe_powered env (probe_domains env s2) = Some (ret, t)"
      using assms(5) drm 3 by (simp add: probe_registered_def rknpu_fence_context_alloc_def s2_def)
    ultimately show ?thesis by (intro probe_powered_outcome) simp_all
  qed
qed

lemma probe_outcome:
  assumes "rknpu_probe env (zero_device bld cfg dom0) = Some (ret, t)"
  shows "if ret = 0 then probed env t
         else dev_count t = holding {} \<and> (all_rails 0 (pwr t) \<or> all_rails (leftover_rails env) (pwr t))"
proof -
  let ?z = "zero_device bld cfg dom0"
  have z: "dev_count ?z = holding {}" "cold (pwr ?z)" "sram_mm ?z = None" "cache_sgt ?z = (\<lambda>i. None)"
    by (simp_all add: zero_device_def holding_def cold_def all_rails_off)
  show ?thesis
  proof (cases "rknpu_probe_config (pe_has_node env) (pe_compatible env) (pe_kzalloc_ok env) (pe_has_cores env)")
    case (Inl e)
    then have "ret = e" "t = ?z" "e \<noteq> 0"
      using assms by (auto simp: rknpu_probe_def rknpu_probe_config_def Let_def split: if_splits option.splits)
    then show ?thesis using z by (simp add: cold_def)
  next
    case (Inr c)
    obtain r1 s1 where io: "probe_iommu env (?z\<lparr>config := c\<rparr>) = (r1, s1)" by fastforce
    have "sched_init (?z\<lparr>config := c\<rparr>)"
      using probe_config_ok [OF Inr] by (simp add: sched_init_def zero_device_def idle_subcore_def)
    note s1 = probe_iommu_stage [OF _ this _ io]
    have mem: "sram_mm s1 = None" "cache_sgt s1 = (\<lambda>i. None)"
      using io z(3,4) by (auto simp: probe_iommu_def Let_def split: if_splits)
    obtain r2 s2 where hw: "probe_hw env (probe_reset env s1) = (r2, s2)" by fastforce
    have run: "(if r1 \<noteq> 0 then Some (r1, s1)
        else if r2 \<noteq> 0 then Some (r2, err_release_iommu s2) else probe_registered env s2) = Some (ret, t)"
      using assms Inr io hw by (cases "r1 = 0"; cases "r2 = 0") (simp_all add: rknpu_probe_def)
    show ?thesis
    proof (cases "r1 = 0")
      case False
      then show ?thesis using run s1(1,3) z(1,2) probe_config_cache [OF Inr] by (auto simp: cold_def)
    next
      case True
      have "stage env (base_res env) (probe_reset env s1)" "cold (pwr (probe_reset env s1))"
        using s1(1,2) True z(1,2) probe_config_cache [OF Inr] by (simp_all add: probe_reset_def)
      note s2 = probe_hw_stage [OF this hw]
      show ?thesis
      proof (cases "r2 = 0")
        case False
        then show ?thesis
          using run True s2 release_iommu_empty [of env s2] by (auto simp: stage_def cold_def)
      next
        case r2: True
        have "if ret = 0 then probed env t
              else stage env {} t \<and> (all_rails 0 (pwr t) \<or> all_rails (leftover_rails env) (pwr t))"
          using run True r2 s2 mem by (intro probe_registered_outcome [of env s2]) (simp_all add: probe_reset_def)
        then show ?thesis by (simp add: stage_def split: if_splits)
      qed
    qed
  qed
qed

lemma stage_other_iommu:
  assumes "stage env R s"
  shows "\<exists>env'. stage env' R (s\<lparr>iommu := io\<rparr>)"
proof
  show "stage (env\<lparr>pe_iommu_node := iommu_en io, pe_iommu_available := True\<rparr>) R (s\<lparr>iommu := io\<rparr>)"
    using assms by (simp add: stage_def sched_init_def rknpu_is_iommu_enable_def)
qed

text \<open>The second half of \<open>rknpu_remove\<close>, from \<open>rknpu_drm_remove\<close> on.\<close>

lemma remove_second_half:
  fixes s :: rknpu_device and env :: probe_env
  defines "t \<equiv> rknpu_devfreq_remove (rknpu_drm_remove s)"
  assumes "stage env' (devfreq_res env (pwr s) - {R_iommu_group}) s" and "domains_bounded (pwr s)"
  shows "dev_count (count_dev R_pm_enabled (- 1) (detach_domains [0, 1, 2] t)) = holding (base_res env - {R_iommu_group})"
proof -
  let ?D = "{R_pm_domain i | i. multiple_domains (pwr s) \<and> has_genpd (pwr s) i}"
  let ?R = "devfreq_res env (pwr s) - {R_iommu_group} - {R_fake_dev, R_drm_dev} - {R_governor}"
  have pt: "pwr t = pwr s" by (simp add: t_def)
  have "stage env' ?R t"
    unfolding t_def using assms(2)
    by (intro devfreq_remove_stage drm_remove_stage) (auto simp: res_defs)
  then have "stage env' (?R - ?D) (detach_domains [0, 1, 2] t)"
    using detach_stage [of env' ?R t "[0, 1, 2]"] assms(3) by (auto simp: pt domains_bounded_def res_defs)
  then have "stage env' (?R - ?D - {R_pm_enabled}) (count_dev R_pm_enabled (- 1) (detach_domains [0, 1, 2] t))"
    by (rule stage_give) (simp add: res_defs)
  moreover have "?R - ?D - {R_pm_enabled} = base_res env - {R_iommu_group}" by (auto simp: res_defs split: if_splits)
  ultimately show ?thesis by (simp add: stage_def)
qed

lemma remove_memory_stage:
  assumes "probed env t"
  shows "stage env (devfreq_res env (pwr t)) (remove_memory t)"
    and "pwr (remove_memory t) = (pwr t)\<lparr>power_off_work := False\<rparr>"
proof -
  let ?R0 = "devfreq_res env (pwr t) \<union> {r. r = R_sram_mm \<and> sram_mm t \<noteq> None}"
  have st: "stage env ({R_timer, R_debugger, R_power_off_wq} \<union> ?R0 \<union> cache_res t) t"
    and c01: "{i. cache_sgt t i \<noteq> None} \<subseteq> {0, 1}"
    and cache: "cfg_cache_sgt_init (config t) = None \<Longrightarrow> cache_sgt t = (\<lambda>i. None)"
    and sram: "sram_mm t \<noteq> None \<Longrightarrow> CONFIG_ROCKCHIP_RKNPU_SRAM (build t)"
    using assms by (auto simp: probed_def Un_assoc)
  define s2 where "s2 = rknpu_cancel_timer (count_dev R_debugger (- 1) (count_dev R_power_off_wq (- 1) (set_off_work False t)))"
  have p2: "pwr s2 = (pwr t)\<lparr>power_off_work := False\<rparr>" "cache_sgt s2 = cache_sgt t" "sram_mm s2 = sram_mm t"
    "config s2 = config t" "build s2 = build t"
    by (simp_all add: s2_def rknpu_cancel_timer_def set_off_work_def)
  have "stage env ({R_timer, R_debugger, R_power_off_wq} \<union> ?R0 \<union> cache_res t - {R_power_off_wq} - {R_debugger} - {R_timer}) s2"
    unfolding s2_def rknpu_cancel_timer_def using st by (intro stage_give) simp_all
  moreover have "{R_timer, R_debugger, R_power_off_wq} \<union> ?R0 \<union> cache_res t - {R_power_off_wq} - {R_debugger} - {R_timer} =
      ?R0 \<union> cache_res s2" by (auto simp: res_defs cache_res_def p2 split: if_splits)
  ultimately have st2: "stage env (?R0 \<union> cache_res s2) s2" by simp
  define s3 where "s3 = (if cfg_cache_sgt_init (config s2) \<noteq> None then fold free_cache_sgt [0, 1] s2 else s2)"
  have none: "(\<lambda>i. if i \<in> set [0, 1] then None else cache_sgt s2 i) = (\<lambda>i. None)"
    by (rule ext) (use c01 p2 in auto)
  have "R_cache_sgt i \<notin> ?R0" for i by (simp add: res_defs)
  note freed = free_caches_stage [OF st2 this, of "[0, 1]", unfolded none]
  have s3: "stage env ?R0 s3" "probe_frame s2 s3"
    using freed st2 cache by (auto simp: s3_def p2 cache_res_def)
  have s4: "remove_memory t =
      (if CONFIG_ROCKCHIP_RKNPU_SRAM (build s3) \<and> sram_mm s3 \<noteq> None then count_dev R_sram_mm (- 1) s3 else s3)"
    unfolding remove_memory_def Let_def s2_def s3_def by (rule refl)
  show "pwr (remove_memory t) = (pwr t)\<lparr>power_off_work := False\<rparr>"
    using s3(2) by (simp add: s4 probe_frame_def p2)
  have "?R0 - {R_sram_mm} = devfreq_res env (pwr t)" by (auto simp: res_defs split: if_splits)
  with stage_give [OF s3(1), of R_sram_mm] s3 sram show "stage env (devfreq_res env (pwr t)) (remove_memory t)"
    by (cases "sram_mm t = None") (simp_all add: s4 probe_frame_def p2)
qed

lemma remove_stage:
  assumes "probed env t"
  shows "dev_count (rknpu_remove ienv penv t) = holding (base_res env - {R_iommu_group})"
proof -
  have rd: "pm_ready (leftover_rails env) env (pwr t)" and idle: "power_refcount (pwr t) = 0"
    using assms by (auto simp: probed_def)
  define s4 where "s4 = remove_memory t"
  note st4 = remove_memory_stage(1) [OF assms, folded s4_def]
  define s5 where "s5 = (if iommu_en (iommu s4) then count_dev R_iommu_group (- 1)
      (s4\<lparr>iommu := rknpu_iommu_free_domains (CONFIG_NO_GKI (build s4)) ienv (iommu s4)\<rparr>) else s4)"
  have p5: "pwr s5 = (pwr t)\<lparr>power_off_work := False\<rparr>"
    using remove_memory_stage(2) [OF assms] by (simp add: s5_def s4_def)
  have "R_iommu_group \<in> devfreq_res env (pwr t) \<longleftrightarrow> iommu_en (iommu s4)"
    using st4 by (simp add: stage_def res_defs)
  then have "\<exists>env'. stage env' (devfreq_res env (pwr t) - {R_iommu_group}) s5"
    using stage_other_iommu [OF st4] stage_give [where r = R_iommu_group] st4
    by (cases "iommu_en (iommu s4)") (simp_all add: s5_def, metis, blast)
  moreover have "devfreq_res env (pwr s5) = devfreq_res env (pwr t)" by (simp add: p5 res_defs)
  ultimately obtain env' where "stage env' (devfreq_res env (pwr s5) - {R_iommu_group}) s5" by auto
  then have "dev_count (count_dev R_pm_enabled (- 1) (detach_domains [0, 1, 2] (rknpu_devfreq_remove (rknpu_drm_remove s5)))) =
      holding (base_res env - {R_iommu_group})"
    using rd by (intro remove_second_half) (simp_all add: p5 pm_ready_def domains_bounded_def)
  then show ?thesis
    using idle by (simp add: rknpu_remove_def Let_def p5 flip: s4_def s5_def)
qed

subsection \<open>The probe returns\<close>

lemma cache_loop_returns:
  "cfg_num_irqs (config s) = 2 \<Longrightarrow> set is \<subseteq> {0, 1} \<Longrightarrow> \<exists>x. cache_sgt_loop env is ret s = Some x"
  by (induction env "is" ret s rule: cache_sgt_loop.induct) (auto simp: cache_table_def)

lemma probe_nbuf_returns:
  assumes "cfg_cache_sgt_init (config s) \<noteq> None \<longrightarrow> cfg_num_irqs (config s) = 2"
  shows "\<exists>t. probe_nbuf env s = Some t"
proof -
  let ?s = "snd (rknpu_find_nbuf_resource env s)"
  have c: "config ?s = config s" by (simp add: rknpu_find_nbuf_resource_def Let_def)
  have "\<exists>x. rk3576_cache_sgt_init env ?s = Some x" if n: "cfg_num_irqs (config s) = 2"
  proof -
    have "set [0..<cfg_num_irqs (config ?s)] \<subseteq> {0, 1}" using n c by auto
    then obtain x where "cache_sgt_loop env [0..<cfg_num_irqs (config ?s)] 0 ?s = Some x"
      using cache_loop_returns n c by metis
    then show ?thesis by (auto simp: rk3576_cache_sgt_init_def split: prod.splits)
  qed
  with assms show ?thesis
    by (auto simp: probe_nbuf_def Let_def c split: option.splits cache_sgt_init_fn.splits)
qed

lemma probe_cores_config: "probe_cores env is s = (ret, t) \<Longrightarrow> config t = config s"
  by (induction env "is" s rule: probe_cores.induct) (auto simp: Let_def upd_subcore_def split: if_splits)

lemma probe_stages_config:
  "config (snd (probe_iommu env s)) = config s" "config (probe_reset env s) = config s"
  "config (snd (probe_hw env s)) = config s" "config (probe_domains env s) = config s"
  "config (snd (rknpu_power_on e s)) = config s" "config (snd (probe_sram env s)) = config s"
  using run_state_init_mmio [of "s\<lparr>pwr := snd (power_on_rails e (pwr s))\<rparr>"]
  by (auto simp: probe_iommu_def probe_reset_def probe_hw_def upd_pwr_def Let_def
      probe_domains_def attach_fold rknpu_power_on_def probe_sram_def rknpu_find_sram_resource_def
      split: sum.splits prod.splits dest!: probe_cores_config)

lemma probe_powered_returns:
  assumes "cfg_cache_sgt_init (config s) \<noteq> None \<longrightarrow> cfg_num_irqs (config s) = 2"
  shows "\<exists>x. probe_powered env s = Some x"
proof -
  obtain r1 s1 where on: "rknpu_power_on (pe_power env) s = (r1, s1)" by fastforce
  define s3 where "s3 = count_dev R_power_off_wq 1 (upd_pwr (\<lambda>p. p\<lparr>power_put_delay := 3000\<rparr>)
    (snd (rknpu_devfreq_init (pe_devfreq env) s1)))"
  obtain r4 s4 where sram: "probe_sram env s3 = (r4, s4)" by fastforce
  obtain r2 s2 where df: "rknpu_devfreq_init (pe_devfreq env) s1 = (r2, s2)" by fastforce
  have "config s1 = config s" using probe_stages_config(5) [of "pe_power env" s] on by simp
  moreover have "config s2 = config s1" using arg_cong [OF devfreq_init_frame [OF df], of config] by simp
  moreover have "config s4 = config s2"
    using probe_stages_config(6) [of env s3] sram by (simp add: s3_def upd_pwr_def df)
  ultimately obtain t where "probe_nbuf env s4 = Some t" using probe_nbuf_returns [of s4 env] assms by auto
  then show ?thesis using sram by (simp add: probe_powered_def on s3_def Let_def)
qed

text \<open>The only call that can fault is the one that takes an error pointer for a device.\<close>

lemma probe_returns:
  assumes "pe_fake_dev_ok env"
  shows "\<exists>ret t. rknpu_probe env s = Some (ret, t)"
proof (cases "rknpu_probe_config (pe_has_node env) (pe_compatible env) (pe_kzalloc_ok env) (pe_has_cores env)")
  case (Inr c)
  obtain r1 s1 where io: "probe_iommu env (s\<lparr>config := c\<rparr>) = (r1, s1)" by fastforce
  obtain r2 s2 where hw: "probe_hw env (probe_reset env s1) = (r2, s2)" by fastforce
  have c2: "config s2 = c"
    using probe_stages_config(1) [of env "s\<lparr>config := c\<rparr>"] probe_stages_config(2) [of env s1]
      probe_stages_config(3) [of env "probe_reset env s1"] io hw by simp
  have "\<exists>r3 s3. rknpu_drm_probe env s2 = Some (r3, s3) \<and> config s3 = c"
    using assms c2 by (simp add: rknpu_drm_probe_def drm_fake_dev_register_def)
  then obtain r3 s3 where drm: "rknpu_drm_probe env s2 = Some (r3, s3)" and c3: "config s3 = c" by blast
  have "\<exists>x. probe_registered env s2 = Some x"
    using probe_powered_returns c3 probe_config_cache [OF Inr]
    by (auto simp: probe_registered_def drm rknpu_fence_context_alloc_def probe_stages_config)
  then show ?thesis using Inr io hw by (cases "r1 = 0"; cases "r2 = 0") (auto simp: rknpu_probe_def)
qed (simp add: rknpu_probe_def)

section \<open>Properties\<close>


definition probe_env_ok :: probe_env where
  "probe_env_ok = \<lparr>pe_has_node = True, pe_compatible = ''rockchip,rk3588-rknpu'', pe_kzalloc_ok = True,
     pe_has_cores = False, pe_iommu_node = True, pe_iommu_available = True, pe_group_ok = True, pe_reserved_ret = 0,
     pe_bypass_irq = False, pe_bypass_reset = False, pe_reset_count = 0, pe_reset_kcalloc = True,
     pe_reset_control = (\<lambda>i. Inr i), pe_num_clks = 4, pe_vdd = None, pe_mem = Some (- ENODEV),
     pe_mem_resource = (\<lambda>i. True), pe_ioremap_ret = (\<lambda>i. 0), pe_bw_ioremap_ok = True,
     pe_irq_byname = (\<lambda>i. 40), pe_irq_index = (\<lambda>i. 40), pe_request_irq_ret = (\<lambda>i. 0), pe_drm_alloc_ret = 0,
     pe_drm_register_ret = 0, pe_fake_dev_ok = True, pe_fake_dma_ret = 0, pe_fence_ok = True, pe_fence_context = 1,
     pe_power_domains = 1, pe_genpd_ok = (\<lambda>i. True), pe_power = power_env_ok, pe_devfreq = df_env_ok,
     pe_wq_ok = True, pe_sram_node = False, pe_sram_address_ret = 0, pe_sram_res_start = 0, pe_sram_res_size = 0,
     pe_sram_io = 0, pe_mm_create = Inl (- ENOMEM), pe_nbuf_io = 0, pe_sgt_kzalloc_ok = (\<lambda>i. True),
     pe_sgt_alloc_ret = (\<lambda>i. 0), pe_dom_for_dev = Some 7\<rparr>"

lemma power_on_ok: "fst (rknpu_power_on power_env_ok s) = 0"
proof -
  have "try_rail power_env_ok f b r p = (0, b, rail_get_if b r p)" if "\<not> f 0" for f b r p
    using that by (simp add: try_rail_def power_env_ok_def rail_get_if_def)
  moreover have "enable_ret power_env_ok r = 0" for r by (simp add: power_env_ok_def)
  ultimately show ?thesis by (simp add: rknpu_power_on_def power_on_rails_def Let_def)
qed

text \<open>What the sample answers lead to: the return values of the stages do not depend on the device.\<close>

lemma probe_hw_ok:
  assumes "pe_num_clks env \<ge> 1" and "pe_vdd env = None" and "pe_mem env = Some (- ENODEV)"
    and "pe_mem_resource env = (\<lambda>i. True)" and "pe_ioremap_ret env = (\<lambda>i. 0)" and "pe_irq_byname env = (\<lambda>i. 40)"
    and "pe_request_irq_ret env = (\<lambda>i. 0)"
  shows "fst (probe_hw env s) = 0"
proof -
  have "fst (probe_cores env is s) = 0" for "is" s
    using assms(4,5) by (induction env "is" s rule: probe_cores.induct) (simp_all add: Let_def)
  moreover have "register_irqs env is = 0" for "is"
    using assms(6,7) by (induction "is") simp_all
  ultimately show ?thesis
    using assms(1-3)
    by (auto simp: probe_hw_def optional_regulator_def rknpu_register_irq_def Let_def split: prod.splits)
      (metis fst_conv)+
qed

lemma probe_sample_registered:
  assumes "env = probe_env_ok\<lparr>pe_wq_ok := wq, pe_power_domains := n\<rparr>"
  shows "\<exists>s. rknpu_probe env z = probe_powered env s"
proof -
  have iommu: "fst (probe_iommu env s) = 0" for s
    by (simp add: assms probe_env_ok_def probe_iommu_def rknpu_is_iommu_enable_def Let_def)
  have hw: "fst (probe_hw env s) = 0" for s by (rule probe_hw_ok) (simp_all add: assms probe_env_ok_def)
  have drm: "\<exists>t. rknpu_drm_probe env s = Some (0, t)" for s
    by (simp add: assms probe_env_ok_def rknpu_drm_probe_def drm_fake_dev_register_def)
  have reg: "\<exists>t. probe_registered env s = probe_powered env t" for s
  proof -
    obtain u where "rknpu_drm_probe env s = Some (0, u)" using drm by blast
    then have "probe_registered env s = probe_powered env (probe_domains env (count_dev R_pm_enabled 1
        (u\<lparr>fence_ctx := \<lparr>fctx_context = pe_fence_context env, fctx_seqno = 0\<rparr>\<rparr>)))"
      by (simp add: probe_registered_def rknpu_fence_context_alloc_def assms probe_env_ok_def)
    then show ?thesis by blast
  qed
  have "rknpu_probe_config (pe_has_node env) (pe_compatible env) (pe_kzalloc_ok env) (pe_has_cores env) =
      Inr rk3588_rknpu_config"
    by (simp add: assms probe_env_ok_def rknpu_probe_config_def rknpu_of_match_def rknpu_get_invalid_core_mask_def)
  then have "\<exists>s. rknpu_probe env z = probe_registered env s"
    using iommu [of "z\<lparr>config := rk3588_rknpu_config\<rparr>"] hw
    by (auto simp: rknpu_probe_def split: prod.splits) (metis fst_conv)
  with reg show ?thesis by metis
qed

lemma probe_sample_failure:
  assumes "env = probe_env_ok\<lparr>pe_wq_ok := False, pe_power_domains := n\<rparr>"
  shows "\<exists>t. rknpu_probe env z = Some (- ENOMEM, t)"
proof -
  obtain s where "rknpu_probe env z = probe_powered env s" using probe_sample_registered [OF assms] by blast
  moreover have "fst (rknpu_power_on (pe_power env) s) = 0"
    using power_on_ok by (simp add: assms probe_env_ok_def)
  ultimately show ?thesis by (auto simp: probe_powered_def assms Let_def split: prod.splits)
qed

lemma probe_sample_success:
  assumes "env = probe_env_ok\<lparr>pe_wq_ok := True, pe_power_domains := n\<rparr>"
  shows "\<exists>t. rknpu_probe env z = Some (0, t)"
proof -
  obtain s where s: "rknpu_probe env z = probe_powered env s" using probe_sample_registered [OF assms] by blast
  obtain ret t where t: "rknpu_probe env z = Some (ret, t)"
    using probe_returns [of env z] by (auto simp: assms probe_env_ok_def)
  have "fst (rknpu_power_on (pe_power env) s) = 0"
    using power_on_ok by (simp add: assms probe_env_ok_def)
  moreover have "fst (probe_sram env s) = 0" for s
    by (simp add: probe_sram_def rknpu_find_sram_resource_def assms probe_env_ok_def)
  ultimately have "ret = 0"
    using s t by (auto simp: probe_powered_def assms Let_def bind_eq_Some_conv split: prod.splits if_splits) (metis fst_conv)
  with t show ?thesis by blast
qed

abbreviation sample_zero :: rknpu_device where
  "sample_zero \<equiv> zero_device \<lparr>CONFIG_NO_GKI = False, CONFIG_ROCKCHIP_RKNPU_SRAM = False,
    CONFIG_ROCKCHIP_RKNPU_DRM_GEM = True\<rparr> rk3588_rknpu_config (Some 7)"


text \<open>
  C10: a successful probe leaves the device in the initial state of the other components: the configuration is well
  formed, every core is idle with an empty queue, nobody holds an IOMMU domain, and nobody holds the power: the
  reference counts are 0 and the rails are off. The exception is a device with several power domains and an IOMMU
  group (as on RK3588): there the power-off at the end of the probe fails, its result is ignored, and all rails
  stay on with a reference count of 0.
\<close>

theorem probe_establishes_invariants:
  assumes "rknpu_probe env (zero_device bld cfg dom0) = Some (0, t)"
  shows "sched_init t \<and> lease_init (iommu t, []) \<and>
    (if power_off_stuck env then all_rails 1 (pwr t) \<and> power_refcount (pwr t) = 0 else debug_init (t, 0))"
  using probe_outcome [OF assms]
  by (auto simp: probed_def stage_def lease_init_def leftover_rails_def debug_init_def power_init_def pm_ready_def)

theorem probe_establishes_invariants_witness:
  "(\<exists>t. rknpu_probe (probe_env_ok\<lparr>pe_wq_ok := True, pe_power_domains := 1\<rparr>) sample_zero = Some (0, t) \<and>
     sched_init t \<and> lease_init (iommu t, []) \<and> debug_init (t, 0)) \<and>
   (\<exists>t. rknpu_probe (probe_env_ok\<lparr>pe_wq_ok := True, pe_power_domains := 3\<rparr>) sample_zero = Some (0, t) \<and>
     all_rails 1 (pwr t) \<and> power_refcount (pwr t) = 0)"
proof -
  let ?e = "\<lambda>n. probe_env_ok\<lparr>pe_wq_ok := True, pe_power_domains := n\<rparr>"
  obtain t where t: "rknpu_probe (?e 1) sample_zero = Some (0, t)" using probe_sample_success [OF refl] by blast
  obtain u where u: "rknpu_probe (?e 3) sample_zero = Some (0, u)" using probe_sample_success [OF refl] by blast
  have "\<not> power_off_stuck (?e 1)" "power_off_stuck (?e 3)"
    by (simp_all add: power_off_stuck_def probe_env_ok_def power_env_ok_def)
  with probe_establishes_invariants [OF t] probe_establishes_invariants [OF u] t u show ?thesis by auto
qed



text \<open>The bytes of the buffer a table describes, and the two tables of RK3576.\<close>

definition seg_bytes :: "cache_segment list \<Rightarrow> int set" where
  "seg_bytes segs = (\<Union>g \<in> set segs. {uint (seg_offset g) ..< uint (seg_offset g) + uint (seg_length g)})"

lemma rk3576_tables:
  "\<exists>a b. cache_table 2 0 = Some a \<and> cache_table 2 1 = Some b \<and>
    seg_bytes a = {0 ..< 448 * 1024} \<union> {896 * 1024 ..< 960 * 1024} \<and>
    seg_bytes b = {448 * 1024 ..< 896 * 1024} \<union> {960 * 1024 ..< 1024 * 1024}"
  by (simp add: cache_table_def seg_bytes_def block_size_kb_def block_offset_kb_def upt_rec)

text \<open>
  C39: on RK3576 the on-chip buffer is divided exactly between the two cores. \<open>rk3576_cache_sgt_init\<close> never reads
  outside its arrays; it installs both tables when the allocations succeed and none otherwise. The byte ranges of the
  two cores do not overlap, each has half of the buffer, and together they cover it from the first byte to the last.
\<close>

theorem cache_sgt_partition:
  assumes "config s = rk3576_rknpu_config" and "cache_sgt s = (\<lambda>i. None)"
  shows "\<exists>ret t. rk3576_cache_sgt_init env s = Some (ret, t) \<and>
    (if pe_sgt_kzalloc_ok env 0 \<and> pe_sgt_alloc_ret env 0 = 0 \<and> pe_sgt_kzalloc_ok env 1 \<and> pe_sgt_alloc_ret env 1 = 0
     then \<exists>a b. ret = 0 \<and> cache_sgt t = [0 \<mapsto> a, 1 \<mapsto> b] \<and> seg_bytes a \<inter> seg_bytes b = {} \<and>
        seg_bytes a \<union> seg_bytes b = {0 ..< uint (cfg_nbuf_size (config s))} \<and>
        card (seg_bytes a) = card (seg_bytes b)
     else cache_sgt t = (\<lambda>i. None))"
proof -
  obtain a b where tab: "cache_table 2 0 = Some a" "cache_table 2 1 = Some b"
    and a: "seg_bytes a = {0 ..< 448 * 1024} \<union> {896 * 1024 ..< 960 * 1024}"
    and b: "seg_bytes b = {448 * 1024 ..< 896 * 1024} \<union> {960 * 1024 ..< 1024 * 1024}"
    using rk3576_tables by blast
  have "seg_bytes a \<inter> seg_bytes b = {}" "card (seg_bytes a) = card (seg_bytes b)"
    "seg_bytes a \<union> seg_bytes b = {0 ..< uint (cfg_nbuf_size (config s))}"
    using assms(1) by (auto simp: a b card_Un_disjoint rk3576_rknpu_config_def)
  moreover have "cfg_num_irqs (config s) = 2" using assms(1) by (simp add: rk3576_rknpu_config_def)
  ultimately show ?thesis
    using assms(2) tab
    by (auto simp: rk3576_cache_sgt_init_def upt_rec free_cache_sgt_def count_dev_def)
qed

theorem cache_sgt_partition_witness:
  "\<exists>ret t. rk3576_cache_sgt_init probe_env_ok (zero_device \<lparr>CONFIG_NO_GKI = True, CONFIG_ROCKCHIP_RKNPU_SRAM = False,
    CONFIG_ROCKCHIP_RKNPU_DRM_GEM = True\<rparr>
       rk3576_rknpu_config (Some 7)) = Some (ret, t) \<and>
     (\<exists>a b. ret = 0 \<and> cache_sgt t = [0 \<mapsto> a, 1 \<mapsto> b] \<and> seg_bytes a \<inter> seg_bytes b = {} \<and>
        seg_bytes a \<union> seg_bytes b = {0 ..< 1024 * 1024} \<and> card (seg_bytes a) = card (seg_bytes b))"
  using cache_sgt_partition [of "zero_device \<lparr>CONFIG_NO_GKI = True, CONFIG_ROCKCHIP_RKNPU_SRAM = False,
    CONFIG_ROCKCHIP_RKNPU_DRM_GEM = True\<rparr>
      rk3576_rknpu_config (Some 7)" probe_env_ok]
  by (simp add: zero_device_def rk3576_rknpu_config_def probe_env_ok_def)

end
