(* ===== verification/Rknpu_Uabi.thy ===== *)
theory Rknpu_Uabi
  imports Rknpu_Types
begin

text \<open>
  The binary interface to user space (\<open>rknpu_ioctl.h\<close>): the layout of the argument structures in memory
  (little endian, the fields at the offsets the C compiler gives them), and the ioctl numbers.

  The theory shows that reading a structure back from its bytes gives the structure, and conversely that
  no byte of a structure is padding the code does not see; and that the ioctl numbers of both interfaces
  carry the number, direction and size the dispatchers take from them, and are pairwise different.
\<close>

section \<open>Words in memory\<close>

text \<open>The bytes of a word, least significant first, and the word a list of bytes stands for.\<close>

definition le :: "nat \<Rightarrow> 'a::len word \<Rightarrow> u8 list" where
  "le n w = map (\<lambda>i. ucast (drop_bit (8 * i) w)) [0..<n]"

primrec rd :: "u8 list \<Rightarrow> 'a::len word" where
  "rd [] = 0"
| "rd (b # bs) = ucast b OR push_bit 8 (rd bs)"

text \<open>The \<open>n\<close> bytes at offset \<open>off\<close>.\<close>

definition fld :: "nat \<Rightarrow> nat \<Rightarrow> u8 list \<Rightarrow> u8 list" where
  "fld off n bs = take n (drop off bs)"

lemma le_length [simp]: "length (le n w) = n"
  by (simp add: le_def)

lemma bit_rd:
  "bit (rd bs :: 'a::len word) k \<longleftrightarrow> k < LENGTH('a) \<and> k div 8 < length bs \<and> bit (bs ! (k div 8)) (k mod 8)"
proof (induction bs arbitrary: k)
  case (Cons b bs)
  show ?case
  proof (cases "k < 8")
    case True
    then show ?thesis by (auto simp: bit_simps dest: bit_imp_le_length)
  next
    case False
    then have k: "k div 8 = Suc ((k - 8) div 8)" "k mod 8 = (k - 8) mod 8" by (simp_all add: le_div_geq le_mod_geq)
    from False have "\<not> bit b k" using bit_imp_le_length [of b k] by auto
    with False show ?thesis unfolding rd.simps by (auto simp: bit_simps Cons.IH k)
  qed
qed simp

lemma rd_le: "LENGTH('a) = 8 * n \<Longrightarrow> rd (le n w) = (w :: 'a::len word)"
  by (rule bit_word_eqI) (auto simp: bit_rd le_def bit_simps algebra_simps less_mult_imp_div_less)

lemma le_rd:
  assumes "LENGTH('a) = 8 * length bs"
  shows "le (length bs) (rd bs :: 'a::len word) = bs"
proof (rule nth_equalityI)
  fix i
  assume "i < length (le (length bs) (rd bs :: 'a word))"
  then have i: "i < length bs" by simp
  have "bit (ucast (drop_bit (8 * i) (rd bs :: 'a word)) :: u8) k = bit (bs ! i) k" if "k < 8" for k
    using that i assms by (simp add: bit_simps bit_rd div_mult_self2)
  then show "le (length bs) (rd bs :: 'a word) ! i = bs ! i"
    using i by (auto simp: le_def intro!: bit_word_eqI)
qed simp

lemma fld_length [simp]: "off + n \<le> length bs \<Longrightarrow> length (fld off n bs) = n"
  by (simp add: fld_def)

lemma le_rd_fld:
  "LENGTH('a) = 8 * n \<Longrightarrow> off + n \<le> length bs \<Longrightarrow> le n (rd (fld off n bs) :: 'a::len word) = fld off n bs"
  using le_rd [of "fld off n bs", where 'a = 'a] by simp

text \<open>Neighbouring fields join; a field is read past the fields in front of it.\<close>

lemma fld_join: "b = a + n \<Longrightarrow> fld a n bs @ fld b m bs = fld a (n + m) bs"
  by (simp add: fld_def take_add add.commute [of n a])

lemma fld_join_append: "b = a + n \<Longrightarrow> fld a n bs @ fld b m bs @ cs = fld a (n + m) bs @ cs"
  by (simp add: fld_join flip: append_assoc)

lemma fld_all: "length bs = n \<Longrightarrow> fld 0 n bs = bs"
  by (simp add: fld_def)

lemma fld_here: "length xs = n \<Longrightarrow> fld 0 n (xs @ ys) = xs"
  by (simp add: fld_def)

lemma fld_skip: "length xs \<le> off \<Longrightarrow> fld off n (xs @ ys) = fld (off - length xs) n ys"
  by (simp add: fld_def)

lemmas fld_read = fld_here fld_skip fld_all

section \<open>Structures in memory\<close>

text \<open>
  What reading and writing a structure of \<open>n\<close> bytes has to satisfy; \<open>wf\<close> are the values the C structure can
  hold (its signed fields in range). Reading ignores what lies behind the structure.
\<close>

locale layout =
  fixes enc :: "'a \<Rightarrow> u8 list" and dec :: "u8 list \<Rightarrow> 'a" and n :: nat and wf :: "'a \<Rightarrow> bool"
  assumes enc_length: "length (enc x) = n"
    and dec_enc: "wf x \<Longrightarrow> dec (enc x @ rest) = x"
    and enc_dec: "n \<le> length bs \<Longrightarrow> enc (dec bs) = take n bs"
    and dec_wf: "wf (dec bs)"
begin

lemma dec_enc_exact: "wf x \<Longrightarrow> dec (enc x) = x"
  using dec_enc [of x "[]"] by simp

lemma enc_inj: "wf x \<Longrightarrow> wf y \<Longrightarrow> enc x = enc y \<Longrightarrow> x = y"
  using dec_enc_exact by metis

text \<open>Writing the structure that was read, in front of what lay behind it, changes no byte.\<close>

lemma write_back: "n \<le> length bs \<Longrightarrow> enc (dec bs) @ drop n bs = bs"
  by (simp add: enc_dec)

text \<open>Reading depends on the structure's own bytes only.\<close>

lemma dec_take: "n \<le> length bs \<Longrightarrow> dec (take n bs) = dec bs"
  using dec_enc_exact [OF dec_wf, of bs] by (simp add: enc_dec)

end

subsection \<open>struct rknpu_action\<close>

definition enc_action :: "rknpu_action \<Rightarrow> u8 list" where
  "enc_action a = le 4 (act_flags a) @ le 4 (act_value a)"

definition dec_action :: "u8 list \<Rightarrow> rknpu_action" where
  "dec_action bs = \<lparr>act_flags = rd (fld 0 4 bs), act_value = rd (fld 4 4 bs)\<rparr>"

lemmas dec_field = fld_here fld_skip rd_le
lemmas join_fields = le_rd_fld fld_join fld_join_append

interpretation action: layout enc_action dec_action 8 "\<lambda>a. True"
proof unfold_locales
  fix bs :: "u8 list"
  assume "8 \<le> length bs"
  then have "enc_action (dec_action bs) = fld 0 8 bs" by (simp add: enc_action_def dec_action_def join_fields)
  then show "enc_action (dec_action bs) = take 8 bs" by (simp add: fld_def)
qed (simp_all add: enc_action_def dec_action_def dec_field)

subsection \<open>struct rknpu_subcore_task and struct rknpu_submit\<close>

definition enc_subcore_task :: "rknpu_subcore_task \<Rightarrow> u8 list" where
  "enc_subcore_task t = le 4 (st_task_start t) @ le 4 (st_task_number t)"

definition dec_subcore_task :: "u8 list \<Rightarrow> rknpu_subcore_task" where
  "dec_subcore_task bs = \<lparr>st_task_start = rd (fld 0 4 bs), st_task_number = rd (fld 4 4 bs)\<rparr>"

interpretation subcore_task: layout enc_subcore_task dec_subcore_task 8 "\<lambda>t. True"
proof unfold_locales
  fix bs :: "u8 list"
  assume "8 \<le> length bs"
  then have "enc_subcore_task (dec_subcore_task bs) = fld 0 8 bs"
    by (simp add: enc_subcore_task_def dec_subcore_task_def join_fields)
  then show "enc_subcore_task (dec_subcore_task bs) = take 8 bs" by (simp add: fld_def)
qed (simp_all add: enc_subcore_task_def dec_subcore_task_def dec_field)

text \<open>A signed field of 32 or 64 bits.\<close>

abbreviation le_s32 :: "int \<Rightarrow> u8 list" where "le_s32 x \<equiv> le 4 (word_of_int x :: u32)"
abbreviation le_s64 :: "int \<Rightarrow> u8 list" where "le_s64 x \<equiv> le 8 (word_of_int x :: u64)"
abbreviation rd_s32 :: "u8 list \<Rightarrow> int" where "rd_s32 bs \<equiv> sint (rd bs :: u32)"
abbreviation rd_s64 :: "u8 list \<Rightarrow> int" where "rd_s64 bs \<equiv> sint (rd bs :: u64)"

definition is_s32 :: "int \<Rightarrow> bool" where "is_s32 x \<longleftrightarrow> - (2 ^ 31) \<le> x \<and> x < 2 ^ 31"
definition is_s64 :: "int \<Rightarrow> bool" where "is_s64 x \<longleftrightarrow> - (2 ^ 63) \<le> x \<and> x < 2 ^ 63"

definition enc_submit :: "rknpu_submit \<Rightarrow> u8 list" where
  "enc_submit x =
    le 4 (sub_flags x) @ le 4 (sub_timeout x) @ le 4 (sub_task_start x) @ le 4 (sub_task_number x) @
    le 4 (sub_task_counter x) @ le_s32 (sub_priority x) @ le 8 (sub_task_obj_addr x) @
    le 4 (sub_iommu_domain_id x) @ le 4 (sub_reserved x) @ le 8 (sub_task_base_addr x) @
    le_s64 (sub_hw_elapse_time x) @ le 4 (sub_core_mask x) @ le_s32 (sub_fence_fd x) @
    enc_subcore_task (sub_subcore_task x 0) @ enc_subcore_task (sub_subcore_task x 1) @
    enc_subcore_task (sub_subcore_task x 2) @ enc_subcore_task (sub_subcore_task x 3) @
    enc_subcore_task (sub_subcore_task x 4)"

text \<open>The array has five entries; the function that stands for it is 0 beyond them.\<close>

definition no_task :: rknpu_subcore_task where
  "no_task = \<lparr>st_task_start = 0, st_task_number = 0\<rparr>"

definition dec_submit :: "u8 list \<Rightarrow> rknpu_submit" where
  "dec_submit bs =
    \<lparr>sub_flags = rd (fld 0 4 bs), sub_timeout = rd (fld 4 4 bs), sub_task_start = rd (fld 8 4 bs),
     sub_task_number = rd (fld 12 4 bs), sub_task_counter = rd (fld 16 4 bs),
     sub_priority = rd_s32 (fld 20 4 bs), sub_task_obj_addr = rd (fld 24 8 bs),
     sub_iommu_domain_id = rd (fld 32 4 bs), sub_reserved = rd (fld 36 4 bs),
     sub_task_base_addr = rd (fld 40 8 bs), sub_hw_elapse_time = rd_s64 (fld 48 8 bs),
     sub_core_mask = rd (fld 56 4 bs), sub_fence_fd = rd_s32 (fld 60 4 bs),
     sub_subcore_task = (\<lambda>k. if k < 5 then dec_subcore_task (fld (64 + 8 * k) 8 bs) else no_task)\<rparr>"

definition submit_wf :: "rknpu_submit \<Rightarrow> bool" where
  "submit_wf x \<longleftrightarrow> is_s32 (sub_priority x) \<and> is_s64 (sub_hw_elapse_time x) \<and> is_s32 (sub_fence_fd x) \<and>
     (\<forall>k\<ge>5. sub_subcore_task x k = no_task)"

lemma signed_id:
  "is_s32 x \<Longrightarrow> sint (word_of_int x :: u32) = x" "is_s64 y \<Longrightarrow> sint (word_of_int y :: u64) = y"
  "is_s32 (sint (w :: u32))" "is_s64 (sint (v :: u64))"
  using sint_range_size [of w] sint_range_size [of v]
  by (simp_all add: is_s32_def is_s64_def signed_take_bit_int_eq_self sint_sbintrunc' size_word.rep_eq)

interpretation submit: layout enc_submit dec_submit 104 submit_wf
proof unfold_locales
  fix x and rest :: "u8 list"
  show "length (enc_submit x) = 104" by (simp add: enc_submit_def subcore_task.enc_length)
  assume wf: "submit_wf x"
  have sub: "(\<lambda>k. if k < 5 then dec_subcore_task (fld (64 + 8 * k) 8 (enc_submit x @ rest)) else no_task) =
      sub_subcore_task x"
  proof
    fix k :: nat
    have "k < 5 \<longleftrightarrow> k \<in> {0, 1, 2, 3, 4}" by auto
    moreover have "k \<in> {0, 1, 2, 3, 4} \<Longrightarrow>
        dec_subcore_task (fld (64 + 8 * k) 8 (enc_submit x @ rest)) = sub_subcore_task x k"
      by (auto simp: enc_submit_def dec_field subcore_task.enc_length subcore_task.dec_enc_exact)
    ultimately show "(if k < 5 then dec_subcore_task (fld (64 + 8 * k) 8 (enc_submit x @ rest)) else no_task) =
        sub_subcore_task x k"
      using wf by (simp add: submit_wf_def)
  qed
  show "dec_submit (enc_submit x @ rest) = x"
    using wf unfolding dec_submit_def sub
    by (simp add: enc_submit_def dec_field signed_id submit_wf_def)
next
  fix bs :: "u8 list"
  assume len: "104 \<le> length bs"
  have sub: "enc_subcore_task (sub_subcore_task (dec_submit bs) k) = fld (64 + 8 * k) 8 bs" if "k < 5" for k
    using that len subcore_task.enc_dec [of "fld (64 + 8 * k) 8 bs"] by (simp add: dec_submit_def)
  have "enc_submit (dec_submit bs) = fld 0 104 bs"
    using len sub [of 0] sub [of 1] sub [of 2] sub [of 3] sub [of 4]
    by (simp add: enc_submit_def) (simp add: dec_submit_def join_fields)
  then show "enc_submit (dec_submit bs) = take 104 bs" by (simp add: fld_def)
qed (simp add: submit_wf_def dec_submit_def signed_id)

subsection \<open>The memory structures\<close>

definition enc_mem_create :: "rknpu_mem_create \<Rightarrow> u8 list" where
  "enc_mem_create x =
    le 4 (mc_handle x) @ le 4 (mc_flags x) @ le 8 (mc_size x) @ le 8 (mc_obj_addr x) @
    le 8 (mc_dma_addr x) @ le 8 (mc_sram_size x) @ le_s32 (mc_iommu_domain_id x) @ le 4 (mc_core_mask x)"

definition dec_mem_create :: "u8 list \<Rightarrow> rknpu_mem_create" where
  "dec_mem_create bs =
    \<lparr>mc_handle = rd (fld 0 4 bs), mc_flags = rd (fld 4 4 bs), mc_size = rd (fld 8 8 bs),
     mc_obj_addr = rd (fld 16 8 bs), mc_dma_addr = rd (fld 24 8 bs), mc_sram_size = rd (fld 32 8 bs),
     mc_iommu_domain_id = rd_s32 (fld 40 4 bs), mc_core_mask = rd (fld 44 4 bs)\<rparr>"

interpretation mem_create: layout enc_mem_create dec_mem_create 48 "\<lambda>x. is_s32 (mc_iommu_domain_id x)"
proof unfold_locales
  fix bs :: "u8 list"
  assume "48 \<le> length bs"
  then have "enc_mem_create (dec_mem_create bs) = fld 0 48 bs"
    by (simp add: enc_mem_create_def dec_mem_create_def join_fields)
  then show "enc_mem_create (dec_mem_create bs) = take 48 bs" by (simp add: fld_def)
qed (simp_all add: enc_mem_create_def dec_mem_create_def dec_field signed_id)

definition enc_mem_map :: "rknpu_mem_map \<Rightarrow> u8 list" where
  "enc_mem_map x = le 4 (mp_handle x) @ le 4 (mp_reserved x) @ le 8 (mp_offset x)"

definition dec_mem_map :: "u8 list \<Rightarrow> rknpu_mem_map" where
  "dec_mem_map bs =
    \<lparr>mp_handle = rd (fld 0 4 bs), mp_reserved = rd (fld 4 4 bs), mp_offset = rd (fld 8 8 bs)\<rparr>"

interpretation mem_map: layout enc_mem_map dec_mem_map 16 "\<lambda>x. True"
proof unfold_locales
  fix bs :: "u8 list"
  assume "16 \<le> length bs"
  then have "enc_mem_map (dec_mem_map bs) = fld 0 16 bs"
    by (simp add: enc_mem_map_def dec_mem_map_def join_fields)
  then show "enc_mem_map (dec_mem_map bs) = take 16 bs" by (simp add: fld_def)
qed (simp_all add: enc_mem_map_def dec_mem_map_def dec_field)

definition enc_mem_destroy :: "rknpu_mem_destroy \<Rightarrow> u8 list" where
  "enc_mem_destroy x = le 4 (md_handle x) @ le 4 (md_reserved x) @ le 8 (md_obj_addr x)"

definition dec_mem_destroy :: "u8 list \<Rightarrow> rknpu_mem_destroy" where
  "dec_mem_destroy bs =
    \<lparr>md_handle = rd (fld 0 4 bs), md_reserved = rd (fld 4 4 bs), md_obj_addr = rd (fld 8 8 bs)\<rparr>"

interpretation mem_destroy: layout enc_mem_destroy dec_mem_destroy 16 "\<lambda>x. True"
proof unfold_locales
  fix bs :: "u8 list"
  assume "16 \<le> length bs"
  then have "enc_mem_destroy (dec_mem_destroy bs) = fld 0 16 bs"
    by (simp add: enc_mem_destroy_def dec_mem_destroy_def join_fields)
  then show "enc_mem_destroy (dec_mem_destroy bs) = take 16 bs" by (simp add: fld_def)
qed (simp_all add: enc_mem_destroy_def dec_mem_destroy_def dec_field)

definition enc_mem_sync :: "rknpu_mem_sync \<Rightarrow> u8 list" where
  "enc_mem_sync x =
    le 4 (ms_flags x) @ le 4 (ms_reserved x) @ le 8 (ms_obj_addr x) @ le 8 (ms_offset x) @ le 8 (ms_size x)"

definition dec_mem_sync :: "u8 list \<Rightarrow> rknpu_mem_sync" where
  "dec_mem_sync bs =
    \<lparr>ms_flags = rd (fld 0 4 bs), ms_reserved = rd (fld 4 4 bs), ms_obj_addr = rd (fld 8 8 bs),
     ms_offset = rd (fld 16 8 bs), ms_size = rd (fld 24 8 bs)\<rparr>"

interpretation mem_sync: layout enc_mem_sync dec_mem_sync 32 "\<lambda>x. True"
proof unfold_locales
  fix bs :: "u8 list"
  assume "32 \<le> length bs"
  then have "enc_mem_sync (dec_mem_sync bs) = fld 0 32 bs"
    by (simp add: enc_mem_sync_def dec_mem_sync_def join_fields)
  then show "enc_mem_sync (dec_mem_sync bs) = take 32 bs" by (simp add: fld_def)
qed (simp_all add: enc_mem_sync_def dec_mem_sync_def dec_field)

section \<open>Enumerations\<close>

text \<open>The flags of a buffer, with the values the shifts of the header give them, and their mask.\<close>

definition e_rknpu_mem_type :: "(string \<times> u32) list" where
  "e_rknpu_mem_type =
    [(''CONTIGUOUS'', push_bit 0 0), (''NON_CONTIGUOUS'', push_bit 0 1), (''NON_CACHEABLE'', push_bit 1 0),
     (''CACHEABLE'', push_bit 1 1), (''WRITE_COMBINE'', push_bit 2 1), (''KERNEL_MAPPING'', push_bit 3 1),
     (''IOMMU'', push_bit 4 1), (''ZEROING'', push_bit 5 1), (''SECURE'', push_bit 6 1),
     (''DMA32'', push_bit 7 1), (''TRY_ALLOC_SRAM'', push_bit 8 1), (''TRY_ALLOC_NBUF'', push_bit 9 1),
     (''IOMMU_LIMIT_IOVA_ALIGNMENT'', push_bit 10 1)]"

definition RKNPU_MEM_MASK :: u32 where
  "RKNPU_MEM_MASK =
    RKNPU_MEM_NON_CONTIGUOUS OR RKNPU_MEM_CACHEABLE OR RKNPU_MEM_WRITE_COMBINE OR
    RKNPU_MEM_KERNEL_MAPPING OR push_bit 4 1 OR RKNPU_MEM_ZEROING OR push_bit 6 1 OR RKNPU_MEM_DMA32 OR
    RKNPU_MEM_TRY_ALLOC_SRAM OR RKNPU_MEM_TRY_ALLOC_NBUF OR RKNPU_MEM_IOMMU_LIMIT_IOVA_ALIGNMENT"

definition e_rknpu_mem_sync_mode :: "(string \<times> u32) list" where
  "e_rknpu_mem_sync_mode =
    [(''TO_DEVICE'', push_bit 0 1), (''FROM_DEVICE'', push_bit 1 1),
     (''MASK'', RKNPU_MEM_SYNC_TO_DEVICE OR RKNPU_MEM_SYNC_FROM_DEVICE)]"

definition e_rknpu_job_mode :: "(string \<times> u32) list" where
  "e_rknpu_job_mode =
    [(''SLAVE'', push_bit 0 0), (''PC'', push_bit 0 1), (''BLOCK'', push_bit 1 0), (''NONBLOCK'', push_bit 1 1),
     (''PINGPONG'', push_bit 2 1), (''FENCE_IN'', push_bit 3 1), (''FENCE_OUT'', push_bit 4 1),
     (''MASK'', RKNPU_JOB_PC OR RKNPU_JOB_NONBLOCK OR RKNPU_JOB_PINGPONG OR RKNPU_JOB_FENCE_IN OR
                RKNPU_JOB_FENCE_OUT)]"

definition e_rknpu_action :: "(string \<times> u32) list" where
  "e_rknpu_action =
    [(''GET_HW_VERSION'', 0), (''GET_DRV_VERSION'', 1), (''GET_FREQ'', 2), (''SET_FREQ'', 3), (''GET_VOLT'', 4),
     (''SET_VOLT'', 5), (''ACT_RESET'', 6), (''GET_BW_PRIORITY'', 7), (''SET_BW_PRIORITY'', 8),
     (''GET_BW_EXPECT'', 9), (''SET_BW_EXPECT'', 10), (''GET_BW_TW'', 11), (''SET_BW_TW'', 12),
     (''ACT_CLR_TOTAL_RW_AMOUNT'', 13), (''GET_DT_WR_AMOUNT'', 14), (''GET_DT_RD_AMOUNT'', 15),
     (''GET_WT_RD_AMOUNT'', 16), (''GET_TOTAL_RW_AMOUNT'', 17), (''GET_IOMMU_EN'', 18), (''SET_PROC_NICE'', 19),
     (''POWER_ON'', 20), (''POWER_OFF'', 21), (''GET_TOTAL_SRAM_SIZE'', 22), (''GET_FREE_SRAM_SIZE'', 23),
     (''GET_IOMMU_DOMAIN_ID'', 24), (''SET_IOMMU_DOMAIN_ID'', 25)]"

text \<open>
  Every buffer flag is 0 or one bit of the mask, no two share a bit, and every bit of the mask is a flag:
  a flag word below \<open>2 ^ 11\<close> says independently which properties are asked for.
\<close>

lemma mem_flags_independent:
  "RKNPU_MEM_MASK = 2 ^ 11 - 1 \<and>
   map snd (filter (\<lambda>(n, v). v \<noteq> 0) e_rknpu_mem_type) = map (\<lambda>k. push_bit k 1) [0..<11]"
  by (simp add: RKNPU_MEM_MASK_def e_rknpu_mem_type_def upt_rec)

section \<open>Ioctl numbers\<close>

text \<open>
  The kernel's encoding of an ioctl: direction, argument size, type and number in one 32-bit word, and the
  macros that take them apart.
\<close>

abbreviation (input) IOC_WRITE :: u32 where "IOC_WRITE \<equiv> 1"
abbreviation (input) IOC_READ :: u32 where "IOC_READ \<equiv> 2"

definition IOC :: "u32 \<Rightarrow> u32 \<Rightarrow> u32 \<Rightarrow> u32 \<Rightarrow> u32" where
  "IOC dir ty nr sz = push_bit 30 dir OR push_bit 8 ty OR nr OR push_bit 16 sz"

definition IOC_NR :: "u32 \<Rightarrow> u32" where "IOC_NR cmd = cmd AND 0xff"
definition IOC_TYPE :: "u32 \<Rightarrow> u32" where "IOC_TYPE cmd = drop_bit 8 cmd AND 0xff"
definition IOC_SIZE :: "u32 \<Rightarrow> u32" where "IOC_SIZE cmd = drop_bit 16 cmd AND 0x3fff"
definition IOC_DIR :: "u32 \<Rightarrow> u32" where "IOC_DIR cmd = drop_bit 30 cmd AND 3"

text \<open>The numbers, the size of each one's argument, and the two families: misc device and DRM.\<close>

datatype rknpu_cmd = RKNPU_ACTION | RKNPU_SUBMIT | RKNPU_MEM_CREATE | RKNPU_MEM_MAP | RKNPU_MEM_DESTROY
  | RKNPU_MEM_SYNC

primrec cmd_nr :: "rknpu_cmd \<Rightarrow> u32" where
  "cmd_nr RKNPU_ACTION = 0x00"
| "cmd_nr RKNPU_SUBMIT = 0x01"
| "cmd_nr RKNPU_MEM_CREATE = 0x02"
| "cmd_nr RKNPU_MEM_MAP = 0x03"
| "cmd_nr RKNPU_MEM_DESTROY = 0x04"
| "cmd_nr RKNPU_MEM_SYNC = 0x05"

primrec cmd_size :: "rknpu_cmd \<Rightarrow> nat" where
  "cmd_size RKNPU_ACTION = 8"
| "cmd_size RKNPU_SUBMIT = 104"
| "cmd_size RKNPU_MEM_CREATE = 48"
| "cmd_size RKNPU_MEM_MAP = 16"
| "cmd_size RKNPU_MEM_DESTROY = 16"
| "cmd_size RKNPU_MEM_SYNC = 32"

definition RKNPU_IOC_MAGIC :: u32 where "RKNPU_IOC_MAGIC = 0x72"

definition RKNPU_IOWR :: "u32 \<Rightarrow> nat \<Rightarrow> u32" where
  "RKNPU_IOWR nr sz = IOC (IOC_READ OR IOC_WRITE) RKNPU_IOC_MAGIC nr (of_nat sz)"

definition IOCTL_RKNPU :: "rknpu_cmd \<Rightarrow> u32" where
  "IOCTL_RKNPU c = RKNPU_IOWR (cmd_nr c) (cmd_size c)"

text \<open>\<open>DRM_IOWR\<close> has type \<open>'d'\<close>, and driver ioctls start at \<open>DRM_COMMAND_BASE\<close>.\<close>

abbreviation (input) DRM_COMMAND_BASE :: u32 where "DRM_COMMAND_BASE \<equiv> 0x40"

definition DRM_IOCTL_RKNPU :: "rknpu_cmd \<Rightarrow> u32" where
  "DRM_IOCTL_RKNPU c = IOC (IOC_READ OR IOC_WRITE) 0x64 (DRM_COMMAND_BASE + cmd_nr c) (of_nat (cmd_size c))"

lemma IOCTL_RKNPU_fields [simp]:
  "IOC_NR (IOCTL_RKNPU c) = cmd_nr c" "IOC_SIZE (IOCTL_RKNPU c) = of_nat (cmd_size c)"
  "IOC_DIR (IOCTL_RKNPU c) = IOC_READ OR IOC_WRITE" "IOC_TYPE (IOCTL_RKNPU c) = RKNPU_IOC_MAGIC"
  by (cases c; simp add: IOCTL_RKNPU_def RKNPU_IOWR_def IOC_def IOC_NR_def IOC_SIZE_def IOC_DIR_def IOC_TYPE_def
      RKNPU_IOC_MAGIC_def)+

lemma DRM_IOCTL_RKNPU_fields [simp]:
  "IOC_NR (DRM_IOCTL_RKNPU c) = DRM_COMMAND_BASE + cmd_nr c" "IOC_SIZE (DRM_IOCTL_RKNPU c) = of_nat (cmd_size c)"
  "IOC_DIR (DRM_IOCTL_RKNPU c) = IOC_READ OR IOC_WRITE"
  by (cases c; simp add: DRM_IOCTL_RKNPU_def IOC_def IOC_NR_def IOC_SIZE_def IOC_DIR_def)+

lemma cmd_nr_inj [simp]: "cmd_nr c = cmd_nr d \<longleftrightarrow> c = d"
  by (cases c; cases d) simp_all

lemma ioctl_numbers_distinct:
  "IOCTL_RKNPU c = IOCTL_RKNPU d \<longleftrightarrow> c = d" "DRM_IOCTL_RKNPU c = DRM_IOCTL_RKNPU d \<longleftrightarrow> c = d"
  using IOCTL_RKNPU_fields(1) [of c] IOCTL_RKNPU_fields(1) [of d]
    DRM_IOCTL_RKNPU_fields(1) [of c] DRM_IOCTL_RKNPU_fields(1) [of d]
  by (metis cmd_nr_inj, metis add_left_cancel cmd_nr_inj)

section \<open>Properties\<close>

text \<open>
  C16: the job structure and its bytes determine each other. Reading the 104 bytes of a structure whose signed fields
  are in range gives the structure, whatever lies behind them; every 104 bytes are those of exactly one such
  structure, so a copy from user space and back loses no byte and invents none.
\<close>

theorem submit_layout_roundtrip:
  assumes "submit_wf x" and "length bs = 104"
  shows "length (enc_submit x) = 104 \<and> dec_submit (enc_submit x @ rest) = x \<and>
         submit_wf (dec_submit bs) \<and> enc_submit (dec_submit bs) = bs"
  using assms submit.enc_length submit.dec_enc submit.dec_wf submit.enc_dec [of bs] by simp

theorem submit_layout_roundtrip_witness:
  "enc_submit (dec_submit (replicate 104 0xff)) = replicate 104 0xff \<and>
   dec_submit (enc_submit (dec_submit (replicate 104 1)) @ [7]) = dec_submit (replicate 104 1)"
  using submit_layout_roundtrip [OF submit.dec_wf, of "replicate 104 0xff" "replicate 104 1" "[7]"]
  by simp


end
