(* ===== verification/Rknpu_Session.thy ===== *)
theory Rknpu_Session
  imports Rknpu_Uabi Rknpu_Progress Rknpu_Action
begin

text \<open>
  The DMA-heap front end of \<open>rknpu_drv.c\<close> (\<open>CONFIG_ROCKCHIP_RKNPU_DMA_HEAP\<close>): opening and closing the misc
  device, and \<open>rknpu_ioctl\<close>, which moves the arguments between user memory and a buffer on its stack
  byte by byte and dispatches on the ioctl number. The memory handlers it calls are declared in
  \<open>rknpu_mem.h\<close>; their source is not part of the repository, so they are arguments of the model.

  The theory shows that closing a session gives back exactly what its buffers hold, that on the bytes of
  a well-formed structure the ioctl does what the handler does on the structure, and where the way the
  arguments are copied back goes wrong.
\<close>

section \<open>Model\<close>

subsection \<open>User memory\<close>

text \<open>Bytes by address; \<open>None\<close> is an address the process cannot access.\<close>

type_synonym user_mem = "u64 \<Rightarrow> u8 option"

definition copy_from_user :: "nat \<Rightarrow> u64 \<Rightarrow> user_mem \<Rightarrow> u8 list option" where
  "copy_from_user n a m = those (map (\<lambda>i. m (a + of_nat i)) [0..<n])"

text \<open>Bytes are written up to the first that cannot be; the flag says whether all were.\<close>

fun copy_to_user :: "u64 \<Rightarrow> u8 list \<Rightarrow> user_mem \<Rightarrow> bool \<times> user_mem" where
  "copy_to_user a [] m = (True, m)"
| "copy_to_user a (b # bs) m = (if m a = None then (False, m) else copy_to_user (a + 1) bs (m(a \<mapsto> b)))"

subsection \<open>Sessions and buffers\<close>

record rknpu_mem_object =
  mo_flags :: u64
  mo_size :: u64
  mo_kv_addr :: u64
  mo_dma_addr :: u64
  mo_pages :: "u64 list option"
  mo_sgt :: "sg_table option"
  mo_dmabuf :: nat
  mo_attachment :: nat
  mo_owner :: u32

text \<open>The list of a session's buffers (\<open>session->list\<close>), by address; its device is the one of the state.\<close>

record rknpu_session =
  ses_list :: "u64 list"

text \<open>What a session holds of the kernel: counted by kind and, for the dma-buf calls, by the object concerned.\<close>

datatype heap_resource =
    H_session | H_object | H_vmap nat | H_mapping nat | H_attachment nat | H_dmabuf nat

text \<open>
  The state around the device: what \<open>file->private_data\<close> points to, the allocated sessions and buffers, the
  counts, the memory and the niceness of the calling process.
\<close>

record heap_state =
  hs_dev :: rknpu_device
  hs_files :: "nat \<Rightarrow> nat option"
  hs_sessions :: "nat \<Rightarrow> rknpu_session option"
  hs_objs :: "u64 \<Rightarrow> rknpu_mem_object option"
  hs_count :: "heap_resource \<Rightarrow> int"
  hs_user :: user_mem
  hs_nice :: int

definition heap_get :: "heap_resource \<Rightarrow> heap_state \<Rightarrow> heap_state" where
  "heap_get r h = h\<lparr>hs_count := (hs_count h)(r := hs_count h r + 1)\<rparr>"

definition heap_put :: "heap_resource \<Rightarrow> heap_state \<Rightarrow> heap_state" where
  "heap_put r h = h\<lparr>hs_count := (hs_count h)(r := hs_count h r - 1)\<rparr>"

text \<open>\<open>kzalloc_ret\<close> is the address of the new session, if there is memory; \<open>nonseekable_open\<close> returns 0.\<close>

definition rknpu_open :: "nat option \<Rightarrow> nat \<Rightarrow> heap_state \<Rightarrow> int \<times> heap_state" where
  "rknpu_open kzalloc_ret file h =
    (case kzalloc_ret of
       None \<Rightarrow> (- ENOMEM, h)
     | Some sp \<Rightarrow>
         (0, (heap_get H_session h)\<lparr>hs_sessions := (hs_sessions h)(sp \<mapsto> \<lparr>ses_list = []\<rparr>),
                                   hs_files := (hs_files h)(file \<mapsto> sp)\<rparr>))"

text \<open>
  One round of the loop in \<open>rknpu_release\<close>, on the first buffer of the list. A freed buffer is gone for the
  job code as well.
\<close>

definition release_entry :: "u64 \<Rightarrow> heap_state \<Rightarrow> heap_state option" where
  "release_entry p h =
    do { entry \<leftarrow> hs_objs h p;
         let h = (if mo_kv_addr entry \<noteq> 0 then heap_put (H_vmap (mo_dmabuf entry)) h else h);
         let h = heap_put (H_mapping (mo_attachment entry)) h;
         let h = heap_put (H_attachment (mo_attachment entry)) h;
         let h = (if mo_owner entry = 0 then heap_put (H_dmabuf (mo_dmabuf entry)) h else h);
         Some (heap_put H_object
           (h\<lparr>hs_objs := (hs_objs h)(p := None),
             hs_dev := (hs_dev h)\<lparr>gem_objs := (gem_objs (hs_dev h))(p := None)\<rparr>\<rparr>)) }"

definition rknpu_release :: "nat \<Rightarrow> heap_state \<Rightarrow> (int \<times> heap_state) option" where
  "rknpu_release file h =
    do { sp \<leftarrow> hs_files h file;
         session \<leftarrow> hs_sessions h sp;
         let h = h\<lparr>hs_sessions := (hs_sessions h)(sp \<mapsto> session\<lparr>ses_list := []\<rparr>),
                   hs_files := (hs_files h)(file := None)\<rparr>;
         h \<leftarrow> for_each (ses_list session) release_entry h;
         Some (0, heap_put H_session (h\<lparr>hs_sessions := (hs_sessions h)(sp := None)\<rparr>)) }"

subsection \<open>rknpu_ioctl\<close>

text \<open>
  The environments of the callees, the memory handlers, and what the stack holds where \<open>kdata\<close> is
  placed (\<open>sizeof (kdata)\<close> bytes, the size of \<open>struct rknpu_submit\<close>).
\<close>

record heap_env =
  he_power :: power_env
  he_depth :: nat
  he_act :: act_env
  he_job :: job_env
  he_stack :: "u8 list"
  he_mem_create :: "nat \<Rightarrow> u32 \<Rightarrow> u64 \<Rightarrow> heap_state \<Rightarrow> (int \<times> heap_state) option"
  he_mem_destroy :: "nat \<Rightarrow> u64 \<Rightarrow> heap_state \<Rightarrow> (int \<times> heap_state) option"
  he_mem_sync :: "u64 \<Rightarrow> heap_state \<Rightarrow> (int \<times> heap_state) option"

abbreviation (input) KDATA_SIZE :: nat where "KDATA_SIZE \<equiv> 104"

text \<open>
  The \<open>switch\<close>; \<open>kdata\<close> is the union of the two structures, read and written as bytes. \<open>ret\<close> still holds the 0
  of \<open>rknpu_power_get\<close> when no case assigns it.
\<close>

definition ioctl_switch ::
    "heap_env \<Rightarrow> nat \<Rightarrow> u32 \<Rightarrow> u64 \<Rightarrow> u8 list \<Rightarrow> heap_state \<Rightarrow> (int \<times> u8 list \<times> heap_state) option" where
  "ioctl_switch env file cmd arg kdata h =
    (let nr = IOC_NR cmd in
     if nr = cmd_nr RKNPU_ACTION then do {
       (ret, args, nice, d) \<leftarrow> rknpu_action_ioctl (he_act env) (dec_action kdata) (hs_dev h);
       Some (ret, enc_action args @ drop 8 kdata,
             h\<lparr>hs_dev := d, hs_nice := (case nice of None \<Rightarrow> hs_nice h | Some n \<Rightarrow> n)\<rparr>) }
     else if nr = cmd_nr RKNPU_SUBMIT then do {
       (ret, args, d) \<leftarrow> rknpu_submit_ioctl (he_job env) (dec_submit kdata) (hs_dev h);
       Some (ret, enc_submit args, h\<lparr>hs_dev := d\<rparr>) }
     else if nr = cmd_nr RKNPU_MEM_CREATE then do {
       (ret, h) \<leftarrow> he_mem_create env file cmd arg h; Some (ret, kdata, h) }
     else if nr = cmd_nr RKNPU_MEM_MAP then Some (0, kdata, h)
     else if nr = cmd_nr RKNPU_MEM_DESTROY then do {
       (ret, h) \<leftarrow> he_mem_destroy env file arg h; Some (ret, kdata, h) }
     else if nr = cmd_nr RKNPU_MEM_SYNC then do {
       (ret, h) \<leftarrow> he_mem_sync env arg h; Some (ret, kdata, h) }
     else Some (0, kdata, h))"

text \<open>The part of \<open>rknpu_ioctl\<close> behind the copy from user space.\<close>

definition ioctl_powered ::
    "heap_env \<Rightarrow> nat \<Rightarrow> u32 \<Rightarrow> u64 \<Rightarrow> u8 list \<Rightarrow> heap_state \<Rightarrow> (int \<times> heap_state) option" where
  "ioctl_powered env file cmd arg kdata h =
    (let (ret, d) = rknpu_power_get (he_power env) (hs_dev h);
         h = h\<lparr>hs_dev := d\<rparr> in
     if ret \<noteq> 0 then Some (ret, h)
     else do {
       (ret, kdata, h) \<leftarrow> ioctl_switch env file cmd arg kdata h;
       (_, d) \<leftarrow> rknpu_power_put_delay (he_depth env) (he_power env) (hs_dev h);
       let h = h\<lparr>hs_dev := d\<rparr>;
       if ret = 0 \<and> has (IOC_DIR cmd) IOC_READ then
         (let (ok, m) = copy_to_user arg (take (unat (IOC_SIZE cmd)) kdata) (hs_user h)
          in Some (if ok then ret else - EFAULT, h\<lparr>hs_user := m\<rparr>))
       else Some (ret, h) })"

definition rknpu_ioctl ::
    "heap_env \<Rightarrow> nat \<Rightarrow> u32 \<Rightarrow> u64 \<Rightarrow> heap_state \<Rightarrow> (int \<times> heap_state) option" where
  "rknpu_ioctl env file cmd arg h =
    (let n = unat (IOC_SIZE cmd) in
     case hs_files h file of
       None \<Rightarrow> Some (- EINVAL, h)
     | Some sp \<Rightarrow> do {
         session \<leftarrow> hs_sessions h sp;
         if n > KDATA_SIZE then Some (- EINVAL, h)
         else if has (IOC_DIR cmd) IOC_WRITE then
           (case copy_from_user n arg (hs_user h) of
              None \<Rightarrow> Some (- EFAULT, h)
            | Some bs \<Rightarrow> ioctl_powered env file cmd arg (bs @ drop n (he_stack env)) h)
         else ioctl_powered env file cmd arg (replicate n 0 @ drop n (he_stack env)) h })"

section \<open>Copying\<close>

lemma those_eq_Some: "those xs = Some ys \<longleftrightarrow> xs = map Some ys"
  by (induction xs arbitrary: ys) (auto split: option.splits)

lemma copy_from_user_eq_Some:
  "copy_from_user n a m = Some bs \<longleftrightarrow> length bs = n \<and> (\<forall>i<n. m (a + of_nat i) = Some (bs ! i))"
  by (auto simp: copy_from_user_def those_eq_Some list_eq_iff_nth_eq)

text \<open>Memory with the bytes \<open>bs\<close> written from address \<open>a\<close> on.\<close>

definition overlay :: "u64 \<Rightarrow> u8 list \<Rightarrow> user_mem \<Rightarrow> user_mem" where
  "overlay a bs m = (\<lambda>x. if unat (x - a) < length bs then Some (bs ! unat (x - a)) else m x)"

lemma overlay_Cons:
  assumes "length bs < 2 ^ 64 - 1"
  shows "overlay (a + 1) bs (m(a \<mapsto> b)) = overlay a (b # bs) m"
proof
  fix x
  show "overlay (a + 1) bs (m(a \<mapsto> b)) x = overlay a (b # bs) m x"
  proof (cases "x = a")
    case True
    have "unat (- 1 :: u64) = 2 ^ 64 - 1" by (simp add: unsigned_minus_1_eq_mask mask_eq_exp_minus_1)
    with assms True show ?thesis by (simp add: overlay_def)
  next
    case False
    then have "unat (x - a) = Suc (unat (x - (a + 1)))"
      using unat_minus_one [of "x - a"] by (simp add: algebra_simps unat_gt_0 flip: word_neq_0_conv)
    with False show ?thesis by (simp add: overlay_def)
  qed
qed

lemma copy_to_user_mapped:
  assumes "\<forall>i<length bs. m (a + of_nat i) \<noteq> None" and "length bs < 2 ^ 64"
  shows "copy_to_user a bs m = (True, overlay a bs m)"
  using assms
proof (induction bs arbitrary: a m)
  case Nil
  show ?case by (simp add: overlay_def)
next
  case (Cons b bs)
  have "m a \<noteq> None" using Cons.prems(1) by (force dest: spec [of _ 0])
  moreover have "(m(a \<mapsto> b)) (a + 1 + of_nat i) \<noteq> None" if "i < length bs" for i
    using Cons.prems(1) that by (auto simp: add.assoc dest: spec [of _ "Suc i"])
  moreover have "overlay (a + 1) bs (m(a \<mapsto> b)) = overlay a (b # bs) m"
    using Cons.prems(2) by (intro overlay_Cons) simp
  ultimately show ?case
    using Cons.IH [of "m(a \<mapsto> b)" "a + 1"] Cons.prems(2) by (simp del: fun_upd_apply)
qed

lemma overlay_read:
  "length bs \<le> 2 ^ 64 \<Longrightarrow> i < length bs \<Longrightarrow> overlay a bs m (a + of_nat i) = Some (bs ! i)"
  by (simp add: overlay_def unat_of_nat)

lemma copy_from_overlay: "length bs \<le> 2 ^ 64 \<Longrightarrow> copy_from_user (length bs) a (overlay a bs m) = Some bs"
  by (simp add: copy_from_user_eq_Some overlay_read)

section \<open>What a buffer holds\<close>

definition obj_holds :: "rknpu_mem_object \<Rightarrow> heap_resource \<Rightarrow> int" where
  "obj_holds e r =
    (if r = H_object then 1 else 0) + (if r = H_vmap (mo_dmabuf e) \<and> mo_kv_addr e \<noteq> 0 then 1 else 0) +
    (if r = H_mapping (mo_attachment e) then 1 else 0) + (if r = H_attachment (mo_attachment e) then 1 else 0) +
    (if r = H_dmabuf (mo_dmabuf e) \<and> mo_owner e = 0 then 1 else 0)"

lemma heap_put_simps [simp]:
  "hs_objs (heap_put r h) = hs_objs h" "hs_files (heap_put r h) = hs_files h"
  "hs_sessions (heap_put r h) = hs_sessions h" "hs_dev (heap_put r h) = hs_dev h"
  "hs_user (heap_put r h) = hs_user h"
  "hs_count (heap_put r h) = (hs_count h)(r := hs_count h r - 1)"
  by (simp_all add: heap_put_def)

lemma release_entry_result:
  assumes "hs_objs h p = Some e"
  obtains t where "release_entry p h = Some t" "hs_objs t = (hs_objs h)(p := None)"
    "hs_files t = hs_files h" "hs_sessions t = hs_sessions h" "hs_user t = hs_user h"
    "pwr (hs_dev t) = pwr (hs_dev h)" "\<And>r. hs_count t r = hs_count h r - obj_holds e r"
proof
  show "release_entry p h = Some (the (release_entry p h))"
    using assms by (simp add: release_entry_def Let_def)
qed (use assms in \<open>auto simp: release_entry_def Let_def obj_holds_def\<close>)

lemma release_entries:
  assumes "distinct ps" and "\<forall>p\<in>set ps. hs_objs h p \<noteq> None"
  shows "\<exists>t. for_each ps release_entry h = Some t \<and> hs_files t = hs_files h \<and> hs_sessions t = hs_sessions h \<and>
           (\<forall>p. hs_objs t p = (if p \<in> set ps then None else hs_objs h p)) \<and>
           (\<forall>r. hs_count t r = hs_count h r - (\<Sum>p\<leftarrow>ps. obj_holds (the (hs_objs h p)) r))"
  using assms
proof (induction ps arbitrary: h)
  case (Cons p ps)
  then obtain e where e: "hs_objs h p = Some e" by auto
  then obtain u where u: "release_entry p h = Some u" "hs_objs u = (hs_objs h)(p := None)"
    "hs_files u = hs_files h" "hs_sessions u = hs_sessions h" "\<And>r. hs_count u r = hs_count h r - obj_holds e r"
    by (rule release_entry_result) blast
  have "\<forall>q\<in>set ps. hs_objs u q \<noteq> None" using Cons.prems by (auto simp: u(2))
  with Cons.IH [of u] Cons.prems(1) obtain t where t: "for_each ps release_entry u = Some t"
    "hs_files t = hs_files u" "hs_sessions t = hs_sessions u"
    "\<forall>q. hs_objs t q = (if q \<in> set ps then None else hs_objs u q)"
    "\<forall>r. hs_count t r = hs_count u r - (\<Sum>q\<leftarrow>ps. obj_holds (the (hs_objs u q)) r)" by auto
  have "(\<Sum>q\<leftarrow>ps. obj_holds (the (hs_objs u q)) r) = (\<Sum>q\<leftarrow>ps. obj_holds (the (hs_objs h q)) r)" for r
    using Cons.prems(1) by (intro arg_cong [where f = sum_list] map_cong) (auto simp: u(2))
  with t u e show ?case by (intro exI [of _ t]) (auto simp: u)
qed simp

section \<open>Structures through the byte interface\<close>

text \<open>
  An ioctl on structures: power up, run the handler, give the power back, and on success write the resulting
  structure to the user's buffer.
\<close>

definition struct_ioctl ::
    "heap_env \<Rightarrow> (rknpu_device \<Rightarrow> (int \<times> 'a \<times> int option \<times> rknpu_device) option) \<Rightarrow> ('a \<Rightarrow> u8 list) \<Rightarrow> u64
      \<Rightarrow> heap_state \<Rightarrow> (int \<times> heap_state) option" where
  "struct_ioctl env func enc arg h =
    (let (ret, d) = rknpu_power_get (he_power env) (hs_dev h) in
     if ret \<noteq> 0 then Some (ret, h\<lparr>hs_dev := d\<rparr>)
     else do {
       (ret, x, nice, d) \<leftarrow> func d;
       (_, d) \<leftarrow> rknpu_power_put_delay (he_depth env) (he_power env) d;
       Some (ret, h\<lparr>hs_nice := (case nice of None \<Rightarrow> hs_nice h | Some n \<Rightarrow> n), hs_dev := d,
                    hs_user := (if ret = 0 then overlay arg (enc x) (hs_user h) else hs_user h)\<rparr>) })"

lemma copy_back:
  assumes "copy_from_user n arg m = Some bs" and "length cs = n" and "n < 2 ^ 64"
  shows "copy_to_user arg cs m = (True, overlay arg cs m)"
  using assms by (intro copy_to_user_mapped) (auto simp: copy_from_user_eq_Some)

text \<open>The code of the ioctl once the arguments are in \<open>kdata\<close>, for an ioctl that reads and writes.\<close>

lemma ioctl_open:
  assumes "hs_files h file = Some sp" and "hs_sessions h sp = Some session"
    and "copy_from_user (cmd_size c) arg (hs_user h) = Some bs"
  shows "rknpu_ioctl env file (IOCTL_RKNPU c) arg h =
           ioctl_powered env file (IOCTL_RKNPU c) arg (bs @ drop (cmd_size c) (he_stack env)) h"
proof -
  have sz: "unat (of_nat (cmd_size c) :: u32) = cmd_size c" "cmd_size c \<le> 104" by (cases c; simp)+
  have "length bs = cmd_size c" using assms(3) by (simp add: copy_from_user_eq_Some)
  with assms sz show ?thesis by (simp add: rknpu_ioctl_def)
qed

lemma heap_action_structured:
  assumes "hs_files h file = Some sp" and "hs_sessions h sp = Some session"
    and "copy_from_user 8 arg (hs_user h) = Some (enc_action a)"
  shows "rknpu_ioctl env file (IOCTL_RKNPU RKNPU_ACTION) arg h =
           struct_ioctl env (rknpu_action_ioctl (he_act env) a) enc_action arg h"
proof -
  have "rknpu_ioctl env file (IOCTL_RKNPU RKNPU_ACTION) arg h =
      ioctl_powered env file (IOCTL_RKNPU RKNPU_ACTION) arg (enc_action a @ drop 8 (he_stack env)) h"
    using ioctl_open [OF assms(1,2), of RKNPU_ACTION] assms(3) by simp
  also have "\<dots> = struct_ioctl env (rknpu_action_ioctl (he_act env) a) enc_action arg h"
    by (simp add: ioctl_powered_def ioctl_switch_def struct_ioctl_def case_prod_beta Let_def action.dec_enc
        action.enc_length copy_back [OF assms(3)] cong: bind_option_cong if_cong)
       (auto split: Option.bind_splits option.splits)
  finally show ?thesis .
qed

lemma overlay_same:
  assumes "copy_from_user (length bs) a m = Some bs"
  shows "overlay a bs m = m"
proof
  fix x
  have "m x = Some (bs ! unat (x - a))" if "unat (x - a) < length bs"
    using assms that by (auto simp: copy_from_user_eq_Some dest: spec [of _ "unat (x - a)"])
  then show "overlay a bs m x = m x" by (simp add: overlay_def)
qed

section \<open>A sample session\<close>

text \<open>One open file with one buffer, on the sample device in the DMA-heap build.\<close>

definition heap_object :: rknpu_mem_object where
  "heap_object = \<lparr>mo_flags = 0, mo_size = 4096, mo_kv_addr = 0x9000, mo_dma_addr = 0x10000, mo_pages = None,
     mo_sgt = None, mo_dmabuf = 5, mo_attachment = 6, mo_owner = 0\<rparr>"

definition heap_sample :: "u8 list \<Rightarrow> heap_state" where
  "heap_sample bs =
    \<lparr>hs_dev = sample_device\<lparr>build := (build sample_device)\<lparr>CONFIG_ROCKCHIP_RKNPU_DRM_GEM := False\<rparr>\<rparr>,
     hs_files = [3 \<mapsto> 1], hs_sessions = [1 \<mapsto> \<lparr>ses_list = [0x8000]\<rparr>], hs_objs = [0x8000 \<mapsto> heap_object],
     hs_count = (\<lambda>r. obj_holds heap_object r + (if r = H_session then 1 else 0)),
     hs_user = overlay 0x5000 bs (\<lambda>x. None), hs_nice = 0\<rparr>"

definition heap_env_ok :: heap_env where
  "heap_env_ok =
    \<lparr>he_power = power_env_ok, he_depth = 2, he_act = act_env_ok, he_job = sample_env,
     he_stack = replicate 104 0xaa, he_mem_create = (\<lambda>file cmd arg h. Some (0, h)),
     he_mem_destroy = (\<lambda>file arg h. Some (0, h)), he_mem_sync = (\<lambda>arg h. Some (0, h))\<rparr>"

lemma heap_sample_simps [simp]:
  "hs_files (heap_sample bs) 3 = Some 1" "hs_sessions (heap_sample bs) 1 = Some \<lparr>ses_list = [0x8000]\<rparr>"
  "length bs \<le> 2 ^ 64 \<Longrightarrow> copy_from_user (length bs) 0x5000 (hs_user (heap_sample bs)) = Some bs"
  by (simp_all add: heap_sample_def copy_from_overlay)

text \<open>The device powers up, and hands its reference to the delayed power-off.\<close>

lemma heap_sample_power:
  obtains d d' where "rknpu_power_get (he_power heap_env_ok) (hs_dev (heap_sample bs)) = (0, d)"
    "rknpu_power_put_delay (he_depth heap_env_ok) (he_power heap_env_ok) d = Some (0, d')" "pwr d' \<noteq> pwr d"
    "config d = rk3588_rknpu_config"
proof -
  let ?s = "sample_device\<lparr>build := (build sample_device)\<lparr>CONFIG_ROCKCHIP_RKNPU_DRM_GEM := False\<rparr>\<rparr>"
  obtain ret d where d: "rknpu_power_get power_env_ok ?s = (ret, d)" by fastforce
  have "fst (rknpu_power_get power_env_ok ?s) = 0" by code_simp
  moreover have "power_refcount (pwr (snd (rknpu_power_get power_env_ok ?s))) = 1" by code_simp
  moreover have "power_put_delay (pwr (snd (rknpu_power_get power_env_ok ?s))) = 3000" by code_simp
  moreover have "power_off_work (pwr (snd (rknpu_power_get power_env_ok ?s))) = False" by code_simp
  moreover have "config (snd (rknpu_power_get power_env_ok ?s)) = rk3588_rknpu_config"
    by (simp add: rknpu_power_get_def rknpu_power_on_def Let_def set_refcount_def sample_device_def case_prod_beta
        run_state_init_def rk3588_rknpu_config_def)
  moreover have "pwr (delay_section d) \<noteq> pwr d" if "power_refcount (pwr d) = 1" "\<not> power_off_work (pwr d)"
    using that by (auto simp: delay_section_def dest: arg_cong [where f = power_off_work])
  ultimately show thesis
    using d by (intro that [of d "delay_section d"])
       (simp_all add: heap_sample_def heap_env_ok_def numeral_2_eq_2)
qed

section \<open>Properties\<close>

text \<open>
  C6: a submission through the byte interface is the submission of the structure its bytes stand for. When
  the user's buffer holds the 104 bytes of a structure with its signed fields in range, the ioctl powers the
  device up, submits exactly this structure, gives the power back, and on success leaves the bytes of the
  updated structure in the buffer and nothing else in user memory changed; an error leaves user memory alone.
\<close>

theorem heap_submit_structured:
  assumes "hs_files h file = Some sp" and "hs_sessions h sp = Some session"
    and "copy_from_user 104 arg (hs_user h) = Some (enc_submit x)" and "submit_wf x"
  shows "rknpu_ioctl env file (IOCTL_RKNPU RKNPU_SUBMIT) arg h =
           struct_ioctl env (\<lambda>d. map_option (\<lambda>(ret, y, d). (ret, y, None, d)) (rknpu_submit_ioctl (he_job env) x d))
             enc_submit arg h"
proof -
  have "rknpu_ioctl env file (IOCTL_RKNPU RKNPU_SUBMIT) arg h =
      ioctl_powered env file (IOCTL_RKNPU RKNPU_SUBMIT) arg (enc_submit x @ drop 104 (he_stack env)) h"
    using ioctl_open [OF assms(1,2), of RKNPU_SUBMIT] assms(3) by simp
  also have "\<dots> = struct_ioctl env
      (\<lambda>d. map_option (\<lambda>(ret, y, d). (ret, y, None, d)) (rknpu_submit_ioctl (he_job env) x d)) enc_submit arg h"
    by (simp add: ioctl_powered_def ioctl_switch_def struct_ioctl_def case_prod_beta Let_def
        submit.dec_enc [OF assms(4)] submit.enc_length copy_back [OF assms(3)]
        cong: bind_option_cong if_cong)
       (auto split: Option.bind_splits option.splits)
  finally show ?thesis .
qed

definition empty_submit :: rknpu_submit where
  "empty_submit = dec_submit (replicate 104 0)"

theorem heap_submit_structured_witness:
  "\<exists>t. rknpu_ioctl heap_env_ok 3 (IOCTL_RKNPU RKNPU_SUBMIT) 0x5000 (heap_sample (enc_submit empty_submit))
         = Some (- EINVAL, t)"
proof -
  let ?h = "heap_sample (enc_submit empty_submit)"
  obtain d d' where p: "rknpu_power_get (he_power heap_env_ok) (hs_dev ?h) = (0, d)"
    "rknpu_power_put_delay (he_depth heap_env_ok) (he_power heap_env_ok) d = Some (0, d')"
    by (rule heap_sample_power)
  have "sub_task_number empty_submit = 0"
    by (simp add: empty_submit_def dec_submit_def fld_def numeral_eq_Suc)
  then have "rknpu_submit_ioctl (he_job heap_env_ok) empty_submit d = Some (- EINVAL, empty_submit, d)"
    by (simp add: rknpu_submit_ioctl_def rknpu_submit_fn_def)
  moreover have copy: "copy_from_user 104 0x5000 (hs_user ?h) = Some (enc_submit empty_submit)"
    using heap_sample_simps(3) [of "enc_submit empty_submit"] by (simp add: submit.enc_length)
  moreover have "submit_wf empty_submit" by (simp add: empty_submit_def submit.dec_wf)
  ultimately show ?thesis
    using heap_submit_structured [OF heap_sample_simps(1,2) copy] p by (simp add: struct_ioctl_def)
qed

text \<open>
  C18: what a memory handler returns to its caller is lost. \<open>rknpu_mem_create_ioctl\<close> gets the user's address and
  writes its results (handle, object and bus address) there itself; afterwards \<open>rknpu_ioctl\<close> copies its
  own \<open>kdata\<close>, which still holds the request, over them. Whatever the handler wrote, after a successful call the
  buffer holds the bytes of the request.
\<close>

theorem mem_create_results_lost:
  assumes "hs_files h file = Some sp" and "hs_sessions h sp = Some session"
    and "copy_from_user 48 arg (hs_user h) = Some bs"
    and "\<And>cmd h1 ret h2 a. he_mem_create env file cmd arg h1 = Some (ret, h2) \<Longrightarrow> hs_user h1 a \<noteq> None \<Longrightarrow>
           hs_user h2 a \<noteq> None"
    and "rknpu_ioctl env file (IOCTL_RKNPU RKNPU_MEM_CREATE) arg h = Some (0, t)"
  shows "copy_from_user 48 arg (hs_user t) = Some bs"
proof -
  have len: "length bs = 48" using assms(3) by (simp add: copy_from_user_eq_Some)
  have "ioctl_powered env file (IOCTL_RKNPU RKNPU_MEM_CREATE) arg (bs @ drop 48 (he_stack env)) h = Some (0, t)"
    using ioctl_open [OF assms(1,2), of RKNPU_MEM_CREATE] assms(3,5) by simp
  then obtain d h1 where h1:
    "he_mem_create env file (IOCTL_RKNPU RKNPU_MEM_CREATE) arg (h\<lparr>hs_dev := d\<rparr>) = Some (0, h1)"
    and t: "hs_user t = snd (copy_to_user arg bs (hs_user h1))"
    by (auto simp: ioctl_powered_def ioctl_switch_def Let_def bind_eq_Some_conv len case_prod_beta split: if_splits
        dest: arg_cong [where f = hs_user])
  have "\<forall>i<length bs. hs_user h1 (arg + of_nat i) \<noteq> None"
    using assms(3,4) h1 len by (auto simp: copy_from_user_eq_Some)
  then have "copy_to_user arg bs (hs_user h1) = (True, overlay arg bs (hs_user h1))"
    using len by (intro copy_to_user_mapped) simp_all
  with t len show ?thesis using copy_from_overlay [of bs arg "hs_user h1"] by simp
qed

text \<open>A handler that answers with a handle and addresses.\<close>

definition sample_request :: rknpu_mem_create where
  "sample_request = \<lparr>mc_handle = 0, mc_flags = 0, mc_size = 4096, mc_obj_addr = 0, mc_dma_addr = 0, mc_sram_size = 0,
     mc_iommu_domain_id = 0, mc_core_mask = 0\<rparr>"

definition sample_answer :: rknpu_mem_create where
  "sample_answer = sample_request\<lparr>mc_handle := 1, mc_obj_addr := 0x8000, mc_dma_addr := 0x10000\<rparr>"

theorem mem_create_results_lost_witness:
  "\<exists>t. rknpu_ioctl (heap_env_ok\<lparr>he_mem_create := \<lambda>file cmd arg h.
           Some (0, h\<lparr>hs_user := overlay arg (enc_mem_create sample_answer) (hs_user h)\<rparr>)\<rparr>)
         3 (IOCTL_RKNPU RKNPU_MEM_CREATE) 0x5000 (heap_sample (enc_mem_create sample_request)) = Some (0, t) \<and>
       copy_from_user 48 0x5000 (hs_user t) = Some (enc_mem_create sample_request)"
proof -
  let ?h = "heap_sample (enc_mem_create sample_request)"
  let ?env = "heap_env_ok\<lparr>he_mem_create := \<lambda>file cmd arg h.
      Some (0, h\<lparr>hs_user := overlay arg (enc_mem_create sample_answer) (hs_user h)\<rparr>)\<rparr>"
  obtain d d' where p: "rknpu_power_get (he_power heap_env_ok) (hs_dev ?h) = (0, d)"
    "rknpu_power_put_delay (he_depth heap_env_ok) (he_power heap_env_ok) d = Some (0, d')"
    by (rule heap_sample_power)
  have copy: "copy_from_user 48 0x5000 (hs_user ?h) = Some (enc_mem_create sample_request)"
    using heap_sample_simps(3) [of "enc_mem_create sample_request"] by (simp add: mem_create.enc_length)
  let ?m = "overlay 0x5000 (enc_mem_create sample_answer) (hs_user ?h)"
  have m: "copy_from_user 48 0x5000 ?m = Some (enc_mem_create sample_answer)"
    using copy_from_overlay [of "enc_mem_create sample_answer"] by (simp add: mem_create.enc_length)
  have "\<exists>t. rknpu_ioctl ?env 3 (IOCTL_RKNPU RKNPU_MEM_CREATE) 0x5000 ?h = Some (0, t)"
    using ioctl_open [OF heap_sample_simps(1,2), of RKNPU_MEM_CREATE] copy p
    by (simp add: ioctl_powered_def ioctl_switch_def mem_create.enc_length copy_back [OF m])
  then obtain t where t: "rknpu_ioctl ?env 3 (IOCTL_RKNPU RKNPU_MEM_CREATE) 0x5000 ?h = Some (0, t)" ..
  have "copy_from_user 48 0x5000 (hs_user t) = Some (enc_mem_create sample_request)"
    by (rule mem_create_results_lost [OF heap_sample_simps(1,2) copy _ t]) (auto simp: overlay_def)
  with t show ?thesis by blast
qed

text \<open>
  C19: an ioctl number nobody handles succeeds. For \<open>RKNPU_MEM_MAP\<close> and for every number above those of the
  interface, \<open>rknpu_ioctl\<close> powers the device up and down again, changes no byte of user memory and returns 0:
  \<open>ret\<close>, initialised to \<open>- EINVAL\<close>, was overwritten by the 0 of \<open>rknpu_power_get\<close>.
\<close>

theorem unhandled_ioctl_succeeds:
  assumes "hs_files h file = Some sp" and "hs_sessions h sp = Some session"
    and "unat (IOC_SIZE cmd) \<le> 104" and "has (IOC_DIR cmd) IOC_WRITE"
    and "copy_from_user (unat (IOC_SIZE cmd)) arg (hs_user h) = Some bs"
    and "IOC_NR cmd = cmd_nr RKNPU_MEM_MAP \<or> cmd_nr RKNPU_MEM_SYNC < IOC_NR cmd"
    and "rknpu_power_get (he_power env) (hs_dev h) = (0, d)"
    and "rknpu_power_put_delay (he_depth env) (he_power env) d = Some (r, d')"
  shows "rknpu_ioctl env file cmd arg h = Some (0, h\<lparr>hs_dev := d'\<rparr>)"
proof -
  have len: "length bs = unat (IOC_SIZE cmd)" using assms(5) by (simp add: copy_from_user_eq_Some)
  have "IOC_NR cmd \<noteq> 0" "IOC_NR cmd \<noteq> 1" "IOC_NR cmd \<noteq> 2" "IOC_NR cmd \<noteq> 4" "IOC_NR cmd \<noteq> 5"
    using assms(6) by (auto simp: word_less_def)
  then have sw: "ioctl_switch env file cmd arg k g = Some (0, k, g)" for k g
    by (simp add: ioctl_switch_def Let_def)
  have m: "copy_to_user arg bs (hs_user h) = (True, hs_user h)"
    using copy_back [OF assms(5) len] overlay_same [of bs arg "hs_user h"] assms(3,5) len by simp
  have "h\<lparr>hs_dev := d', hs_user := hs_user h\<rparr> = h\<lparr>hs_dev := d'\<rparr>" by simp
  with assms m len show ?thesis by (simp add: rknpu_ioctl_def ioctl_powered_def sw Let_def)
qed

theorem unhandled_ioctl_succeeds_witness:
  "\<exists>d'. rknpu_ioctl heap_env_ok 3 (RKNPU_IOWR 0x77 0) 0x5000 (heap_sample []) = Some (0, (heap_sample [])\<lparr>hs_dev := d'\<rparr>)"
proof -
  obtain d d' where p: "rknpu_power_get (he_power heap_env_ok) (hs_dev (heap_sample [])) = (0, d)"
    "rknpu_power_put_delay (he_depth heap_env_ok) (he_power heap_env_ok) d = Some (0, d')"
    by (rule heap_sample_power)
  have n: "IOC_NR (RKNPU_IOWR 0x77 0) = 0x77" "IOC_SIZE (RKNPU_IOWR 0x77 0) = 0" "IOC_DIR (RKNPU_IOWR 0x77 0) = 3"
    by (simp_all add: RKNPU_IOWR_def IOC_def IOC_NR_def IOC_SIZE_def IOC_DIR_def RKNPU_IOC_MAGIC_def)
  have "rknpu_ioctl heap_env_ok 3 (RKNPU_IOWR 0x77 0) 0x5000 (heap_sample []) = Some (0, (heap_sample [])\<lparr>hs_dev := d'\<rparr>)"
    by (rule unhandled_ioctl_succeeds [OF heap_sample_simps(1,2) _ _ _ _ p])
       (simp_all add: n copy_from_user_def)
  then show ?thesis by blast
qed

text \<open>
  C17: closing a file gives back exactly what it holds. Every buffer of the session is freed, its kernel
  mapping, its attachment and the mapping of the attachment are released once, the reference to the dma-buf
  is dropped unless the buffer owns it, the session is freed, and no other buffer is touched; an ioctl on
  the closed file is refused.
\<close>

theorem session_release_balanced:
  assumes "hs_files h file = Some sp" and "hs_sessions h sp = Some session"
    and "distinct (ses_list session)" and "\<forall>p\<in>set (ses_list session). hs_objs h p \<noteq> None"
  shows "\<exists>t. rknpu_release file h = Some (0, t) \<and> hs_sessions t = (hs_sessions h)(sp := None) \<and>
           (\<forall>p. hs_objs t p = (if p \<in> set (ses_list session) then None else hs_objs h p)) \<and>
           (\<forall>r. hs_count t r = hs_count h r - (\<Sum>p\<leftarrow>ses_list session. obj_holds (the (hs_objs h p)) r)
                  - (if r = H_session then 1 else 0)) \<and>
           (\<forall>env cmd arg. rknpu_ioctl env file cmd arg t = Some (- EINVAL, t))"
proof -
  let ?h = "h\<lparr>hs_sessions := (hs_sessions h)(sp \<mapsto> session\<lparr>ses_list := []\<rparr>), hs_files := (hs_files h)(file := None)\<rparr>"
  obtain t where t: "for_each (ses_list session) release_entry ?h = Some t" "hs_files t = hs_files ?h"
    "hs_sessions t = hs_sessions ?h"
    "\<forall>p. hs_objs t p = (if p \<in> set (ses_list session) then None else hs_objs h p)"
    "\<forall>r. hs_count t r = hs_count h r - (\<Sum>p\<leftarrow>ses_list session. obj_holds (the (hs_objs h p)) r)"
    using release_entries [of "ses_list session" ?h] assms(3,4) by auto
  let ?t = "heap_put H_session (t\<lparr>hs_sessions := (hs_sessions t)(sp := None)\<rparr>)"
  have "rknpu_release file h = Some (0, ?t)" using assms(1,2) t(1) by (simp add: rknpu_release_def Let_def)
  with t show ?thesis by (intro exI [of _ ?t]) (auto simp: rknpu_ioctl_def Let_def)
qed

theorem session_release_balanced_witness:
  "\<exists>t. rknpu_release 3 (heap_sample []) = Some (0, t) \<and> hs_objs t 0x8000 = None \<and> (\<forall>r. hs_count t r = 0)"
proof -
  have "\<exists>t. rknpu_release 3 (heap_sample []) = Some (0, t) \<and> hs_sessions t = (hs_sessions (heap_sample []))(1 := None) \<and>
           (\<forall>p. hs_objs t p = (if p \<in> set [0x8000] then None else hs_objs (heap_sample []) p)) \<and>
           (\<forall>r. hs_count t r = hs_count (heap_sample []) r -
                  (\<Sum>p\<leftarrow>[0x8000]. obj_holds (the (hs_objs (heap_sample []) p)) r) - (if r = H_session then 1 else 0)) \<and>
           (\<forall>env cmd arg. rknpu_ioctl env 3 cmd arg t = Some (- EINVAL, t))"
    using session_release_balanced [OF heap_sample_simps(1,2), of "[]"] by (simp add: heap_sample_def)
  then show ?thesis by (auto simp: heap_sample_def)
qed

end
