(* ===== verification/Rknpu_Ioctl.thy ===== *)
theory Rknpu_Ioctl
  imports Rknpu_Uabi Rknpu_Progress Rknpu_Gem_Map Rknpu_Action
begin

text \<open>
  The DRM front end of \<open>rknpu_drv.c\<close>: the table \<open>rknpu_ioctls\<close>, whose six entries are the handlers of the other
  theories inside the wrapper \<open>RKNPU_IOCTL\<close>, and the remaining small handlers. Interrupts, the clean-up work of
  jobs and the delayed power-off run between the ioctls.

  The theory shows that a handler leaves the power accounting as it found it, also where it frees a buffer and
  powers the device again meanwhile, so that no path through the driver loses or leaks a power reference.
\<close>

section \<open>Model\<close>

text \<open>
  \<open>rknpu_gem_dumb_map_offset\<close>, for kernels before 4.19: \<open>create_ret\<close> and \<open>node_offset\<close> are the results of
  \<open>drm_gem_create_mmap_offset\<close> and \<open>drm_vma_node_offset_addr\<close>. The offset is written on the last path only.
\<close>

definition rknpu_gem_dumb_map_offset ::
    "int \<Rightarrow> u64 \<Rightarrow> nat \<Rightarrow> u32 \<Rightarrow> rknpu_device \<Rightarrow> (int \<times> u64 option) option" where
  "rknpu_gem_dumb_map_offset create_ret node_offset file handle s =
    (case rknpu_gem_object_find file handle s of
       None \<Rightarrow> Some (0, None)
     | Some addr \<Rightarrow> do {
         ob \<leftarrow> gem_objs s addr;
         Some (if obj_import_attach ob then (- EINVAL, None)
               else if create_ret \<noteq> 0 then (create_ret, None)
               else (0, Some node_offset)) })"

text \<open>
  \<open>rknpu_gem_map_ioctl\<close>; \<open>map_offset\<close> is the function above or, from 4.19 on, \<open>drm_gem_dumb_map_offset\<close> of the
  kernel.
\<close>

definition rknpu_gem_map_ioctl ::
    "(nat \<Rightarrow> u32 \<Rightarrow> rknpu_device \<Rightarrow> (int \<times> u64 option) option) \<Rightarrow> nat \<Rightarrow> rknpu_mem_map \<Rightarrow> rknpu_device
      \<Rightarrow> (int \<times> rknpu_mem_map \<times> rknpu_device) option" where
  "rknpu_gem_map_ioctl map_offset file args s =
    do { (ret, off) \<leftarrow> map_offset file (mp_handle args) s;
         Some (ret, case off of None \<Rightarrow> args | Some x \<Rightarrow> args\<lparr>mp_offset := x\<rparr>, s) }"

text \<open>The argument of an ioctl, as the DRM core hands it to the handler and takes it back.\<close>

datatype drm_data =
    D_Action rknpu_action | D_Submit rknpu_submit | D_Mem_Create rknpu_mem_create | D_Mem_Map rknpu_mem_map
  | D_Mem_Destroy rknpu_mem_destroy | D_Mem_Sync rknpu_mem_sync

record drm_env =
  de_power :: power_env
  de_depth :: nat
  de_act :: act_env
  de_job :: job_env
  de_gem :: gem_env
  de_iommu :: iommu_env
  de_map_offset :: "nat \<Rightarrow> u32 \<Rightarrow> rknpu_device \<Rightarrow> (int \<times> u64 option) option"

definition drm_func ::
    "drm_env \<Rightarrow> nat \<Rightarrow> drm_data \<Rightarrow> rknpu_device \<Rightarrow> (int \<times> drm_data \<times> rknpu_device) option" where
  "drm_func env file data s =
    (case data of
       D_Action a \<Rightarrow> do { (ret, a, _, s) \<leftarrow> rknpu_action_ioctl (de_act env) a s; Some (ret, D_Action a, s) }
     | D_Submit x \<Rightarrow> do { (ret, x, s) \<leftarrow> rknpu_submit_ioctl (de_job env) x s; Some (ret, D_Submit x, s) }
     | D_Mem_Create x \<Rightarrow>
         do { (ret, x, s) \<leftarrow> rknpu_gem_create_ioctl (de_gem env) file x s; Some (ret, D_Mem_Create x, s) }
     | D_Mem_Map x \<Rightarrow>
         do { (ret, x, s) \<leftarrow> rknpu_gem_map_ioctl (de_map_offset env) file x s; Some (ret, D_Mem_Map x, s) }
     | D_Mem_Destroy x \<Rightarrow>
         do { (ret, s) \<leftarrow> rknpu_gem_destroy_ioctl (de_gem env) file x s; Some (ret, D_Mem_Destroy x, s) }
     | D_Mem_Sync x \<Rightarrow>
         do { (ret, _, s) \<leftarrow> rknpu_gem_sync_ioctl (de_iommu env) x s; Some (ret, D_Mem_Sync x, s) })"

text \<open>The entries of the table: return value and device.\<close>

definition rknpu_ioctls :: "drm_env \<Rightarrow> nat \<Rightarrow> drm_data \<Rightarrow> rknpu_device \<Rightarrow> (int \<times> rknpu_device) option" where
  "rknpu_ioctls env file data s =
    RKNPU_IOCTL (de_depth env) (de_power env)
      (\<lambda>s. do { (ret, _, s) \<leftarrow> drm_func env file data s; Some (ret, s) }) s"

text \<open>
  What happens to the device once it is probed: an ioctl, the interrupt of a core, the clean-up work of a job,
  the delayed power-off. Work items run when they are queued.
\<close>

datatype drm_event = Ioctl drm_env nat drm_data | Irq job_env irq_handler_fn | Cleanup job_env job_ptr
  | Power_Off nat power_env

fun drm_step :: "drm_event \<Rightarrow> rknpu_device \<Rightarrow> rknpu_device option" where
  "drm_step (Ioctl env file data) s = map_option snd (rknpu_ioctls env file data s)"
| "drm_step (Irq env h) s = run_irq_handler env h s"
| "drm_step (Cleanup env j) s = (if j \<in> set (cleanup_works s) then rknpu_job_cleanup_work env j s else None)"
| "drm_step (Power_Off depth env) s =
    (if power_off_work (pwr s) then rknpu_power_off_delay_work depth env s else None)"

text \<open>While an ioctl waits for its job, other contexts run; their effect on the power state is counted with them.\<close>

definition quiet :: "drm_event \<Rightarrow> bool" where
  "quiet e \<longleftrightarrow> (case e of
     Ioctl env file data \<Rightarrow> (\<forall>k s t. je_others (de_job env) k s = Some t \<longrightarrow> pwr t = pwr s)
   | Irq env h \<Rightarrow> True | Cleanup env j \<Rightarrow> True | Power_Off depth env \<Rightarrow> True)"

section \<open>Giving a reference back\<close>

text \<open>A get and a put inside the use of the device cancel out.\<close>

lemma nested_get:
  "1 \<le> power_refcount (pwr s) \<Longrightarrow> rknpu_power_get env s = (0, set_refcount (power_refcount (pwr s) + 1) s)"
  by (simp add: rknpu_power_get_def Let_def)

lemma nested_put:
  assumes "1 < power_refcount (pwr s)"
  shows "rknpu_power_put n env s = Some (r, t) \<Longrightarrow> pwr t = (pwr s)\<lparr>power_refcount := power_refcount (pwr s) - 1\<rparr>"
    and "rknpu_power_put_delay n env s = Some (r, t) \<Longrightarrow>
           pwr t = (pwr s)\<lparr>power_refcount := power_refcount (pwr s) - 1\<rparr>"
proof -
  have put: "pwr t = (pwr s)\<lparr>power_refcount := power_refcount (pwr s) - 1\<rparr>"
    if "rknpu_power_put n env s = Some (r, t)" for n
    using that assms by (cases n) (auto simp: drop_power_def)
  then show "rknpu_power_put n env s = Some (r, t) \<Longrightarrow> pwr t = (pwr s)\<lparr>power_refcount := power_refcount (pwr s) - 1\<rparr>" .
  show "pwr t = (pwr s)\<lparr>power_refcount := power_refcount (pwr s) - 1\<rparr>"
    if "rknpu_power_put_delay n env s = Some (r, t)"
    using that put assms by (cases n) (auto simp: delay_section_def split: if_splits)
qed

section \<open>What keeps the power state\<close>

subsection \<open>Buffers\<close>

lemma pwr_ledger [simp]:
  "pwr (acquire r s) = pwr s" "pwr (release r s) = pwr s" "pwr (iommu_unmap a n s) = pwr s"
  "pwr (snd (iommu_map env a p n s)) = pwr s" "pwr (rknpu_gem_release s) = pwr s"
  by (simp_all add: acquire_def release_def iommu_unmap_def iommu_map_def rknpu_gem_release_def)

lemma pwr_domain_get: "dev_domain_get env i s = (ret, t) \<Longrightarrow> pwr t = pwr s"
  by (auto elim: dev_domain_get_frame)

lemma pwr_domain_retry: "pwr (snd (domain_retry n env i s)) = pwr s"
proof (induction n env i s rule: domain_retry.induct)
  case (2 n env i s)
  obtain ret u where u: "dev_domain_get env i s = (ret, u)" by fastforce
  with 2 [OF u [symmetric]] pwr_domain_get [OF u] show ?case by auto
qed simp

lemma pwr_map_cache_segs: "pwr (snd (map_cache_segs env nbuf iova len segs s)) = pwr s"
  by (induction env nbuf iova len segs s rule: map_cache_segs.induct)
     (auto simp: Let_def iommu_map_def split: prod.splits)

lemma pwr_map_sgl: "pwr (snd (snd (map_sgl env off len sgs s))) = pwr s"
  by (induction env off len sgs s rule: map_sgl.induct) (auto simp: Let_def iommu_map_def split: prod.splits)

lemma pwr_get_pages: "pwr (snd (snd (rknpu_gem_get_pages env ob s))) = pwr s"
  by (auto simp: rknpu_gem_get_pages_def Let_def split: sum.splits prod.splits)

lemma pwr_alloc_buf: "pwr (snd (snd (rknpu_gem_alloc_buf env ob s))) = pwr s"
  by (auto simp: rknpu_gem_alloc_buf_def Let_def pwr_get_pages split: option.splits prod.splits)

lemma pwr_cache_ddr: "pwr (snd (snd (cache_ddr env n ob s))) = pwr s"
  using pwr_map_sgl
  by (auto simp: cache_ddr_def Let_def split: sum.splits prod.splits) (metis pwr_ledger(1) snd_conv)+

lemma pwr_map_with_cache_sgt: "rknpu_iommu_map_with_cache_sgt env ob n s = Some p \<Longrightarrow> pwr (snd p) = pwr s"
  by (auto simp: rknpu_iommu_map_with_cache_sgt_def bind_eq_Some_conv pwr_map_cache_segs)

lemma pwr_alloc_with_cache:
  assumes "rknpu_gem_alloc_buf_with_cache env ct ob s = Some p"
  shows "pwr (snd (snd p)) = pwr s"
proof -
  from assms obtain cstart csize where reg: "cache_region ob ct s = Some (cstart, csize)"
    by (auto simp: rknpu_gem_alloc_buf_with_cache_def bind_eq_Some_conv)
  define o1 where "o1 = ob\<lparr>obj_iova_size := iova_align env (csize + obj_size ob), obj_iova_start := alloc_iova_ret env\<rparr>"
  show ?thesis
  proof (cases "attached_domain (iommu s) = None \<or> obj_iova_start o1 = 0")
    case True
    with assms reg show ?thesis
      by (auto simp: rknpu_gem_alloc_buf_with_cache_def o1_def Let_def split: if_splits)
  next
    case False
    then obtain d where d: "attached_domain (iommu s) = Some d" and a: "alloc_iova_ret env \<noteq> 0" by (auto simp: o1_def)
    let ?map = "if \<not> obj_cache_with_sgt o1 then Some (iommu_map env (obj_iova_start o1) cstart csize (acquire R_iova s))
        else rknpu_iommu_map_with_cache_sgt env o1 csize (acquire R_iova s)"
    let ?rest = "\<lambda>(ret, u). if ret \<noteq> 0 then Some (ret, o1, release R_iova u)
           else let o2 = o1\<lparr>obj_dma_addr := obj_iova_start o1\<rparr> in
             if obj_size o2 = 0 then Some (0, o2, u)
             else let (ret, o3, v) = cache_ddr env csize o2 u
               in Some (if ret = 0 then (0, o3, v) else (ret, o3, release R_iova v))"
    have "do { x \<leftarrow> ?map; ?rest x } = Some p"
      using assms unfolding rknpu_gem_alloc_buf_with_cache_def o1_def
      by (simp add: reg d a Let_def split del: if_split cong: if_cong)
    then obtain ret u where u: "?map = Some (ret, u)" and p: "?rest (ret, u) = Some p"
      by (auto simp: bind_eq_Some_conv)
    have "pwr u = pwr s"
    proof (cases "obj_cache_with_sgt o1")
      case True
      with u have "rknpu_iommu_map_with_cache_sgt env o1 csize (acquire R_iova s) = Some (ret, u)" by simp
      from pwr_map_with_cache_sgt [OF this] show ?thesis by simp
    next
      case False
      with u have "u = snd (iommu_map env (obj_iova_start o1) cstart csize (acquire R_iova s))"
        by (metis option.inject snd_conv)
      then show ?thesis by simp
    qed
    with p show ?thesis
      using pwr_cache_ddr [of env csize "o1\<lparr>obj_dma_addr := obj_iova_start o1\<rparr>" u]
      by (auto simp: Let_def case_prod_beta split: if_splits)
  qed
qed

lemma pwr_create_backing:
  assumes "create_backing env flags ddr req cm ob s = Some p"
  shows "pwr (snd (snd p)) = pwr s"
proof -
  have sram: "pwr (snd (snd (snd q))) = pwr s" if "create_sram env ddr req ob s = Some q" for q
    using that
    by (auto simp: create_sram_def Let_def bind_eq_Some_conv case_prod_beta split: if_splits
        dest!: pwr_alloc_with_cache)
  have nbuf: "pwr (snd (snd (snd q))) = pwr s" if "create_nbuf env ddr cm ob s = Some q" for q
    using that
    by (auto simp: create_nbuf_def Let_def bind_eq_Some_conv case_prod_beta split: if_splits
        dest!: pwr_alloc_with_cache)
  from assms obtain q where q: "(if CONFIG_ROCKCHIP_RKNPU_SRAM (build s) \<and> has flags RKNPU_MEM_TRY_ALLOC_SRAM \<and> sram_size s > 0
            then create_sram env ddr req ob s
            else if CONFIG_NO_GKI (build s) \<and> has flags RKNPU_MEM_TRY_ALLOC_NBUF \<and> nbuf_size s > 0
            then create_nbuf env ddr cm ob s
            else Some (0, ddr, ob, s)) = Some q"
    and p: "snd (snd p) = snd (snd (snd q)) \<or> p = rknpu_gem_alloc_buf env (fst (snd (snd q))) (snd (snd (snd q)))"
    unfolding create_backing_def bind_eq_Some_conv by (auto simp: case_prod_beta split: if_splits)
  from q have "pwr (snd (snd (snd q))) = pwr s" using sram nbuf by (auto split: if_splits)
  with p show ?thesis using pwr_alloc_buf by metis
qed

lemma pwr_object_create:
  assumes "rknpu_gem_object_create env flags sz req i cm s = Some (r, t)"
  shows "pwr t = pwr s"
proof (cases "sz = 0")
  case False
  obtain x u where u: "rknpu_gem_init env (page_round_up sz) s = (x, u)" by fastforce
  then have "pwr u = pwr s" by (auto simp: rknpu_gem_init_def Let_def split: option.splits if_splits)
  obtain ret v where v: "dev_domain_get (gem_iommu env) i u = (ret, v)" by fastforce
  with \<open>pwr u = pwr s\<close> have "pwr v = pwr s" using pwr_domain_get by auto
  with False assms u v \<open>pwr u = pwr s\<close> show ?thesis
    by (cases x) (auto simp: rknpu_gem_object_create_def Let_def bind_eq_Some_conv case_prod_beta split: if_splits
        dest!: pwr_create_backing)
qed (use assms in \<open>simp add: rknpu_gem_object_create_def\<close>)

lemma pwr_free_backing: "pwr (free_backing ob s) = pwr s"
  by (auto simp: free_backing_def rknpu_gem_free_buf_with_cache_def rknpu_gem_free_buf_def rknpu_gem_put_pages_def
      Let_def split: rknpu_cache_type.splits)

lemma pwr_object_destroy:
  assumes "rknpu_gem_object_destroy env addr s = Some t"
  shows "pwr t = pwr s"
proof -
  from assms obtain ob where ob: "gem_objs s addr = Some ob"
    by (auto simp: rknpu_gem_object_destroy_def bind_eq_Some_conv)
  obtain ret u where u: "domain_retry 3 (gem_iommu env) (obj_iommu_domain_id ob) s = (ret, u)" by fastforce
  with assms ob
  have t: "t = u \<or> t = dev_domain_put (rknpu_gem_release ((free_backing ob u)\<lparr>gem_objs := (gem_objs u)(addr := None)\<rparr>))"
    by (auto simp: rknpu_gem_object_destroy_def Let_def split: if_splits simp del: domain_retry.simps)
  have "pwr u = pwr s" using pwr_domain_retry [of 3 "gem_iommu env" "obj_iommu_domain_id ob" s] u by simp
  with t show ?thesis using pwr_free_backing [of ob u] by (auto simp: rknpu_gem_release_def release_def)
qed

text \<open>Freeing the last reference powers the device for itself, which a user of the device does not notice.\<close>

lemma pwr_free_object:
  assumes "rknpu_gem_free_object env addr s = Some t" and "1 \<le> power_refcount (pwr s)"
  shows "pwr t = pwr s"
proof -
  let ?s = "set_refcount (power_refcount (pwr s) + 1) s"
  from assms obtain u r where u: "rknpu_gem_object_destroy env addr ?s = Some u"
    and t: "rknpu_power_put_delay (power_depth env) (gem_power env) u = Some (r, t)"
    by (auto simp: rknpu_gem_free_object_def nested_get bind_eq_Some_conv)
  have "pwr u = pwr ?s" by (rule pwr_object_destroy [OF u])
  with nested_put(2) [OF _ t] assms(2) show ?thesis by simp
qed

lemma pwr_upd_gem: "upd_gem addr f s = Some t \<Longrightarrow> pwr t = pwr s"
  by (auto simp: upd_gem_def bind_eq_Some_conv)

lemma pwr_object_put:
  assumes "rknpu_gem_object_put env addr s = Some t" and "1 \<le> power_refcount (pwr s)"
  shows "pwr t = pwr s"
  using assms
  by (auto simp: rknpu_gem_object_put_def Let_def bind_eq_Some_conv split: if_splits
      dest!: pwr_upd_gem dest: pwr_free_object)

lemma pwr_object_get: "rknpu_gem_object_get addr s = Some t \<Longrightarrow> pwr t = pwr s"
  by (auto simp: rknpu_gem_object_get_def dest: pwr_upd_gem)

lemma pwr_create_ioctl:
  assumes "rknpu_gem_create_ioctl env file args s = Some (ret, args', t)" and "1 \<le> power_refcount (pwr s)"
  shows "pwr t = pwr s"
proof -
  have hc: "pwr u = pwr x" if "rknpu_gem_handle_create env file addr x = Some (r, u)"
    "1 \<le> power_refcount (pwr x)" for addr x r u
    using that pwr_object_put
    by (fastforce simp: rknpu_gem_handle_create_def bind_eq_Some_conv split: if_splits dest!: pwr_object_get)
  show ?thesis
  proof (cases "rknpu_gem_object_find file (mc_handle args) s")
    case (Some addr)
    with assms(1) show ?thesis by (auto simp: rknpu_gem_create_ioctl_def bind_eq_Some_conv)
  next
    case None
    let ?create = "rknpu_gem_object_create env (mc_flags args) (mc_size args) (mc_sram_size args)
        (mc_iommu_domain_id args) (mc_core_mask args) s"
    from None assms(1) obtain r u where u: "?create = Some (r, u)"
      by (auto simp: rknpu_gem_create_ioctl_def bind_eq_Some_conv)
    then have pu: "pwr u = pwr s" by (rule pwr_object_create)
    show ?thesis
    proof (cases r)
      case (Inl e)
      with None u assms(1) pu show ?thesis by (auto simp: rknpu_gem_create_ioctl_def)
    next
      case (Inr addr)
      with None u assms(1) obtain ret' v where v: "rknpu_gem_handle_create env file addr u = Some (ret', v)"
        by (auto simp: rknpu_gem_create_ioctl_def bind_eq_Some_conv)
      with hc pu assms(2) have "pwr v = pwr s" by auto
      with None u Inr v assms(1) show ?thesis
        by (auto simp: rknpu_gem_create_ioctl_def bind_eq_Some_conv split: if_splits dest: pwr_object_destroy)
    qed
  qed
qed

lemma pwr_destroy_ioctl:
  assumes "rknpu_gem_destroy_ioctl env file args s = Some (ret, t)" and "1 \<le> power_refcount (pwr s)"
  shows "pwr t = pwr s"
proof -
  have retry: "pwr u = pwr s" if "domain_retry 3 e i s = (r, u)" for e i r u
    using pwr_domain_retry [of 3 e i s] that by simp
  have hd: "pwr u = pwr x" if "rknpu_gem_handle_destroy env file h x = Some (r, u)" "1 \<le> power_refcount (pwr x)" for h x r u
    using that by (auto simp: rknpu_gem_handle_destroy_def bind_eq_Some_conv split: option.splits
        dest: pwr_object_put)
  show ?thesis
  proof (cases "rknpu_gem_object_find file (md_handle args) s")
    case (Some addr)
    with assms(1) obtain ob where ob: "gem_objs s addr = Some ob"
      by (auto simp: rknpu_gem_destroy_ioctl_def bind_eq_Some_conv)
    obtain r u where u: "domain_retry 3 (gem_iommu env) (obj_iommu_domain_id ob) s = (r, u)" by fastforce
    with retry have "pwr u = pwr s" by blast
    with Some ob u assms show ?thesis
      by (auto simp: rknpu_gem_destroy_ioctl_def Let_def bind_eq_Some_conv split: if_splits
          simp del: domain_retry.simps dest: hd)
  qed (use assms(1) in \<open>simp add: rknpu_gem_destroy_ioctl_def\<close>)
qed

lemma pwr_sync_ioctl:
  assumes "rknpu_gem_sync_ioctl env args s = Some (ret, ops, t)"
  shows "pwr t = pwr s"
  using assms
  by (auto simp: rknpu_gem_sync_ioctl_def Let_def bind_eq_Some_conv split: if_splits prod.splits
      dest: pwr_domain_get)

subsection \<open>Jobs\<close>

lemma pwr_for_each:
  assumes "for_each xs f s = Some t" and "\<And>x u v. f x u = Some v \<Longrightarrow> pwr v = pwr u"
  shows "pwr t = pwr s"
  by (rule for_each_inv [OF assms(1), where P = "\<lambda>u. pwr u = pwr s"]) (auto dest: assms(2))

lemma pwr_upd_job: "upd_job j f s = Some t \<Longrightarrow> pwr t = pwr s"
  by (auto simp: upd_job_eq_Some)

lemma pwr_lists:
  "list_add_tail i j s = Some t \<Longrightarrow> pwr t = pwr s" "unlink_entry node i j s = Some t \<Longrightarrow> pwr t = pwr s"
  "unlink_node i j s = Some t \<Longrightarrow> pwr t = pwr s" "schedule_work j s = Some t \<Longrightarrow> pwr t = pwr s"
  "wait_unlink j i s = Some t \<Longrightarrow> pwr t = pwr s"
proof -
  show unlink: "unlink_entry node i j s = Some t \<Longrightarrow> pwr t = pwr s" for node
    by (auto simp: unlink_entry_def Let_def split: if_splits dest: pwr_upd_job)
  show "list_add_tail i j s = Some t \<Longrightarrow> pwr t = pwr s"
    by (auto simp: list_add_tail_def Let_def split: if_splits dest: pwr_upd_job)
  show "unlink_node i j s = Some t \<Longrightarrow> pwr t = pwr s"
    by (auto simp: unlink_node_def bind_eq_Some_conv split: list_node.splits dest: unlink) (metis list_node.exhaust)
  show "schedule_work j s = Some t \<Longrightarrow> pwr t = pwr s"
    by (auto simp: schedule_work_def bind_eq_Some_conv split: if_splits)
  show "wait_unlink j i s = Some t \<Longrightarrow> pwr t = pwr s"
    by (auto simp: wait_unlink_def Let_def split: if_splits dest: unlink)
qed

lemma pwr_fences:
  "put_fence fo s = Some t \<Longrightarrow> pwr t = pwr s" "signal_fence fo s = Some t \<Longrightarrow> pwr t = pwr s"
  "rknpu_fence_alloc fenv j s = Some (r, t) \<Longrightarrow> pwr t = pwr s"
  "rknpu_fence_get_fd fenv j s = Some (r, t) \<Longrightarrow> pwr t = pwr s"
  by (auto simp: put_fence_def signal_fence_def dma_fence_signal_def rknpu_fence_alloc_def rknpu_fence_get_fd_def
      bind_eq_Some_conv Let_def split: option.splits if_splits
      dest: fence_put_frame upd_fence_frame pwr_upd_job)

lemma pwr_soft_reset: "rknpu_soft_reset env s = Some (r, t) \<Longrightarrow> pwr t = pwr s"
  by (auto simp: rknpu_soft_reset_def set_soft_reseting_def bind_eq_Some_conv Let_def split: if_splits)

lemma pwr_commit:
  assumes "rknpu_job_subcore_commit i j s = Some (r, t)"
  shows "pwr t = pwr s"
proof -
  have "pwr v = pwr u" if "rknpu_job_subcore_commit_pc i j u = Some (x, v)" for u v x
    using that
    by (auto simp: rknpu_job_subcore_commit_pc_def bind_eq_Some_conv Let_def split: if_splits prod.splits
        dest!: pwr_upd_job)
  with assms show ?thesis
    by (fastforce simp: rknpu_job_subcore_commit_def bind_eq_Some_conv Let_def split: if_splits dest: pwr_upd_job)
qed

lemma pwr_job_commit: "rknpu_job_commit j s = Some t \<Longrightarrow> pwr t = pwr s"
  by (auto simp: rknpu_job_commit_def bind_eq_Some_conv elim!: pwr_for_each dest: pwr_commit)

lemma pwr_job_next: "rknpu_job_next env i s = Some t \<Longrightarrow> pwr t = pwr s"
  by (auto simp: rknpu_job_next_def next_take_def next_start_def bind_eq_Some_conv Let_def
      split: if_splits option.splits list.splits dest!: pwr_upd_job pwr_lists(2) pwr_job_commit)

lemma pwr_job_done:
  assumes "rknpu_job_done env j ret i s = Some t"
  shows "pwr t = pwr s"
proof -
  have finish: "pwr v = pwr u" if "job_finish j ret i u = Some v" for u v
    using that
    by (auto simp: job_finish_def bind_eq_Some_conv Let_def wake_up_def split: if_splits
        dest!: pwr_upd_job pwr_fences(2) pwr_lists(4))
  have count: "pwr v = pwr u" if "done_count j ret i u = Some v" for u v
    using that by (auto simp: done_count_def bind_eq_Some_conv Let_def split: if_splits dest!: pwr_upd_job finish)
  have slot: "pwr v = pwr u" if "done_slot env j i u = Some v" for u v
    using that by (auto simp: done_slot_def bind_eq_Some_conv Let_def dest!: pwr_upd_job)
  from assms show ?thesis
    by (auto simp: rknpu_job_done_def bind_eq_Some_conv Let_def split: if_splits
        dest!: pwr_upd_job pwr_commit count slot pwr_job_next)
qed

lemma pwr_irq: "run_irq_handler env h s = Some t \<Longrightarrow> pwr t = pwr s"
proof -
  have "rknpu_irq_handler env i s = Some t \<Longrightarrow> pwr t = pwr s" for i
    by (auto simp: rknpu_irq_handler_def bind_eq_Some_conv Let_def split: if_splits option.splits
        dest!: pwr_upd_job pwr_job_done pwr_job_next)
  then show "run_irq_handler env h s = Some t \<Longrightarrow> pwr t = pwr s"
    by (auto simp: run_irq_handler_def split: irq_handler_fn.splits)
qed

lemma pwr_schedule: "rknpu_job_schedule env j s = Some t \<Longrightarrow> pwr t = pwr s"
proof -
  have core: "pwr v = pwr u" if "schedule_core j i u = Some v" for i u v
    using that by (auto simp: schedule_core_def bind_eq_Some_conv dest!: pwr_lists(1))
  have enq: "pwr v = pwr u" if "schedule_enqueue j u = Some v" for u v
    using that by (auto simp: schedule_enqueue_def bind_eq_Some_conv elim!: pwr_for_each dest: core)
  have auto: "pwr v = pwr u" if "schedule_auto j u = Some v" for u v
    using that by (auto simp: schedule_auto_def bind_eq_Some_conv split: if_splits dest: pwr_upd_job)
  have nexts: "pwr v = pwr u" if "for_each is (rknpu_job_next env) u = Some v" for "is" u v
    using that by (auto elim!: pwr_for_each dest: pwr_job_next)
  assume run: "rknpu_job_schedule env j s = Some t"
  then obtain u J where u: "schedule_auto j s = Some u" and J: "jobs u j = Some J"
    by (auto simp: rknpu_job_schedule_def bind_eq_Some_conv)
  obtain ret v where v: "dev_domain_get (je_iommu env) (job_iommu_domain_id J) u = (ret, v)" by fastforce
  have "pwr v = pwr s" using pwr_domain_get [OF v] auto [OF u] by simp
  with run u J v show "pwr t = pwr s"
    by (auto simp: rknpu_job_schedule_def bind_eq_Some_conv split: if_splits dest!: enq nexts pwr_upd_job)
qed

lemma pwr_job_free:
  assumes "rknpu_job_free env j s = Some t" and "1 \<le> power_refcount (pwr s)"
  shows "pwr t = pwr s"
  using assms
  by (auto simp: rknpu_job_free_def bind_eq_Some_conv split: if_splits dest!: pwr_fences(1) dest: pwr_object_put)

lemma pwr_job_abort:
  assumes "rknpu_job_abort env j s = Some t" and "1 \<le> power_refcount (pwr s)"
  shows "pwr t = pwr s"
proof -
  have core: "pwr v = pwr u" if "abort_core j i u = Some v" for i u v
    using that by (auto simp: abort_core_def bind_eq_Some_conv split: if_splits)
  from assms(1) obtain J where J: "jobs s j = Some J" by (auto simp: rknpu_job_abort_def Let_def bind_eq_Some_conv)
  with assms(1) obtain u v where
    u: "for_each (mask_cores (cfg_num_irqs (config s)) (sub_core_mask (job_args J))) (abort_core j) (dev_domain_put s) = Some u"
    and v: "(if job_ret J = - ETIMEDOUT then map_option snd (rknpu_soft_reset (je_reset env) u) else Some u) = Some v"
    and t: "rknpu_job_free env j v = Some t"
    by (auto simp: rknpu_job_abort_def rknpu_job_cleanup_def Let_def bind_eq_Some_conv)
  have "pwr u = pwr s" using pwr_for_each [OF u core] by simp
  moreover have "pwr v = pwr u" using v by (auto split: if_splits dest: pwr_soft_reset)
  ultimately show ?thesis using pwr_job_free [OF t] assms(2) by simp
qed

lemma pwr_timeout_clean:
  assumes "rknpu_job_timeout_clean env m s = Some t"
  shows "pwr t = pwr s"
proof -
  have clear: "pwr v = pwr u" if "timeout_clear j i u = Some v" for j i u v
    using that by (auto simp: timeout_clear_def Let_def split: if_splits dest!: pwr_lists(3))
  have drain: "pwr v = pwr u" if "timeout_drain n i u = Some v" for n i u v
    using that
  proof (induction n arbitrary: u)
    case 0
    then show ?case by (subst (asm) timeout_drain.simps) (auto split: list.splits)
  next
    case (Suc n)
    from Suc.prems show ?case
      by (subst (asm) timeout_drain.simps)
         (auto simp: bind_eq_Some_conv split: list.splits simp del: timeout_drain.simps
           dest!: Suc.IH pwr_lists(4) pwr_for_each [OF _ pwr_lists(3)])
  qed
  have core: "pwr v = pwr u" if "timeout_core env i u = Some v" for i u v
    using that
    by (auto simp: timeout_core_def bind_eq_Some_conv split: option.splits if_splits
        dest!: drain pwr_lists(4) pwr_soft_reset pwr_for_each [OF _ clear] simp del: timeout_drain.simps)
  from assms show ?thesis unfolding rknpu_job_timeout_clean_def by (rule pwr_for_each) (rule core)
qed

lemma pwr_wait_loop:
  assumes "\<forall>k s t. je_others env k s = Some t \<longrightarrow> pwr t = pwr s" and "job_wait_loop env k j s = Some (r, u)"
  shows "pwr u = pwr s"
  using assms(2)
proof (induction "3 - k" arbitrary: k s rule: less_induct)
  case less
  from less.prems obtain v where v: "je_others env k s = Some v"
    by (subst (asm) job_wait_loop.simps) (auto simp: bind_eq_Some_conv)
  then have pv: "pwr v = pwr s" using assms(1) by blast
  from less.prems v consider "u = v" | "job_wait_loop env (k + 1) j v = Some (r, u)" "k + 1 < 3"
    by (subst (asm) job_wait_loop.simps)
       (auto simp: bind_eq_Some_conv Let_def simp del: job_wait_loop.simps split: if_splits)
  then show ?case
  proof cases
    case 2
    then show ?thesis using less.hyps [of "k + 1" v] pv by simp
  qed (use pv in simp)
qed

lemma pwr_job_wait:
  assumes "\<forall>k s t. je_others env k s = Some t \<longrightarrow> pwr t = pwr s" and "rknpu_job_wait env j s = Some (r, t)"
  shows "pwr t = pwr s"
proof -
  from assms(2) obtain u r' where u: "job_wait_loop env 0 j s = Some (r', u)"
    by (auto simp: rknpu_job_wait_def bind_eq_Some_conv Let_def)
  then have "pwr u = pwr s" by (rule pwr_wait_loop [OF assms(1)])
  have status: "pwr v = pwr w" if "set_task_int_status p st w = Some v" for p st v w
    using that by (auto simp: set_task_int_status_def bind_eq_Some_conv dest: pwr_upd_gem)
  from assms(2) u obtain J0 J where J: "jobs s j = Some J0" "jobs u j = Some J"
    by (auto simp: rknpu_job_wait_def bind_eq_Some_conv Let_def simp del: job_wait_loop.simps)
  note run = assms(2) [unfolded rknpu_job_wait_def Let_def J u Option.bind.simps prod.case]
  show ?thesis
  proof (cases "job_last_task J")
    case None
    with run J have "for_each [0..<job_use_core_num J] (wait_unlink j) u = Some t"
      by (auto simp: bind_eq_Some_conv)
    then have "pwr t = pwr u" by (rule pwr_for_each) (rule pwr_lists(5))
    with \<open>pwr u = pwr s\<close> show ?thesis by simp
  next
    case (Some p)
    with run J obtain st v where v: "set_task_int_status p st u = Some v" and "t = v \<or> (\<exists>f. upd_job j f v = Some t)"
      by (auto simp: bind_eq_Some_conv split: if_splits)
    with \<open>pwr u = pwr s\<close> status [OF v] show ?thesis by (auto dest: pwr_upd_job)
  qed
qed

lemma pwr_job_alloc: "rknpu_job_alloc env args s = Some (jo, t) \<Longrightarrow> pwr t = pwr s"
  by (auto simp: rknpu_job_alloc_def Let_def bind_eq_Some_conv split: option.splits if_splits dest!: pwr_object_get)

lemma pwr_submit_fences: "submit_fences env j args s = Some (e, args', t) \<Longrightarrow> pwr t = pwr s"
  by (auto simp: submit_fences_def Let_def bind_eq_Some_conv split: if_splits
      dest!: pwr_fences(3,4) pwr_upd_job)

lemma pwr_submit:
  assumes "\<forall>k s t. je_others env k s = Some t \<longrightarrow> pwr t = pwr s"
    and "rknpu_submit_fn env args s = Some (r, args', t)" and ref: "1 \<le> power_refcount (pwr s)"
  shows "pwr t = pwr s"
proof -
  have nonblock: "pwr v = pwr u" if "submit_nonblock env j a u = Some (x, a', v)" "1 \<le> power_refcount (pwr u)"
    for j a u x a' v
    using that
    by (auto simp: submit_nonblock_def bind_eq_Some_conv split: if_splits
        dest!: pwr_upd_job pwr_timeout_clean pwr_schedule dest: pwr_job_abort)
  have cleanup: "pwr v = pwr u" if "rknpu_job_cleanup env j u = Some v" "1 \<le> power_refcount (pwr u)" for j u v
    using that pwr_job_free by (simp add: rknpu_job_cleanup_def)
  have block: "pwr v = pwr u" if "submit_block env j u = Some (x, a', v)" "1 \<le> power_refcount (pwr u)" for j u x a' v
    using that
    by (auto simp: submit_block_def bind_eq_Some_conv split: if_splits
        dest!: pwr_upd_job pwr_schedule pwr_job_wait [OF assms(1)] dest: pwr_job_abort cleanup)
  show ?thesis
  proof (cases "sub_task_number args = 0 \<or> sub_core_mask args > cfg_core_mask (config s)")
    case True
    with assms(2) show ?thesis by (auto simp: rknpu_submit_fn_def split: if_splits)
  next
    case False
    with assms(2) obtain jo u where u: "rknpu_job_alloc env args s = Some (jo, u)"
      by (auto simp: rknpu_submit_fn_def bind_eq_Some_conv)
    have pu: "pwr u = pwr s" by (rule pwr_job_alloc [OF u])
    show ?thesis
    proof (cases jo)
      case None
      with assms(2) False u pu show ?thesis by (auto simp: rknpu_submit_fn_def)
    next
      case (Some j)
      with assms(2) False u obtain e a v where v: "submit_fences env j args u = Some (e, a, v)"
        by (auto simp: rknpu_submit_fn_def bind_eq_Some_conv)
      let ?share = "if has (sub_flags a) RKNPU_JOB_NONBLOCK then Some v
          else upd_job j (\<lambda>J. J\<lparr>job_args := (job_args J)\<lparr>sub_fence_fd := sub_fence_fd a\<rparr>\<rparr>) v"
      from assms(2) False u Some v obtain w where w: "?share = Some w"
        and rest: "(if e \<noteq> 0 then do { s \<leftarrow> rknpu_job_free env j w; Some (e, a, s) }
           else if has (sub_flags a) RKNPU_JOB_NONBLOCK then submit_nonblock env j a w
           else submit_block env j w) = Some (r, args', t)"
        by (auto simp: rknpu_submit_fn_def bind_eq_Some_conv split del: if_split)
      have "pwr v = pwr s" using pwr_submit_fences [OF v] pu by simp
      moreover have "pwr w = pwr v" using w by (auto split: if_splits dest: pwr_upd_job)
      ultimately have "pwr w = pwr s" by simp
      with rest ref show ?thesis
        by (auto simp: bind_eq_Some_conv split: if_splits dest: pwr_job_free nonblock block)
    qed
  qed
qed

lemma pwr_action: "rknpu_action_fn env args s = Some (r, args', nice, t) \<Longrightarrow> pwr t = pwr s"
  by (auto simp: rknpu_action_fn_def rknpu_set_bw_priority_def rknpu_clear_rw_amount_def clear_pulses_def Let_def
      bind_eq_Some_conv split: if_splits prod.splits option.splits dest: pwr_soft_reset pwr_domain_get)

section \<open>Every step keeps the power accounting\<close>

lemma power_inv_cong: "pwr t = pwr s \<Longrightarrow> power_inv (s, users) \<Longrightarrow> power_inv (t, users)"
  by (auto simp: power_inv_def split: if_splits)

lemma pwr_drm_func:
  assumes "quiet (Ioctl env file data)" and "drm_func env file data s = Some (r, data', t)"
    and "1 \<le> power_refcount (pwr s)"
  shows "pwr t = pwr s"
proof (cases data)
  case (D_Action a)
  with assms(2) show ?thesis by (auto simp: drm_func_def rknpu_action_ioctl_def bind_eq_Some_conv dest: pwr_action)
next
  case (D_Submit x)
  moreover have "\<forall>k s t. je_others (de_job env) k s = Some t \<longrightarrow> pwr t = pwr s" using assms(1) by (simp add: quiet_def)
  moreover obtain x' where "rknpu_submit_fn (de_job env) x s = Some (r, x', t)"
    using D_Submit assms(2) by (auto simp: drm_func_def rknpu_submit_ioctl_def bind_eq_Some_conv)
  ultimately show ?thesis using assms(3) by (intro pwr_submit)
next
  case (D_Mem_Create x)
  with assms(2,3) pwr_create_ioctl show ?thesis by (auto simp: drm_func_def bind_eq_Some_conv)
next
  case (D_Mem_Map x)
  with assms(2) show ?thesis by (auto simp: drm_func_def rknpu_gem_map_ioctl_def bind_eq_Some_conv)
next
  case (D_Mem_Destroy x)
  with assms(2,3) pwr_destroy_ioctl show ?thesis by (auto simp: drm_func_def bind_eq_Some_conv)
next
  case (D_Mem_Sync x)
  with assms(2) show ?thesis by (auto simp: drm_func_def bind_eq_Some_conv dest: pwr_sync_ioctl)
qed

lemma power_inv_ioctl:
  assumes "power_inv (s, users)" and "quiet (Ioctl env file data)" and "rknpu_ioctls env file data s = Some (r, t)"
  shows "power_inv (t, users)"
proof -
  obtain ret u where u: "rknpu_power_get (de_power env) s = (ret, u)" by fastforce
  note inv = power_inv_get [OF assms(1) u]
  show ?thesis
  proof (cases "ret = 0")
    case False
    with inv u assms(3) show ?thesis by (simp add: rknpu_ioctls_def RKNPU_IOCTL_def)
  next
    case True
    with u assms(3) obtain data' v r' where v: "drm_func env file data u = Some (r, data', v)"
      and t: "rknpu_power_put_delay (de_depth env) (de_power env) v = Some (r', t)"
      by (auto simp: rknpu_ioctls_def RKNPU_IOCTL_def bind_eq_Some_conv)
    have u': "power_inv (u, users + 1)" using inv True by simp
    then have "1 \<le> power_refcount (pwr u)" by (auto simp: power_inv_def)
    from pwr_drm_func [OF assms(2) v this] have "power_inv (v, users + 1)" using u' by (rule power_inv_cong)
    from power_inv_put(2) [OF this _ t] show ?thesis by simp
  qed
qed

text \<open>
  A buffer freed outside an ioctl powers the device by itself. A failed \<open>rknpu_power_get\<close> is not noticed, but then
  the count is 0 and the put that follows finds nothing to drop.
\<close>

lemma idle_put:
  assumes "power_refcount (pwr s) = 0" and "rknpu_power_put_delay n env s = Some (r, t)"
  shows "t = s"
proof -
  have "drop_power env s = (0, s)" using assms(1) by (simp add: drop_power_def)
  then have "rknpu_power_put m env s = Some (r, t) \<Longrightarrow> t = s" for m by (cases m) auto
  with assms show ?thesis by (cases n) (auto simp: delay_section_def split: if_splits)
qed

lemma power_inv_free_object:
  assumes "power_inv (s, users)" and "rknpu_gem_free_object env addr s = Some t"
  shows "power_inv (t, users)"
proof -
  obtain ret u where u: "rknpu_power_get (gem_power env) s = (ret, u)" by fastforce
  with assms(2) obtain v r where v: "rknpu_gem_object_destroy env addr u = Some v"
    and t: "rknpu_power_put_delay (power_depth env) (gem_power env) v = Some (r, t)"
    by (auto simp: rknpu_gem_free_object_def bind_eq_Some_conv)
  have pv: "pwr v = pwr u" by (rule pwr_object_destroy [OF v])
  note inv = power_inv_get [OF assms(1) u]
  show ?thesis
  proof (cases "ret = 0")
    case True
    with inv have "power_inv (u, users + 1)" by simp
    then have "power_inv (v, users + 1)" by (rule power_inv_cong [OF pv])
    from power_inv_put(2) [OF this _ t] show ?thesis by simp
  next
    case False
    have "\<not> devfreq_lock (pwr s)" using assms(1) by (simp add: power_inv_def)
    from power_get_cases [OF this u] False have "power_refcount (pwr s) = 0" "pwr u = pwr s" by auto
    with pv have "pwr v = pwr s" "power_refcount (pwr v) = 0" by simp_all
    with idle_put [OF _ t] have "pwr t = pwr s" by simp
    then show ?thesis using assms(1) by (rule power_inv_cong)
  qed
qed

lemma power_inv_cleanup:
  assumes "power_inv (s, users)" and "rknpu_job_cleanup_work env j s = Some t"
  shows "power_inv (t, users)"
proof -
  let ?s = "s\<lparr>cleanup_works := remove1 j (cleanup_works s)\<rparr>"
  have inv: "power_inv (?s, users)" using assms(1) by (rule power_inv_cong [rotated]) simp
  have put: "power_inv (v, users)" if "rknpu_gem_object_put (je_gem env) addr ?s = Some v" for addr v
  proof -
    from that obtain u where "pwr u = pwr ?s" and "v = u \<or> rknpu_gem_free_object (je_gem env) addr u = Some v"
      by (auto simp: rknpu_gem_object_put_def Let_def bind_eq_Some_conv split: if_splits dest: pwr_upd_gem)
    moreover have "power_inv (u, users)" using calculation(1) inv by (rule power_inv_cong)
    ultimately show ?thesis using power_inv_free_object by blast
  qed
  from assms(2) obtain J where J: "jobs s j = Some J"
    by (auto simp: rknpu_job_cleanup_work_def rknpu_job_cleanup_def rknpu_job_free_def bind_eq_Some_conv)
  with assms(2) obtain u v where u: "(if CONFIG_ROCKCHIP_RKNPU_DRM_GEM (build ?s) \<and> sub_task_obj_addr (job_args J) \<noteq> 0
      then rknpu_gem_object_put (je_gem env) (sub_task_obj_addr (job_args J)) ?s else Some ?s) = Some u"
    and v: "put_fence (job_fence J) u = Some v" and t: "t = v\<lparr>jobs := (jobs v)(j := None)\<rparr>"
    by (auto simp: rknpu_job_cleanup_work_def rknpu_job_cleanup_def rknpu_job_free_def bind_eq_Some_conv
        split del: if_split)
  have "power_inv (u, users)" using u put inv by (auto split: if_splits)
  moreover have "pwr t = pwr u" using t pwr_fences(1) [OF v] by simp
  ultimately show ?thesis by (metis power_inv_cong)
qed

lemma power_inv_off_work:
  assumes "power_inv (s, users)" and "power_off_work (pwr s)" and "rknpu_power_off_delay_work n env s = Some t"
  shows "power_inv (t, users)"
proof -
  obtain ret u where u: "drop_power env (set_off_work False s) = (ret, u)" by fastforce
  have "power_inv (u, if ret = 0 then users + 1 - 1 else users + 1)"
    using power_inv_work [OF assms(1,2)] by (intro power_inv_drop [OF _ _ u]) simp_all
  with assms(3) u show ?thesis
    using power_inv_put(2) [of u "users + 1" n env]
    by (auto simp: rknpu_power_off_delay_work_def bind_eq_Some_conv split: if_splits)
qed

lemma drm_step_power:
  assumes "power_inv (s, users)" and "quiet e" and "drm_step e s = Some t"
  shows "power_inv (t, users)"
proof (cases e)
  case (Ioctl env fl data)
  with assms(3) obtain r where "rknpu_ioctls env fl data s = Some (r, t)" by auto
  with assms(1,2) Ioctl show ?thesis using power_inv_ioctl by blast
next
  case (Irq env h)
  with assms(3) have "pwr t = pwr s" by (simp add: pwr_irq)
  then show ?thesis using assms(1) by (rule power_inv_cong)
next
  case (Cleanup env j)
  with assms(1,3) show ?thesis by (auto split: if_splits intro: power_inv_cleanup)
next
  case (Power_Off n env)
  with assms(1,3) show ?thesis by (auto split: if_splits intro: power_inv_off_work)
qed

end
