(* ===== verification/Spec2Isabelle.thy ===== *)
theory Spec2Isabelle
  imports Rknpu_Dispatch Rknpu_Faults Rknpu_Gem_Map Rknpu_Action Rknpu_Devfreq Rknpu_Debugger Rknpu_Probe
    Rknpu_Session Rknpu_Ioctl
begin

text \<open>
  The RKNPU driver (an out-of-tree kernel module for the neural processing unit of Rockchip SoCs): a model of its
  C sources and the properties that make it correct, and some that show where it is not.

  \<^bold>\<open>The program.\<close> \<open>rknpu_probe\<close> (\<open>src/src/rknpu_drv.c\<close>) binds the driver to a device: it chooses the SoC's
  configuration table, takes resets, clocks, regulators, interrupts, power domains and the IOMMU group, registers a
  DRM device and leaves the hardware off. Clients open the DRM device (or, in another build, a misc device over DMA
  heaps) and call ioctls, each inside a bracket that powers the device (\<open>RKNPU_IOCTL\<close>, \<open>rknpu_ioctl\<close>). They create buffer objects (\<open>rknpu_gem.c\<close>), map and synchronise them, query
  and tune the device (the action ioctl) and submit jobs (\<open>rknpu_job.c\<close>). A job is queued on each core of its mask;
  a core takes the first job of its queue when it is idle, a job starts when all its cores have taken it, the
  hardware is given chunks of tasks, and the interrupt handler continues with the next chunk or completes the job.
  A job runs in the I/O address space of its buffers (\<open>rknpu_iommu.c\<close>), may wait for and signal fences
  (\<open>rknpu_fence.c\<close>), and a timeout leads to a soft reset (\<open>rknpu_reset.c\<close>). A periodic timer samples the load of the
  cores for frequency scaling (\<open>rknpu_devfreq.c\<close>); debug files (\<open>rknpu_debugger.c\<close>) show the state and can hold the
  power on, set the delay of the power-off, the frequency and trigger a reset.

  \<^bold>\<open>The model.\<close> The device is one record, \<open>rknpu_device\<close>, whose fields keep the names of \<open>struct rknpu_device\<close>, plus
  what the kernel keeps on the driver's behalf: usage counts of the power rails, the attached IOMMU domain, the
  handle tables, the register writes in program order, and counts of what was acquired and not yet released. Each
  C function is a HOL function of the same name on this record; a section of a larger function has a name of its
  own. A result \<open>None\<close> is a memory fault or, for functions with a depth, a recursion that is too deep; error returns
  are negative integers as in C. What the kernel answers (allocations, clocks, register reads, other contexts that
  run while the code sleeps) is the content of an environment record, one per component, so the theorems hold for
  every kernel behaviour the hypotheses allow. Integers that can wrap are words; signed fields are
  \<open>int\<close> with \<open>s32\<close> and \<open>s64\<close> written out where the code computes with them. Where the source has alternatives for kernel versions, the
  one for kernels from 6.1 on is modelled; configuration switches of the build are the record \<open>build_config\<close>.

  \<^item> \<open>Rknpu_Prelude\<close>: integer types, error numbers, the loop \<open>for_each\<close> that may fault, and two interfaces as
    locales: \<open>invariant_system\<close>, a transition system with an invariant, and \<open>ledger\<close>, counted resources.
  \<^item> \<open>Rknpu_Types\<close>: the structures of the headers (\<open>rknpu_ioctl.h\<close>, \<open>rknpu_drv.h\<close>, \<open>rknpu_job.h\<close>, \<open>rknpu_gem.h\<close>,
    \<open>rknpu_fence.h\<close>, \<open>rknpu_mm.h\<close>).
  \<^item> \<open>Rknpu_Uabi\<close>: the ioctl structures as bytes, the enumerations and the ioctl numbers of \<open>rknpu_ioctl.h\<close>. The
    locale \<open>layout\<close> is the contract of reading and writing a structure, interpreted for each of the seven; the
    numbers carry the sizes of the structures.
  \<^item> \<open>Rknpu_Config\<close>: the SoC tables, the choice among them and the version macros. Every configuration the probe can
    choose is well formed (\<open>config_ok\<close>), which the job theories build on.
  \<^item> \<open>Rknpu_Iommu\<close>: domain switching and its reference-counted bracket. The locale \<open>domain_lease\<close> is the contract of
    the bracket; a holder keeps its domain, a successful switch leaves the table in agreement with the hardware,
    and a failed one changes nothing.
  \<^item> \<open>Rknpu_Power\<close>: rails, reference count, delayed power-off, the ioctl bracket, suspend and resume. Powering on is
    all or nothing, users never lose power, the mutually recursive put functions return within two calls or, under
    conditions the driver can meet, never.
  \<^item> \<open>Rknpu_Reset\<close>, \<open>Rknpu_Fence\<close>: the reset sequence and its outcome; fences and their sequence numbers.
  \<^item> \<open>Rknpu_Gem\<close>, \<open>Rknpu_Gem_Map\<close>: buffer objects. Creation is all or nothing with respect to everything it acquires
    and destruction undoes it; cache maintenance covers the range asked for, mappings stay inside the buffer.
  \<^item> \<open>Rknpu_Job\<close>: the model of \<open>rknpu_job.c\<close>. \<open>Rknpu_Dispatch\<close>: what is computed for one core; chunks partition the
    tasks and the registers written stand for exactly one chunk. \<open>Rknpu_Sched\<close> abstracts the device to
    \<open>sched_view\<close>, on which the queueing operations are simple steps, and proves that the operations of the code
    refine them. \<open>Rknpu_Progress\<close> closes this under all interleavings (\<open>sched_run\<close>): an invariant, first-in first-out
    service per core, and no deadlock among jobs that occupy several cores. \<open>Rknpu_Faults\<close>: the error paths of
    submission, those that are right and those that are not.
  \<^item> \<open>Rknpu_Action\<close>: the action ioctl with the queries of bandwidth, amounts and versions.
  \<^item> \<open>Rknpu_Devfreq\<close>: the load timer and frequency scaling; no time is lost between samples, and the recorded
    frequency and voltage are those of one operating point.
  \<^item> \<open>Rknpu_Debugger\<close>: the debug files, and the power switch among them beside the users of the power theory.
  \<^item> \<open>Rknpu_Probe\<close>: probe, removal and what they call. The resources held are tracked as a set through the stages and
    error labels (\<open>ledger\<close>); a failing probe gives everything back, a successful one establishes the initial states
    of the state machines above, and removal gives back what the probe took.
  \<^item> \<open>Rknpu_Ioctl\<close>: the table of DRM ioctls, each handler in its power bracket, and the map ioctl; every handler, the
    interrupt handler and the work items leave the power accounting alone outside their own bracket.
  \<^item> \<open>Rknpu_Session\<close>: the interface over DMA heaps (\<open>rknpu_open\<close>, \<open>rknpu_release\<close>, \<open>rknpu_ioctl\<close>). On the bytes of a
    structure the ioctl does what the handler does on the structure, closing a session gives back what its buffers
    hold, and two defects of the dispatcher are exhibited.
  \<^item> this theory: properties that connect the probe with power and debugger, with every ioctl, interrupt and work
    item, and reset with scheduler.

  \<^bold>\<open>Bounds.\<close> \<open>rknpu_power_put\<close> and \<open>rknpu_power_put_delay\<close> have a recursion depth: two is enough when the power-off
  succeeds or a delay is set, and no depth is enough otherwise, which are both proved. Waiting for an IOMMU
  domain makes as many rounds as fit before the code's own deadline (\<open>wait_rounds\<close>, arbitrary). The drain loop of
  \<open>rknpu_job_timeout_clean\<close> takes one element off a queue per round and gets the length of the queue as fuel. All
  other loops run over a list fixed beforehand.

  \<^bold>\<open>Not modelled.\<close> The memory handlers of the DMA-heap interface (\<open>rknpu_mem.c\<close>) and the allocator behind
  \<open>rknpu_mm.h\<close>, whose sources are not in the repository (the handlers and the allocator's results are arguments);
  variants for kernels before 6.1, other than \<open>rknpu_gem_dumb_map_offset\<close>; functions that only forward to one kernel
  function (\<open>rknpu_gem_prime_import\<close>, \<open>rknpu_gem_prime_get_sg_table\<close>, the open functions of the debug files); module
  registration and log messages. Sections under a lock are atomic steps; the weak memory order of unlocked
  accesses is outside the model.
\<close>

section \<open>Properties that span components\<close>




text \<open>Reading the driver version, on a device just probed.\<close>

definition sample_drm_env :: drm_env where
  "sample_drm_env = \<lparr>de_power = power_env_ok, de_depth = 2, de_act = act_env_ok, de_job = sample_env,
     de_gem = gem_env_ok, de_iommu = env_example, de_map_offset = (\<lambda>f h s. Some (0, Some 0))\<rparr>"


text \<open>
  C28: a failed reset stalls every core until a reset succeeds. When a reset control fails, \<open>rknpu_soft_reset\<close> reports
  the error but leaves \<open>soft_reseting\<close> set; from then on \<open>rknpu_job_next\<close> takes no job on any core, so what is
  queued stays queued. A later reset whose controls all obey ends the stall.
\<close>

theorem failed_reset_stalls:
  assumes "controls_ok (rst s)" and "\<not> bypass_soft_reset (rst s)" and "\<not> reset_lock (rst s)"
    and "\<not> controls_obey env (rst s)" and "controls_obey env' (rst s)"
  shows "\<exists>ret t u. rknpu_soft_reset env s = Some (ret, t) \<and> ret \<noteq> 0 \<and>
           (\<forall>jenv i. rknpu_job_next jenv i t = Some t) \<and>
           rknpu_soft_reset env' t = Some (0, u) \<and> \<not> soft_reseting (rst u) \<and>
           (\<forall>i. todo_list (subcore_datas u i) = todo_list (subcore_datas s i))"
proof -
  obtain ret l where ret: "ret \<noteq> 0"
    and t: "rknpu_soft_reset env s = Some (ret, wake_all s\<lparr>rst := (rst s)\<lparr>soft_reseting := True, line_asserted := l\<rparr>\<rparr>)"
    using soft_reset_cases [OF assms(1-3), of env] assms(4) by metis
  let ?t = "wake_all s\<lparr>rst := (rst s)\<lparr>soft_reseting := True, line_asserted := l\<rparr>\<rparr>"
  have "controls_ok (rst ?t)" "\<not> bypass_soft_reset (rst ?t)" "\<not> reset_lock (rst ?t)" "controls_obey env' (rst ?t)"
    using assms by (simp_all add: controls_ok_def controls_obey_def in_use_def)
  from soft_reset_cases [OF this(1-3), of env'] this(4)
  obtain l' where u: "rknpu_soft_reset env' ?t = Some (0, run_state_init (set_soft_reseting False
      (wake_all ?t\<lparr>rst := (rst ?t)\<lparr>line_asserted := l'\<rparr>, iommu := reattach (reattach_env env') (iommu ?t)\<rparr>)))"
    by metis
  have todo: "todo_list (subcore_datas (wake_all x) i) = todo_list (subcore_datas x i)" for x i
    using arg_cong [OF wake_all_subcore [of x i, unfolded same_subcore_def], of todo_list] by simp
  have run: "rst (run_state_init x) = rst x" "subcore_datas (run_state_init x) = subcore_datas x" for x
    using run_state_init_mmio [of x] by auto
  have "rknpu_job_next jenv i ?t = Some ?t" for jenv i by (simp add: rknpu_job_next_def)
  with t u ret show ?thesis by (simp add: run todo set_soft_reseting_def)
qed

theorem failed_reset_stalls_witness:
  "\<exists>ret t u. rknpu_soft_reset (reset_env_ok\<lparr>deassert_ret := (\<lambda>c. 0)(1 := - EIO)\<rparr>) sample_device = Some (ret, t) \<and>
     ret \<noteq> 0 \<and> (\<forall>jenv i. rknpu_job_next jenv i t = Some t) \<and>
     rknpu_soft_reset reset_env_ok t = Some (0, u) \<and> \<not> soft_reseting (rst u)"
proof -
  let ?env = "reset_env_ok\<lparr>deassert_ret := (\<lambda>c. 0)(1 := - EIO)\<rparr>"
  have "\<not> controls_obey ?env (rst sample_device)" "controls_obey reset_env_ok (rst sample_device)"
    by (auto simp: controls_obey_def in_use_def sample_device_def reset_env_ok_def)
  from failed_reset_stalls [OF _ _ _ this] show ?thesis
    by (auto simp: controls_ok_def sample_device_def)
qed

end
